theory Spec2Isabelle
  imports Main "HOL-Library.Word"
begin

unbundle bit_operations_syntax

section \<open>honggfuzz input mangling (mangle.c, util.c): a shallow embedding\<close>

subsection \<open>Results and errors\<close>

text \<open>
  Every way in which a call of the C code fails to return is a value of \<open>error\<close>:
  \<open>Fatal\<close> is a \<^verbatim>\<open>LOG_F\<close> / \<^verbatim>\<open>LOGMSG(l_FATAL, ...)\<close> abort,
  \<open>MemFault\<close> is an access outside the storage of the object that is read or written,
  \<open>DivByZero\<close> is an integer division or remainder by zero.
\<close>

datatype error = Fatal | MemFault | DivByZero

definition bindE :: "error + 'a \<Rightarrow> ('a \<Rightarrow> error + 'b) \<Rightarrow> error + 'b" where
  "bindE m f = (case m of Inl e \<Rightarrow> Inl e | Inr x \<Rightarrow> f x)"

subsection \<open>Data model\<close>

type_synonym byte = "8 word"
type_synonym u64 = "64 word"

text \<open>
  \<^verbatim>\<open>run_t\<close>: the fields of \<^verbatim>\<open>run->dynfile\<close> are flattened into the record.
  \<open>dyn_data\<close> is the whole backing storage of \<^verbatim>\<open>run->dynfile->data\<close> (its length is the
  capacity of the mapping), \<open>dyn_size\<close> is \<^verbatim>\<open>run->dynfile->size\<close>. Sizes and offsets
  (\<^verbatim>\<open>size_t\<close>) are natural numbers; where the C code subtracts them without a guard the
  wrap-around modulo \<open>2 ^ 64\<close> is written out (\<open>size_sub\<close>).

  The environment read by the code is part of the state: \<open>entropy\<close> is the sequence of 64-bit
  values obtained from \<^verbatim>\<open>/dev/urandom\<close> mixed with the clock, \<open>drawn\<close> counts how many of
  them have been consumed, \<open>timeNowMillis\<close> is the value of \<^verbatim>\<open>util_timeNowMillis()\<close>.
\<close>

record run_t =
  dyn_data :: "byte list"
  dyn_size :: nat
  mutationsPerRun :: nat
  entropy :: "nat \<Rightarrow> u64"
  drawn :: nat
  timeNowMillis :: int

record cmpfeedback_t =
  cnt :: "32 word"
  valArr :: "(byte list \<times> nat) list"

text \<open>
  \<^verbatim>\<open>run->global\<close> (read-only while mangling). The fields are named after their C paths:
  \<open>mutate_maxInputSz\<close> is \<^verbatim>\<open>run->global->mutate.maxInputSz\<close>, and so on. A dictionary
  or feedback entry is a pair of the bytes of its \<^verbatim>\<open>val\<close> array and its \<^verbatim>\<open>len\<close> field.

  Two things the code uses are declared outside the files at hand and are taken as
  parameters here: \<open>HF_INPUT_MAX_SIZE\<close> is the macro \<^verbatim>\<open>_HF_INPUT_MAX_SIZE\<close>, and
  \<open>prior_input\<close> is the corpus accessor behind \<^verbatim>\<open>input_getRandomInputAsBuf\<close>.
\<close>

record honggfuzz_t =
  mutate_maxInputSz :: nat
  mutate_mutationsPerRun :: nat
  mutate_dictionary :: "(byte list \<times> nat) list"
  mutate_dictionaryCnt :: nat
  cfg_only_printable :: bool
  feedback_cmpFeedback :: bool
  feedback_cmpFeedbackMap :: cmpfeedback_t
  timing_lastCovUpdate :: int
  HF_INPUT_MAX_SIZE :: nat
  prior_input :: "u64 \<Rightarrow> byte list"

text \<open>A \<^verbatim>\<open>const uint8_t*\<close> argument: either a buffer of its own, or a pointer
  \<^verbatim>\<open>&run->dynfile->data[k]\<close> into the input that is being mutated.\<close>

datatype src_ptr = Buf "byte list" | Dyn nat

text \<open>\<^verbatim>\<open>a - b\<close> on \<^verbatim>\<open>size_t\<close>.\<close>

definition size_sub :: "nat \<Rightarrow> nat \<Rightarrow> nat" where
  "size_sub a b = (if b \<le> a then a - b else (2 ^ 64 + a - b) mod 2 ^ 64)"

text \<open>Modelled from the spec: the macros \<^verbatim>\<open>HF_MIN\<close> and \<^verbatim>\<open>HF_MAX\<close> come from
  \<^verbatim>\<open>libhfcommon/common.h\<close>, which is not among the files at hand; they are the spec's
  \<open>min\<close> and \<open>max\<close>. \<^verbatim>\<open>HF_MAX_LEN_BLOCK\<close> is defined in mangle.c.\<close>

definition HF_MIN :: "nat \<Rightarrow> nat \<Rightarrow> nat" where
  "HF_MIN x y = (if x \<le> y then x else y)"

definition HF_MAX :: "nat \<Rightarrow> nat \<Rightarrow> nat" where
  "HF_MAX x y = (if x \<ge> y then x else y)"

definition HF_MAX_LEN_BLOCK :: nat where
  "HF_MAX_LEN_BLOCK = 512"

subsection \<open>Memory\<close>

text \<open>Reading and writing \<open>n\<close> bytes of an array at an offset. An access of length zero
  touches nothing.\<close>

definition load :: "byte list \<Rightarrow> nat \<Rightarrow> nat \<Rightarrow> error + byte list" where
  "load mem off n =
     (if n = 0 then Inr []
      else if off + n \<le> length mem then Inr (take n (drop off mem))
      else Inl MemFault)"

definition store :: "byte list \<Rightarrow> nat \<Rightarrow> byte list \<Rightarrow> error + byte list" where
  "store mem off bs =
     (if bs = [] then Inr mem
      else if off + length bs \<le> length mem
        then Inr (take off mem @ bs @ drop (off + length bs) mem)
      else Inl MemFault)"

definition load_src :: "run_t \<Rightarrow> src_ptr \<Rightarrow> nat \<Rightarrow> error + byte list" where
  "load_src run src n =
     (case src of Buf bs \<Rightarrow> load bs 0 n | Dyn k \<Rightarrow> load (dyn_data run) k n)"

text \<open>\<^verbatim>\<open>memmove(&run->dynfile->data[off], src, n)\<close>: the source is read in full, then
  written.\<close>

definition memmove_dyn :: "run_t \<Rightarrow> nat \<Rightarrow> src_ptr \<Rightarrow> nat \<Rightarrow> error + run_t" where
  "memmove_dyn run off src n =
     bindE (load_src run src n) (\<lambda>bs.
     bindE (store (dyn_data run) off bs) (\<lambda>d.
     Inr (run\<lparr>dyn_data := d\<rparr>)))"

text \<open>\<^verbatim>\<open>memset(&run->dynfile->data[off], c, n)\<close>.\<close>

definition memset_dyn :: "run_t \<Rightarrow> nat \<Rightarrow> byte \<Rightarrow> nat \<Rightarrow> error + run_t" where
  "memset_dyn run off c n =
     bindE (store (dyn_data run) off (replicate n c)) (\<lambda>d.
     Inr (run\<lparr>dyn_data := d\<rparr>))"

subsection \<open>util.c: random numbers\<close>

text \<open>The next 64-bit value of the entropy source.\<close>

definition next_entropy :: "run_t \<Rightarrow> u64 \<times> run_t" where
  "next_entropy run = (entropy run (drawn run), run\<lparr>drawn := Suc (drawn run)\<rparr>)"

text \<open>\<^verbatim>\<open>util_rndGet(min, max)\<close> of util.c.\<close>

definition util_rndGet :: "u64 \<Rightarrow> u64 \<Rightarrow> run_t \<Rightarrow> error + (u64 \<times> run_t)" where
  "util_rndGet mn mx run =
     (let (rnd, run') = next_entropy run in
      if mn > mx then Inl Fatal
      else if mx - mn + 1 = 0 then Inl DivByZero
      else Inr ((rnd mod (mx - mn + 1)) + mn, run'))"

text \<open>Modelled from the spec: \<^verbatim>\<open>util_rnd64\<close> is not in util.c as given; the spec's
  \<open>rnd64() -> u64\<close> returns one value of the generator.\<close>

definition util_rnd64 :: "run_t \<Rightarrow> u64 \<times> run_t" where
  "util_rnd64 run = next_entropy run"

subsection \<open>mangle.c: the length sampler\<close>

definition mangle_LenLeft :: "run_t \<Rightarrow> nat \<Rightarrow> error + nat" where
  "mangle_LenLeft run off =
     (if off \<ge> dyn_size run then Inl Fatal
      else Inr (dyn_size run - off - 1))"

definition mangle_getLen :: "honggfuzz_t \<Rightarrow> nat \<Rightarrow> run_t \<Rightarrow> error + (nat \<times> run_t)" where
  "mangle_getLen g mx run =
     (if mx > HF_INPUT_MAX_SIZE g then Inl Fatal
      else if mx = 0 then Inl Fatal
      else if mx = 1 then Inr (1, run)
      else
        let max2 = (of_nat mx :: u64) * of_nat mx;
            max3 = (of_nat mx :: u64) * of_nat mx * of_nat mx
        in bindE (util_rndGet 1 (max2 - 1) run) (\<lambda>(rnd, run').
           if max3 = 0 then Inl DivByZero
           else
             let ret = rnd * rnd div max3 + 1 in
             if ret < 1 then Inl Fatal
             else if ret > of_nat mx then Inl Fatal
             else Inr (unat ret, run')))"

definition mangle_getOffSet :: "honggfuzz_t \<Rightarrow> run_t \<Rightarrow> error + (nat \<times> run_t)" where
  "mangle_getOffSet g run =
     bindE (mangle_getLen g (dyn_size run) run) (\<lambda>(len, run'). Inr (len - 1, run'))"


text \<open>Modelled from the spec: \<^verbatim>\<open>util_rndPrintable\<close>, \<^verbatim>\<open>util_rndBuf\<close>,
  \<^verbatim>\<open>util_rndBufPrintable\<close> and \<^verbatim>\<open>util_turnToPrintable\<close> are not in util.c as given.
  The spec has \<open>rndPrintable\<close> return one byte of \<open>[0x20, 0x7E]\<close>, \<open>rndBuf\<close> and
  \<open>rndBufPrintable\<close> produce \<open>len\<close> arbitrary, respectively printable, bytes, and
  \<open>turnToPrintable\<close> remap every byte by \<open>b mod 95 + 32\<close>.\<close>

definition util_rndPrintable :: "run_t \<Rightarrow> error + (byte \<times> run_t)" where
  "util_rndPrintable run =
     bindE (util_rndGet 32 126 run) (\<lambda>(r, run'). Inr (ucast r, run'))"

fun util_rndBuf :: "nat \<Rightarrow> run_t \<Rightarrow> byte list \<times> run_t" where
  "util_rndBuf 0 run = ([], run)"
| "util_rndBuf (Suc n) run =
     (let (w, run1) = util_rnd64 run;
          (bs, run2) = util_rndBuf n run1
      in (ucast w # bs, run2))"

fun util_rndBufPrintable :: "nat \<Rightarrow> run_t \<Rightarrow> error + (byte list \<times> run_t)" where
  "util_rndBufPrintable 0 run = Inr ([], run)"
| "util_rndBufPrintable (Suc n) run =
     bindE (util_rndPrintable run) (\<lambda>(b, run1).
     bindE (util_rndBufPrintable n run1) (\<lambda>(bs, run2).
     Inr (b # bs, run2)))"

definition to_printable :: "byte \<Rightarrow> byte" where
  "to_printable b = b mod 95 + 32"

definition util_turnToPrintable :: "run_t \<Rightarrow> nat \<Rightarrow> nat \<Rightarrow> error + run_t" where
  "util_turnToPrintable run off len =
     bindE (load (dyn_data run) off len) (\<lambda>bs.
     bindE (store (dyn_data run) off (map to_printable bs)) (\<lambda>d.
     Inr (run\<lparr>dyn_data := d\<rparr>)))"

text \<open>Modelled from the spec: \<^verbatim>\<open>input_setSize\<close> (input.c) is not among the files at hand;
  the spec's \<open>buffer.set_size(n)\<close> sets the logical length and leaves the storage alone.\<close>

definition input_setSize :: "run_t \<Rightarrow> nat \<Rightarrow> run_t" where
  "input_setSize run sz = run\<lparr>dyn_size := sz\<rparr>"

text \<open>Modelled from the spec: \<^verbatim>\<open>input_getRandomInputAsBuf\<close> (input.c) hands out a prior
  input of the corpus, possibly of size \<open>0\<close>. Which one is decided by the accessor
  \<open>prior_input\<close> from one value of the entropy source.\<close>

definition input_getRandomInputAsBuf :: "honggfuzz_t \<Rightarrow> run_t \<Rightarrow> (nat \<times> byte list) \<times> run_t" where
  "input_getRandomInputAsBuf g run =
     (let (w, run') = next_entropy run; buf = prior_input g w
      in ((length buf, buf), run'))"

text \<open>One byte of the input: \<^verbatim>\<open>run->dynfile->data[off]\<close> as an rvalue and as an lvalue.\<close>

definition dyn_get :: "run_t \<Rightarrow> nat \<Rightarrow> error + byte" where
  "dyn_get run off =
     (if off < length (dyn_data run) then Inr (dyn_data run ! off) else Inl MemFault)"

definition dyn_set :: "run_t \<Rightarrow> nat \<Rightarrow> byte \<Rightarrow> error + run_t" where
  "dyn_set run off b =
     (if off < length (dyn_data run) then Inr (run\<lparr>dyn_data := (dyn_data run)[off := b]\<rparr>)
      else Inl MemFault)"

text \<open>An element of a C array whose extent is the length of the list.\<close>

definition array_get :: "'a list \<Rightarrow> nat \<Rightarrow> error + 'a" where
  "array_get xs i = (if i < length xs then Inr (xs ! i) else Inl MemFault)"

subsection \<open>mangle.c: buffer primitives\<close>

definition mangle_Move :: "run_t \<Rightarrow> nat \<Rightarrow> nat \<Rightarrow> nat \<Rightarrow> error + run_t" where
  "mangle_Move run off_from off_to len =
     (if off_from \<ge> dyn_size run then Inr run
      else if off_to \<ge> dyn_size run then Inr run
      else
        let len_from = dyn_size run - off_from;
            len1 = HF_MIN len len_from;
            len_to = dyn_size run - off_to;
            len2 = HF_MIN len1 len_to
        in memmove_dyn run off_to (Dyn off_from) len2)"

definition mangle_Overwrite :: "run_t \<Rightarrow> nat \<Rightarrow> src_ptr \<Rightarrow> nat \<Rightarrow> bool \<Rightarrow> error + run_t" where
  "mangle_Overwrite run off src len printable =
     (if len = 0 then Inr run
      else
        let maxToCopy = size_sub (dyn_size run) off;
            len1 = (if len > maxToCopy then maxToCopy else len)
        in bindE (memmove_dyn run off src len1) (\<lambda>run1.
           if printable then util_turnToPrintable run1 off len1 else Inr run1))"

definition mangle_Inflate ::
  "honggfuzz_t \<Rightarrow> run_t \<Rightarrow> nat \<Rightarrow> nat \<Rightarrow> bool \<Rightarrow> error + (nat \<times> run_t)" where
  "mangle_Inflate g run off len printable =
     (if dyn_size run \<ge> mutate_maxInputSz g then Inr (0, run)
      else
        let len1 = (if len > mutate_maxInputSz g - dyn_size run
                    then mutate_maxInputSz g - dyn_size run else len);
            run1 = input_setSize run (dyn_size run + len1)
        in bindE (mangle_Move run1 off (off + len1) (dyn_size run1)) (\<lambda>run2.
           bindE (if printable then memset_dyn run2 off 0x20 len1 else Inr run2) (\<lambda>run3.
           Inr (len1, run3))))"

definition mangle_Insert ::
  "honggfuzz_t \<Rightarrow> run_t \<Rightarrow> nat \<Rightarrow> src_ptr \<Rightarrow> nat \<Rightarrow> bool \<Rightarrow> error + run_t" where
  "mangle_Insert g run off val len printable =
     bindE (mangle_Inflate g run off len printable) (\<lambda>(len1, run1).
     mangle_Overwrite run1 off val len1 printable)"


subsection \<open>mangle.c: the operators\<close>

text \<open>A \<^verbatim>\<open>uint16_t buf\<close> is handed on as the two bytes of its storage; the host is taken to
  be little-endian throughout, so the low byte comes first.\<close>

definition bytes_of_u16 :: "u64 \<Rightarrow> byte list" where
  "bytes_of_u16 w = [ucast w, ucast (drop_bit 8 w)]"

definition mangle_MemCopyOverwrite :: "honggfuzz_t \<Rightarrow> run_t \<Rightarrow> bool \<Rightarrow> error + run_t" where
  "mangle_MemCopyOverwrite g run printable =
     bindE (mangle_getOffSet g run) (\<lambda>(off_from, run1).
     bindE (mangle_getOffSet g run1) (\<lambda>(off_to, run2).
     bindE (mangle_getLen g (HF_MIN HF_MAX_LEN_BLOCK (size_sub (dyn_size run2) off_from)) run2)
       (\<lambda>(len, run3).
     mangle_Overwrite run3 off_to (Dyn off_from) len printable)))"

definition mangle_MemCopyInsert :: "honggfuzz_t \<Rightarrow> run_t \<Rightarrow> bool \<Rightarrow> error + run_t" where
  "mangle_MemCopyInsert g run printable =
     bindE (mangle_getOffSet g run) (\<lambda>(off_to, run1).
     bindE (mangle_getOffSet g run1) (\<lambda>(off_from, run2).
     bindE (mangle_getLen g (HF_MIN HF_MAX_LEN_BLOCK (size_sub (dyn_size run2) off_from)) run2)
       (\<lambda>(len, run3).
     mangle_Insert g run3 off_to (Dyn off_from) len printable)))"

text \<open>The common opening of \<^verbatim>\<open>mangle_BytesOverwrite\<close> and \<^verbatim>\<open>mangle_BytesInsert\<close>:
  the two bytes of \<^verbatim>\<open>buf\<close>.\<close>

definition rnd_u16_buf :: "run_t \<Rightarrow> bool \<Rightarrow> error + (byte list \<times> run_t)" where
  "rnd_u16_buf run printable =
     (if printable then util_rndBufPrintable 2 run
      else let (w, run1) = util_rnd64 run in Inr (bytes_of_u16 w, run1))"

definition mangle_BytesOverwrite :: "honggfuzz_t \<Rightarrow> run_t \<Rightarrow> bool \<Rightarrow> error + run_t" where
  "mangle_BytesOverwrite g run printable =
     bindE (mangle_getOffSet g run) (\<lambda>(off, run1).
     bindE (rnd_u16_buf run1 printable) (\<lambda>(buf, run2).
     bindE (util_rndGet 1 2 run2) (\<lambda>(toCopy, run3).
     mangle_Overwrite run3 off (Buf buf) (unat toCopy) printable)))"

definition mangle_BytesInsert :: "honggfuzz_t \<Rightarrow> run_t \<Rightarrow> bool \<Rightarrow> error + run_t" where
  "mangle_BytesInsert g run printable =
     bindE (rnd_u16_buf run printable) (\<lambda>(buf, run1).
     bindE (mangle_getOffSet g run1) (\<lambda>(off, run2).
     bindE (util_rndGet 1 2 run2) (\<lambda>(toCopy, run3).
     mangle_Insert g run3 off (Buf buf) (unat toCopy) printable)))"

definition mangle_ByteRepeatOverwrite :: "honggfuzz_t \<Rightarrow> run_t \<Rightarrow> bool \<Rightarrow> error + run_t" where
  "mangle_ByteRepeatOverwrite g run printable =
     bindE (mangle_getOffSet g run) (\<lambda>(off, run1).
     let destOff = off + 1;
         maxSz = size_sub (dyn_size run1) destOff
     in if maxSz = 0 then mangle_BytesOverwrite g run1 printable
        else
          bindE (mangle_getLen g (HF_MIN HF_MAX_LEN_BLOCK maxSz) run1) (\<lambda>(len, run2).
          bindE (dyn_get run2 off) (\<lambda>b.
          memset_dyn run2 destOff b len)))"

definition mangle_ByteRepeatInsert :: "honggfuzz_t \<Rightarrow> run_t \<Rightarrow> bool \<Rightarrow> error + run_t" where
  "mangle_ByteRepeatInsert g run printable =
     bindE (mangle_getOffSet g run) (\<lambda>(off, run1).
     let destOff = off + 1;
         maxSz = size_sub (dyn_size run1) destOff
     in if maxSz = 0 then mangle_BytesInsert g run1 printable
        else
          bindE (mangle_getLen g (HF_MIN HF_MAX_LEN_BLOCK maxSz) run1) (\<lambda>(len, run2).
          bindE (mangle_Inflate g run2 destOff len printable) (\<lambda>(len1, run3).
          bindE (dyn_get run3 off) (\<lambda>b.
          memset_dyn run3 destOff b len1))))"

definition mangle_Bit :: "honggfuzz_t \<Rightarrow> run_t \<Rightarrow> bool \<Rightarrow> error + run_t" where
  "mangle_Bit g run printable =
     bindE (mangle_getOffSet g run) (\<lambda>(off, run1).
     bindE (util_rndGet 0 7 run1) (\<lambda>(sh, run2).
     bindE (dyn_get run2 off) (\<lambda>b.
     bindE (dyn_set run2 off (b XOR push_bit (unat sh) 1)) (\<lambda>run3.
     if printable then util_turnToPrintable run3 off 1 else Inr run3))))"

definition mangleMagicVals :: "(byte list \<times> nat) list" where
  "mangleMagicVals = [
    ([0x00, 0x00, 0x00, 0x00, 0x00, 0x00, 0x00, 0x00], 1),
    ([0x01, 0x00, 0x00, 0x00, 0x00, 0x00, 0x00, 0x00], 1),
    ([0x02, 0x00, 0x00, 0x00, 0x00, 0x00, 0x00, 0x00], 1),
    ([0x03, 0x00, 0x00, 0x00, 0x00, 0x00, 0x00, 0x00], 1),
    ([0x04, 0x00, 0x00, 0x00, 0x00, 0x00, 0x00, 0x00], 1),
    ([0x05, 0x00, 0x00, 0x00, 0x00, 0x00, 0x00, 0x00], 1),
    ([0x06, 0x00, 0x00, 0x00, 0x00, 0x00, 0x00, 0x00], 1),
    ([0x07, 0x00, 0x00, 0x00, 0x00, 0x00, 0x00, 0x00], 1),
    ([0x08, 0x00, 0x00, 0x00, 0x00, 0x00, 0x00, 0x00], 1),
    ([0x09, 0x00, 0x00, 0x00, 0x00, 0x00, 0x00, 0x00], 1),
    ([0x0A, 0x00, 0x00, 0x00, 0x00, 0x00, 0x00, 0x00], 1),
    ([0x0B, 0x00, 0x00, 0x00, 0x00, 0x00, 0x00, 0x00], 1),
    ([0x0C, 0x00, 0x00, 0x00, 0x00, 0x00, 0x00, 0x00], 1),
    ([0x0D, 0x00, 0x00, 0x00, 0x00, 0x00, 0x00, 0x00], 1),
    ([0x0E, 0x00, 0x00, 0x00, 0x00, 0x00, 0x00, 0x00], 1),
    ([0x0F, 0x00, 0x00, 0x00, 0x00, 0x00, 0x00, 0x00], 1),
    ([0x10, 0x00, 0x00, 0x00, 0x00, 0x00, 0x00, 0x00], 1),
    ([0x20, 0x00, 0x00, 0x00, 0x00, 0x00, 0x00, 0x00], 1),
    ([0x40, 0x00, 0x00, 0x00, 0x00, 0x00, 0x00, 0x00], 1),
    ([0x7E, 0x00, 0x00, 0x00, 0x00, 0x00, 0x00, 0x00], 1),
    ([0x7F, 0x00, 0x00, 0x00, 0x00, 0x00, 0x00, 0x00], 1),
    ([0x80, 0x00, 0x00, 0x00, 0x00, 0x00, 0x00, 0x00], 1),
    ([0x81, 0x00, 0x00, 0x00, 0x00, 0x00, 0x00, 0x00], 1),
    ([0xC0, 0x00, 0x00, 0x00, 0x00, 0x00, 0x00, 0x00], 1),
    ([0xFE, 0x00, 0x00, 0x00, 0x00, 0x00, 0x00, 0x00], 1),
    ([0xFF, 0x00, 0x00, 0x00, 0x00, 0x00, 0x00, 0x00], 1),
    ([0x00, 0x00, 0x00, 0x00, 0x00, 0x00, 0x00, 0x00], 2),
    ([0x01, 0x01, 0x00, 0x00, 0x00, 0x00, 0x00, 0x00], 2),
    ([0x80, 0x80, 0x00, 0x00, 0x00, 0x00, 0x00, 0x00], 2),
    ([0xFF, 0xFF, 0x00, 0x00, 0x00, 0x00, 0x00, 0x00], 2),
    ([0x00, 0x01, 0x00, 0x00, 0x00, 0x00, 0x00, 0x00], 2),
    ([0x00, 0x02, 0x00, 0x00, 0x00, 0x00, 0x00, 0x00], 2),
    ([0x00, 0x03, 0x00, 0x00, 0x00, 0x00, 0x00, 0x00], 2),
    ([0x00, 0x04, 0x00, 0x00, 0x00, 0x00, 0x00, 0x00], 2),
    ([0x00, 0x05, 0x00, 0x00, 0x00, 0x00, 0x00, 0x00], 2),
    ([0x00, 0x06, 0x00, 0x00, 0x00, 0x00, 0x00, 0x00], 2),
    ([0x00, 0x07, 0x00, 0x00, 0x00, 0x00, 0x00, 0x00], 2),
    ([0x00, 0x08, 0x00, 0x00, 0x00, 0x00, 0x00, 0x00], 2),
    ([0x00, 0x09, 0x00, 0x00, 0x00, 0x00, 0x00, 0x00], 2),
    ([0x00, 0x0A, 0x00, 0x00, 0x00, 0x00, 0x00, 0x00], 2),
    ([0x00, 0x0B, 0x00, 0x00, 0x00, 0x00, 0x00, 0x00], 2),
    ([0x00, 0x0C, 0x00, 0x00, 0x00, 0x00, 0x00, 0x00], 2),
    ([0x00, 0x0D, 0x00, 0x00, 0x00, 0x00, 0x00, 0x00], 2),
    ([0x00, 0x0E, 0x00, 0x00, 0x00, 0x00, 0x00, 0x00], 2),
    ([0x00, 0x0F, 0x00, 0x00, 0x00, 0x00, 0x00, 0x00], 2),
    ([0x00, 0x10, 0x00, 0x00, 0x00, 0x00, 0x00, 0x00], 2),
    ([0x00, 0x20, 0x00, 0x00, 0x00, 0x00, 0x00, 0x00], 2),
    ([0x00, 0x40, 0x00, 0x00, 0x00, 0x00, 0x00, 0x00], 2),
    ([0x00, 0x7E, 0x00, 0x00, 0x00, 0x00, 0x00, 0x00], 2),
    ([0x00, 0x7F, 0x00, 0x00, 0x00, 0x00, 0x00, 0x00], 2),
    ([0x00, 0x80, 0x00, 0x00, 0x00, 0x00, 0x00, 0x00], 2),
    ([0x00, 0x81, 0x00, 0x00, 0x00, 0x00, 0x00, 0x00], 2),
    ([0x00, 0xC0, 0x00, 0x00, 0x00, 0x00, 0x00, 0x00], 2),
    ([0x00, 0xFE, 0x00, 0x00, 0x00, 0x00, 0x00, 0x00], 2),
    ([0x00, 0xFF, 0x00, 0x00, 0x00, 0x00, 0x00, 0x00], 2),
    ([0x7E, 0xFF, 0x00, 0x00, 0x00, 0x00, 0x00, 0x00], 2),
    ([0x7F, 0xFF, 0x00, 0x00, 0x00, 0x00, 0x00, 0x00], 2),
    ([0x80, 0x00, 0x00, 0x00, 0x00, 0x00, 0x00, 0x00], 2),
    ([0x80, 0x01, 0x00, 0x00, 0x00, 0x00, 0x00, 0x00], 2),
    ([0xFF, 0xFE, 0x00, 0x00, 0x00, 0x00, 0x00, 0x00], 2),
    ([0x00, 0x00, 0x00, 0x00, 0x00, 0x00, 0x00, 0x00], 2),
    ([0x01, 0x00, 0x00, 0x00, 0x00, 0x00, 0x00, 0x00], 2),
    ([0x02, 0x00, 0x00, 0x00, 0x00, 0x00, 0x00, 0x00], 2),
    ([0x03, 0x00, 0x00, 0x00, 0x00, 0x00, 0x00, 0x00], 2),
    ([0x04, 0x00, 0x00, 0x00, 0x00, 0x00, 0x00, 0x00], 2),
    ([0x05, 0x00, 0x00, 0x00, 0x00, 0x00, 0x00, 0x00], 2),
    ([0x06, 0x00, 0x00, 0x00, 0x00, 0x00, 0x00, 0x00], 2),
    ([0x07, 0x00, 0x00, 0x00, 0x00, 0x00, 0x00, 0x00], 2),
    ([0x08, 0x00, 0x00, 0x00, 0x00, 0x00, 0x00, 0x00], 2),
    ([0x09, 0x00, 0x00, 0x00, 0x00, 0x00, 0x00, 0x00], 2),
    ([0x0A, 0x00, 0x00, 0x00, 0x00, 0x00, 0x00, 0x00], 2),
    ([0x0B, 0x00, 0x00, 0x00, 0x00, 0x00, 0x00, 0x00], 2),
    ([0x0C, 0x00, 0x00, 0x00, 0x00, 0x00, 0x00, 0x00], 2),
    ([0x0D, 0x00, 0x00, 0x00, 0x00, 0x00, 0x00, 0x00], 2),
    ([0x0E, 0x00, 0x00, 0x00, 0x00, 0x00, 0x00, 0x00], 2),
    ([0x0F, 0x00, 0x00, 0x00, 0x00, 0x00, 0x00, 0x00], 2),
    ([0x10, 0x00, 0x00, 0x00, 0x00, 0x00, 0x00, 0x00], 2),
    ([0x20, 0x00, 0x00, 0x00, 0x00, 0x00, 0x00, 0x00], 2),
    ([0x40, 0x00, 0x00, 0x00, 0x00, 0x00, 0x00, 0x00], 2),
    ([0x7E, 0x00, 0x00, 0x00, 0x00, 0x00, 0x00, 0x00], 2),
    ([0x7F, 0x00, 0x00, 0x00, 0x00, 0x00, 0x00, 0x00], 2),
    ([0x80, 0x00, 0x00, 0x00, 0x00, 0x00, 0x00, 0x00], 2),
    ([0x81, 0x00, 0x00, 0x00, 0x00, 0x00, 0x00, 0x00], 2),
    ([0xC0, 0x00, 0x00, 0x00, 0x00, 0x00, 0x00, 0x00], 2),
    ([0xFE, 0x00, 0x00, 0x00, 0x00, 0x00, 0x00, 0x00], 2),
    ([0xFF, 0x00, 0x00, 0x00, 0x00, 0x00, 0x00, 0x00], 2),
    ([0xFF, 0x7E, 0x00, 0x00, 0x00, 0x00, 0x00, 0x00], 2),
    ([0xFF, 0x7F, 0x00, 0x00, 0x00, 0x00, 0x00, 0x00], 2),
    ([0x00, 0x80, 0x00, 0x00, 0x00, 0x00, 0x00, 0x00], 2),
    ([0x01, 0x80, 0x00, 0x00, 0x00, 0x00, 0x00, 0x00], 2),
    ([0xFE, 0xFF, 0x00, 0x00, 0x00, 0x00, 0x00, 0x00], 2),
    ([0x00, 0x00, 0x00, 0x00, 0x00, 0x00, 0x00, 0x00], 4),
    ([0x01, 0x01, 0x01, 0x01, 0x00, 0x00, 0x00, 0x00], 4),
    ([0x80, 0x80, 0x80, 0x80, 0x00, 0x00, 0x00, 0x00], 4),
    ([0xFF, 0xFF, 0xFF, 0xFF, 0x00, 0x00, 0x00, 0x00], 4),
    ([0x00, 0x00, 0x00, 0x01, 0x00, 0x00, 0x00, 0x00], 4),
    ([0x00, 0x00, 0x00, 0x02, 0x00, 0x00, 0x00, 0x00], 4),
    ([0x00, 0x00, 0x00, 0x03, 0x00, 0x00, 0x00, 0x00], 4),
    ([0x00, 0x00, 0x00, 0x04, 0x00, 0x00, 0x00, 0x00], 4),
    ([0x00, 0x00, 0x00, 0x05, 0x00, 0x00, 0x00, 0x00], 4),
    ([0x00, 0x00, 0x00, 0x06, 0x00, 0x00, 0x00, 0x00], 4),
    ([0x00, 0x00, 0x00, 0x07, 0x00, 0x00, 0x00, 0x00], 4),
    ([0x00, 0x00, 0x00, 0x08, 0x00, 0x00, 0x00, 0x00], 4),
    ([0x00, 0x00, 0x00, 0x09, 0x00, 0x00, 0x00, 0x00], 4),
    ([0x00, 0x00, 0x00, 0x0A, 0x00, 0x00, 0x00, 0x00], 4),
    ([0x00, 0x00, 0x00, 0x0B, 0x00, 0x00, 0x00, 0x00], 4),
    ([0x00, 0x00, 0x00, 0x0C, 0x00, 0x00, 0x00, 0x00], 4),
    ([0x00, 0x00, 0x00, 0x0D, 0x00, 0x00, 0x00, 0x00], 4),
    ([0x00, 0x00, 0x00, 0x0E, 0x00, 0x00, 0x00, 0x00], 4),
    ([0x00, 0x00, 0x00, 0x0F, 0x00, 0x00, 0x00, 0x00], 4),
    ([0x00, 0x00, 0x00, 0x10, 0x00, 0x00, 0x00, 0x00], 4),
    ([0x00, 0x00, 0x00, 0x20, 0x00, 0x00, 0x00, 0x00], 4),
    ([0x00, 0x00, 0x00, 0x40, 0x00, 0x00, 0x00, 0x00], 4),
    ([0x00, 0x00, 0x00, 0x7E, 0x00, 0x00, 0x00, 0x00], 4),
    ([0x00, 0x00, 0x00, 0x7F, 0x00, 0x00, 0x00, 0x00], 4),
    ([0x00, 0x00, 0x00, 0x80, 0x00, 0x00, 0x00, 0x00], 4),
    ([0x00, 0x00, 0x00, 0x81, 0x00, 0x00, 0x00, 0x00], 4),
    ([0x00, 0x00, 0x00, 0xC0, 0x00, 0x00, 0x00, 0x00], 4),
    ([0x00, 0x00, 0x00, 0xFE, 0x00, 0x00, 0x00, 0x00], 4),
    ([0x00, 0x00, 0x00, 0xFF, 0x00, 0x00, 0x00, 0x00], 4),
    ([0x7E, 0xFF, 0xFF, 0xFF, 0x00, 0x00, 0x00, 0x00], 4),
    ([0x7F, 0xFF, 0xFF, 0xFF, 0x00, 0x00, 0x00, 0x00], 4),
    ([0x80, 0x00, 0x00, 0x00, 0x00, 0x00, 0x00, 0x00], 4),
    ([0x80, 0x00, 0x00, 0x01, 0x00, 0x00, 0x00, 0x00], 4),
    ([0xFF, 0xFF, 0xFF, 0xFE, 0x00, 0x00, 0x00, 0x00], 4),
    ([0x00, 0x00, 0x00, 0x00, 0x00, 0x00, 0x00, 0x00], 4),
    ([0x01, 0x00, 0x00, 0x00, 0x00, 0x00, 0x00, 0x00], 4),
    ([0x02, 0x00, 0x00, 0x00, 0x00, 0x00, 0x00, 0x00], 4),
    ([0x03, 0x00, 0x00, 0x00, 0x00, 0x00, 0x00, 0x00], 4),
    ([0x04, 0x00, 0x00, 0x00, 0x00, 0x00, 0x00, 0x00], 4),
    ([0x05, 0x00, 0x00, 0x00, 0x00, 0x00, 0x00, 0x00], 4),
    ([0x06, 0x00, 0x00, 0x00, 0x00, 0x00, 0x00, 0x00], 4),
    ([0x07, 0x00, 0x00, 0x00, 0x00, 0x00, 0x00, 0x00], 4),
    ([0x08, 0x00, 0x00, 0x00, 0x00, 0x00, 0x00, 0x00], 4),
    ([0x09, 0x00, 0x00, 0x00, 0x00, 0x00, 0x00, 0x00], 4),
    ([0x0A, 0x00, 0x00, 0x00, 0x00, 0x00, 0x00, 0x00], 4),
    ([0x0B, 0x00, 0x00, 0x00, 0x00, 0x00, 0x00, 0x00], 4),
    ([0x0C, 0x00, 0x00, 0x00, 0x00, 0x00, 0x00, 0x00], 4),
    ([0x0D, 0x00, 0x00, 0x00, 0x00, 0x00, 0x00, 0x00], 4),
    ([0x0E, 0x00, 0x00, 0x00, 0x00, 0x00, 0x00, 0x00], 4),
    ([0x0F, 0x00, 0x00, 0x00, 0x00, 0x00, 0x00, 0x00], 4),
    ([0x10, 0x00, 0x00, 0x00, 0x00, 0x00, 0x00, 0x00], 4),
    ([0x20, 0x00, 0x00, 0x00, 0x00, 0x00, 0x00, 0x00], 4),
    ([0x40, 0x00, 0x00, 0x00, 0x00, 0x00, 0x00, 0x00], 4),
    ([0x7E, 0x00, 0x00, 0x00, 0x00, 0x00, 0x00, 0x00], 4),
    ([0x7F, 0x00, 0x00, 0x00, 0x00, 0x00, 0x00, 0x00], 4),
    ([0x80, 0x00, 0x00, 0x00, 0x00, 0x00, 0x00, 0x00], 4),
    ([0x81, 0x00, 0x00, 0x00, 0x00, 0x00, 0x00, 0x00], 4),
    ([0xC0, 0x00, 0x00, 0x00, 0x00, 0x00, 0x00, 0x00], 4),
    ([0xFE, 0x00, 0x00, 0x00, 0x00, 0x00, 0x00, 0x00], 4),
    ([0xFF, 0x00, 0x00, 0x00, 0x00, 0x00, 0x00, 0x00], 4),
    ([0xFF, 0xFF, 0xFF, 0x7E, 0x00, 0x00, 0x00, 0x00], 4),
    ([0xFF, 0xFF, 0xFF, 0x7F, 0x00, 0x00, 0x00, 0x00], 4),
    ([0x00, 0x00, 0x00, 0x80, 0x00, 0x00, 0x00, 0x00], 4),
    ([0x01, 0x00, 0x00, 0x80, 0x00, 0x00, 0x00, 0x00], 4),
    ([0xFE, 0xFF, 0xFF, 0xFF, 0x00, 0x00, 0x00, 0x00], 4),
    ([0x00, 0x00, 0x00, 0x00, 0x00, 0x00, 0x00, 0x00], 8),
    ([0x01, 0x01, 0x01, 0x01, 0x01, 0x01, 0x01, 0x01], 8),
    ([0x80, 0x80, 0x80, 0x80, 0x80, 0x80, 0x80, 0x80], 8),
    ([0xFF, 0xFF, 0xFF, 0xFF, 0xFF, 0xFF, 0xFF, 0xFF], 8),
    ([0x00, 0x00, 0x00, 0x00, 0x00, 0x00, 0x00, 0x01], 8),
    ([0x00, 0x00, 0x00, 0x00, 0x00, 0x00, 0x00, 0x02], 8),
    ([0x00, 0x00, 0x00, 0x00, 0x00, 0x00, 0x00, 0x03], 8),
    ([0x00, 0x00, 0x00, 0x00, 0x00, 0x00, 0x00, 0x04], 8),
    ([0x00, 0x00, 0x00, 0x00, 0x00, 0x00, 0x00, 0x05], 8),
    ([0x00, 0x00, 0x00, 0x00, 0x00, 0x00, 0x00, 0x06], 8),
    ([0x00, 0x00, 0x00, 0x00, 0x00, 0x00, 0x00, 0x07], 8),
    ([0x00, 0x00, 0x00, 0x00, 0x00, 0x00, 0x00, 0x08], 8),
    ([0x00, 0x00, 0x00, 0x00, 0x00, 0x00, 0x00, 0x09], 8),
    ([0x00, 0x00, 0x00, 0x00, 0x00, 0x00, 0x00, 0x0A], 8),
    ([0x00, 0x00, 0x00, 0x00, 0x00, 0x00, 0x00, 0x0B], 8),
    ([0x00, 0x00, 0x00, 0x00, 0x00, 0x00, 0x00, 0x0C], 8),
    ([0x00, 0x00, 0x00, 0x00, 0x00, 0x00, 0x00, 0x0D], 8),
    ([0x00, 0x00, 0x00, 0x00, 0x00, 0x00, 0x00, 0x0E], 8),
    ([0x00, 0x00, 0x00, 0x00, 0x00, 0x00, 0x00, 0x0F], 8),
    ([0x00, 0x00, 0x00, 0x00, 0x00, 0x00, 0x00, 0x10], 8),
    ([0x00, 0x00, 0x00, 0x00, 0x00, 0x00, 0x00, 0x20], 8),
    ([0x00, 0x00, 0x00, 0x00, 0x00, 0x00, 0x00, 0x40], 8),
    ([0x00, 0x00, 0x00, 0x00, 0x00, 0x00, 0x00, 0x7E], 8),
    ([0x00, 0x00, 0x00, 0x00, 0x00, 0x00, 0x00, 0x7F], 8),
    ([0x00, 0x00, 0x00, 0x00, 0x00, 0x00, 0x00, 0x80], 8),
    ([0x00, 0x00, 0x00, 0x00, 0x00, 0x00, 0x00, 0x81], 8),
    ([0x00, 0x00, 0x00, 0x00, 0x00, 0x00, 0x00, 0xC0], 8),
    ([0x00, 0x00, 0x00, 0x00, 0x00, 0x00, 0x00, 0xFE], 8),
    ([0x00, 0x00, 0x00, 0x00, 0x00, 0x00, 0x00, 0xFF], 8),
    ([0x7E, 0xFF, 0xFF, 0xFF, 0xFF, 0xFF, 0xFF, 0xFF], 8),
    ([0x7F, 0xFF, 0xFF, 0xFF, 0xFF, 0xFF, 0xFF, 0xFF], 8),
    ([0x80, 0x00, 0x00, 0x00, 0x00, 0x00, 0x00, 0x00], 8),
    ([0x80, 0x00, 0x00, 0x00, 0x00, 0x00, 0x00, 0x01], 8),
    ([0xFF, 0xFF, 0xFF, 0xFF, 0xFF, 0xFF, 0xFF, 0xFE], 8),
    ([0x00, 0x00, 0x00, 0x00, 0x00, 0x00, 0x00, 0x00], 8),
    ([0x01, 0x00, 0x00, 0x00, 0x00, 0x00, 0x00, 0x00], 8),
    ([0x02, 0x00, 0x00, 0x00, 0x00, 0x00, 0x00, 0x00], 8),
    ([0x03, 0x00, 0x00, 0x00, 0x00, 0x00, 0x00, 0x00], 8),
    ([0x04, 0x00, 0x00, 0x00, 0x00, 0x00, 0x00, 0x00], 8),
    ([0x05, 0x00, 0x00, 0x00, 0x00, 0x00, 0x00, 0x00], 8),
    ([0x06, 0x00, 0x00, 0x00, 0x00, 0x00, 0x00, 0x00], 8),
    ([0x07, 0x00, 0x00, 0x00, 0x00, 0x00, 0x00, 0x00], 8),
    ([0x08, 0x00, 0x00, 0x00, 0x00, 0x00, 0x00, 0x00], 8),
    ([0x09, 0x00, 0x00, 0x00, 0x00, 0x00, 0x00, 0x00], 8),
    ([0x0A, 0x00, 0x00, 0x00, 0x00, 0x00, 0x00, 0x00], 8),
    ([0x0B, 0x00, 0x00, 0x00, 0x00, 0x00, 0x00, 0x00], 8),
    ([0x0C, 0x00, 0x00, 0x00, 0x00, 0x00, 0x00, 0x00], 8),
    ([0x0D, 0x00, 0x00, 0x00, 0x00, 0x00, 0x00, 0x00], 8),
    ([0x0E, 0x00, 0x00, 0x00, 0x00, 0x00, 0x00, 0x00], 8),
    ([0x0F, 0x00, 0x00, 0x00, 0x00, 0x00, 0x00, 0x00], 8),
    ([0x10, 0x00, 0x00, 0x00, 0x00, 0x00, 0x00, 0x00], 8),
    ([0x20, 0x00, 0x00, 0x00, 0x00, 0x00, 0x00, 0x00], 8),
    ([0x40, 0x00, 0x00, 0x00, 0x00, 0x00, 0x00, 0x00], 8),
    ([0x7E, 0x00, 0x00, 0x00, 0x00, 0x00, 0x00, 0x00], 8),
    ([0x7F, 0x00, 0x00, 0x00, 0x00, 0x00, 0x00, 0x00], 8),
    ([0x80, 0x00, 0x00, 0x00, 0x00, 0x00, 0x00, 0x00], 8),
    ([0x81, 0x00, 0x00, 0x00, 0x00, 0x00, 0x00, 0x00], 8),
    ([0xC0, 0x00, 0x00, 0x00, 0x00, 0x00, 0x00, 0x00], 8),
    ([0xFE, 0x00, 0x00, 0x00, 0x00, 0x00, 0x00, 0x00], 8),
    ([0xFF, 0x00, 0x00, 0x00, 0x00, 0x00, 0x00, 0x00], 8),
    ([0xFF, 0xFF, 0xFF, 0xFF, 0xFF, 0xFF, 0xFF, 0x7E], 8),
    ([0xFF, 0xFF, 0xFF, 0xFF, 0xFF, 0xFF, 0xFF, 0x7F], 8),
    ([0x00, 0x00, 0x00, 0x00, 0x00, 0x00, 0x00, 0x80], 8),
    ([0x01, 0x00, 0x00, 0x00, 0x00, 0x00, 0x00, 0x80], 8),
    ([0xFE, 0xFF, 0xFF, 0xFF, 0xFF, 0xFF, 0xFF, 0xFF], 8)
  ]"

definition mangle_MagicOverwrite :: "honggfuzz_t \<Rightarrow> run_t \<Rightarrow> bool \<Rightarrow> error + run_t" where
  "mangle_MagicOverwrite g run printable =
     bindE (mangle_getOffSet g run) (\<lambda>(off, run1).
     bindE (util_rndGet 0 (of_nat (length mangleMagicVals - 1)) run1) (\<lambda>(choice, run2).
     bindE (array_get mangleMagicVals (unat choice)) (\<lambda>(val, sz).
     mangle_Overwrite run2 off (Buf val) sz printable)))"

definition mangle_MagicInsert :: "honggfuzz_t \<Rightarrow> run_t \<Rightarrow> bool \<Rightarrow> error + run_t" where
  "mangle_MagicInsert g run printable =
     bindE (util_rndGet 0 (of_nat (length mangleMagicVals - 1)) run) (\<lambda>(choice, run1).
     bindE (mangle_getOffSet g run1) (\<lambda>(off, run2).
     bindE (array_get mangleMagicVals (unat choice)) (\<lambda>(val, sz).
     mangle_Insert g run2 off (Buf val) sz printable)))"

definition mangle_DictionaryOverwrite :: "honggfuzz_t \<Rightarrow> run_t \<Rightarrow> bool \<Rightarrow> error + run_t" where
  "mangle_DictionaryOverwrite g run printable =
     (if mutate_dictionaryCnt g = 0 then mangle_BytesOverwrite g run printable
      else
        bindE (mangle_getOffSet g run) (\<lambda>(off, run1).
        bindE (util_rndGet 0 (of_nat (mutate_dictionaryCnt g - 1)) run1) (\<lambda>(choice, run2).
        bindE (array_get (mutate_dictionary g) (unat choice)) (\<lambda>(val, len).
        mangle_Overwrite run2 off (Buf val) len printable))))"

definition mangle_DictionaryInsert :: "honggfuzz_t \<Rightarrow> run_t \<Rightarrow> bool \<Rightarrow> error + run_t" where
  "mangle_DictionaryInsert g run printable =
     (if mutate_dictionaryCnt g = 0 then mangle_BytesInsert g run printable
      else
        bindE (util_rndGet 0 (of_nat (mutate_dictionaryCnt g - 1)) run) (\<lambda>(choice, run1).
        bindE (mangle_getOffSet g run1) (\<lambda>(off, run2).
        bindE (array_get (mutate_dictionary g) (unat choice)) (\<lambda>(val, len).
        mangle_Insert g run2 off (Buf val) len printable))))"

text \<open>\<^verbatim>\<open>mangle_FeedbackDict\<close>: \<open>None\<close> is the \<^verbatim>\<open>NULL\<close> result, \<open>Some (val, len)\<close> the
  token and the length stored through \<^verbatim>\<open>*len\<close>.\<close>

definition mangle_FeedbackDict ::
  "honggfuzz_t \<Rightarrow> run_t \<Rightarrow> error + ((byte list \<times> nat) option \<times> run_t)" where
  "mangle_FeedbackDict g run =
     (if \<not> feedback_cmpFeedback g then Inr (None, run)
      else
        let cmpf = feedback_cmpFeedbackMap g;
            cnt0 = cnt cmpf
        in if cnt0 = 0 then Inr (None, run)
           else
             let cnt1 = (if unat cnt0 > length (valArr cmpf)
                         then of_nat (length (valArr cmpf)) else cnt0)
             in bindE (util_rndGet 0 (ucast (cnt1 - 1)) run) (\<lambda>(choice, run1).
                bindE (array_get (valArr cmpf) (unat (ucast choice :: 32 word))) (\<lambda>(val, len).
                if len = 0 then Inr (None, run1) else Inr (Some (val, len), run1))))"

definition mangle_ConstFeedbackInsert :: "honggfuzz_t \<Rightarrow> run_t \<Rightarrow> bool \<Rightarrow> error + run_t" where
  "mangle_ConstFeedbackInsert g run printable =
     bindE (mangle_FeedbackDict g run) (\<lambda>(r, run1).
     case r of
       None \<Rightarrow> mangle_BytesInsert g run1 printable
     | Some (val, len) \<Rightarrow>
         bindE (mangle_getOffSet g run1) (\<lambda>(off, run2).
         mangle_Insert g run2 off (Buf val) len printable))"

definition mangle_ConstFeedbackOverwrite :: "honggfuzz_t \<Rightarrow> run_t \<Rightarrow> bool \<Rightarrow> error + run_t" where
  "mangle_ConstFeedbackOverwrite g run printable =
     bindE (mangle_FeedbackDict g run) (\<lambda>(r, run1).
     case r of
       None \<Rightarrow> mangle_BytesOverwrite g run1 printable
     | Some (val, len) \<Rightarrow>
         bindE (mangle_getOffSet g run1) (\<lambda>(off, run2).
         mangle_Overwrite run2 off (Buf val) len printable))"

definition mangle_MemSet :: "honggfuzz_t \<Rightarrow> run_t \<Rightarrow> bool \<Rightarrow> error + run_t" where
  "mangle_MemSet g run printable =
     bindE (mangle_getOffSet g run) (\<lambda>(off, run1).
     bindE (mangle_getLen g (HF_MIN HF_MAX_LEN_BLOCK (size_sub (dyn_size run1) off)) run1)
       (\<lambda>(len, run2).
     bindE (if printable then util_rndPrintable run2
            else bindE (util_rndGet 0 255 run2) (\<lambda>(r, run'). Inr (ucast r, run')))
       (\<lambda>(val, run3).
     memset_dyn run3 off val len)))"

definition mangle_RandomOverwrite :: "honggfuzz_t \<Rightarrow> run_t \<Rightarrow> bool \<Rightarrow> error + run_t" where
  "mangle_RandomOverwrite g run printable =
     bindE (mangle_getOffSet g run) (\<lambda>(off, run1).
     bindE (mangle_getLen g (HF_MIN HF_MAX_LEN_BLOCK (size_sub (dyn_size run1) off)) run1)
       (\<lambda>(len, run2).
     bindE (if printable then util_rndBufPrintable len run2 else Inr (util_rndBuf len run2))
       (\<lambda>(bs, run3).
     bindE (store (dyn_data run3) off bs) (\<lambda>d.
     Inr (run3\<lparr>dyn_data := d\<rparr>)))))"

definition mangle_RandomInsert :: "honggfuzz_t \<Rightarrow> run_t \<Rightarrow> bool \<Rightarrow> error + run_t" where
  "mangle_RandomInsert g run printable =
     bindE (mangle_getOffSet g run) (\<lambda>(off, run1).
     bindE (mangle_getLen g (HF_MIN HF_MAX_LEN_BLOCK (size_sub (dyn_size run1) off)) run1)
       (\<lambda>(len, run2).
     bindE (mangle_Inflate g run2 off len printable) (\<lambda>(len1, run3).
     bindE (if printable then util_rndBufPrintable len1 run3 else Inr (util_rndBuf len1 run3))
       (\<lambda>(bs, run4).
     bindE (store (dyn_data run4) off bs) (\<lambda>d.
     Inr (run4\<lparr>dyn_data := d\<rparr>))))))"


text \<open>Integers in memory. \<open>le_word\<close> reads the little-endian value of some bytes,
  \<open>le_bytes n\<close> writes the low \<open>n\<close> bytes of a value. An addition on \<^verbatim>\<open>int16_t\<close>,
  \<^verbatim>\<open>int32_t\<close> or \<^verbatim>\<open>int64_t\<close> followed by the store of the result is the 64-bit
  addition followed by \<open>le_bytes\<close> at that width. \<^verbatim>\<open>__builtin_bswap\<close> before and after the
  addition amounts to reading and writing the bytes in reverse order.\<close>

fun le_word :: "byte list \<Rightarrow> u64" where
  "le_word [] = 0"
| "le_word (b # bs) = ucast b + push_bit 8 (le_word bs)"

fun le_bytes :: "nat \<Rightarrow> u64 \<Rightarrow> byte list" where
  "le_bytes 0 w = []"
| "le_bytes (Suc n) w = ucast w # le_bytes n (drop_bit 8 w)"

definition addsub_val :: "run_t \<Rightarrow> nat \<Rightarrow> nat \<Rightarrow> u64 \<Rightarrow> error + (byte list \<times> run_t)" where
  "addsub_val run off varLen delta =
     bindE (load (dyn_data run) off varLen) (\<lambda>bs.
     let (w, run1) = util_rnd64 run in
     if w AND 1 \<noteq> 0 then Inr (le_bytes varLen (le_word bs + delta), run1)
     else Inr (rev (le_bytes varLen (le_word (rev bs) + delta)), run1))"

definition mangle_AddSubWithRange ::
  "run_t \<Rightarrow> nat \<Rightarrow> nat \<Rightarrow> u64 \<Rightarrow> bool \<Rightarrow> error + run_t" where
  "mangle_AddSubWithRange run off varLen range' printable =
     bindE (util_rndGet 0 (range' * 2) run) (\<lambda>(r, run1).
     let delta = r - range' in
     if varLen = 1 then
       bindE (dyn_get run1 off) (\<lambda>b. dyn_set run1 off (b + ucast delta))
     else if varLen = 2 then
       bindE (addsub_val run1 off 2 delta) (\<lambda>(val, run2).
       mangle_Overwrite run2 off (Buf val) varLen printable)
     else if varLen = 4 then
       bindE (addsub_val run1 off 4 delta) (\<lambda>(val, run2).
       mangle_Overwrite run2 off (Buf val) varLen printable)
     else if varLen = 8 then
       bindE (addsub_val run1 off 8 delta) (\<lambda>(val, run2).
       mangle_Overwrite run2 off (Buf val) varLen printable)
     else Inl Fatal)"

definition mangle_AddSub :: "honggfuzz_t \<Rightarrow> run_t \<Rightarrow> bool \<Rightarrow> error + run_t" where
  "mangle_AddSub g run printable =
     bindE (mangle_getOffSet g run) (\<lambda>(off, run1).
     bindE (util_rndGet 0 3 run1) (\<lambda>(sh, run2).
     let varLen0 = (2::nat) ^ unat sh;
         varLen = (if size_sub (dyn_size run2) off < varLen0 then 1 else varLen0)
     in bindE (if varLen = 1 then Inr 16
               else if varLen = 2 then Inr 4096
               else if varLen = 4 then Inr 1048576
               else if varLen = 8 then Inr 268435456
               else Inl Fatal) (\<lambda>range'.
        mangle_AddSubWithRange run2 off varLen range' printable)))"

text \<open>\<^verbatim>\<open>a % b\<close> on \<^verbatim>\<open>int\<close> for \<open>b > 0\<close>: the remainder has the sign of \<open>a\<close>.\<close>

definition c_rem :: "int \<Rightarrow> int \<Rightarrow> int" where
  "c_rem a b = (if a < 0 then - ((- a) mod b) else a mod b)"

definition mangle_IncByte :: "honggfuzz_t \<Rightarrow> run_t \<Rightarrow> bool \<Rightarrow> error + run_t" where
  "mangle_IncByte g run printable =
     bindE (mangle_getOffSet g run) (\<lambda>(off, run1).
     bindE (dyn_get run1 off) (\<lambda>b.
     if printable then dyn_set run1 off (of_int (c_rem (uint b - 32 + 1) 95 + 32))
     else dyn_set run1 off (b + 1)))"

definition mangle_DecByte :: "honggfuzz_t \<Rightarrow> run_t \<Rightarrow> bool \<Rightarrow> error + run_t" where
  "mangle_DecByte g run printable =
     bindE (mangle_getOffSet g run) (\<lambda>(off, run1).
     bindE (dyn_get run1 off) (\<lambda>b.
     if printable then dyn_set run1 off (of_int (c_rem (uint b - 32 + 94) 95 + 32))
     else dyn_set run1 off (b - 1)))"

definition mangle_NegByte :: "honggfuzz_t \<Rightarrow> run_t \<Rightarrow> bool \<Rightarrow> error + run_t" where
  "mangle_NegByte g run printable =
     bindE (mangle_getOffSet g run) (\<lambda>(off, run1).
     bindE (dyn_get run1 off) (\<lambda>b.
     if printable then dyn_set run1 off (of_int (94 - (uint b - 32) + 32))
     else dyn_set run1 off (NOT b)))"

definition mangle_Expand :: "honggfuzz_t \<Rightarrow> run_t \<Rightarrow> bool \<Rightarrow> error + run_t" where
  "mangle_Expand g run printable =
     bindE (mangle_getOffSet g run) (\<lambda>(off, run1).
     let (w, run2) = util_rnd64 run1 in
     bindE (if w mod 16 \<noteq> 0
            then mangle_getLen g (HF_MIN 16 (size_sub (mutate_maxInputSz g) off)) run2
            else mangle_getLen g (size_sub (mutate_maxInputSz g) off) run2) (\<lambda>(len, run3).
     bindE (mangle_Inflate g run3 off len printable) (\<lambda>(len1, run4).
     Inr run4)))"

definition mangle_Shrink :: "honggfuzz_t \<Rightarrow> run_t \<Rightarrow> bool \<Rightarrow> error + run_t" where
  "mangle_Shrink g run printable =
     (if dyn_size run \<le> 2 then Inr run
      else
        bindE (mangle_getOffSet g run) (\<lambda>(off_start, run1).
        bindE (mangle_LenLeft run1 off_start) (\<lambda>len.
        if len = 0 then Inr run1
        else
          let (w, run2) = util_rnd64 run1 in
          bindE (if w mod 16 \<noteq> 0 then mangle_getLen g (HF_MIN 16 len) run2
                 else mangle_getLen g len run2) (\<lambda>(len1, run3).
          let off_end = off_start + len1;
              len_to_move = size_sub (dyn_size run3) off_end
          in bindE (mangle_Move run3 off_end off_start len_to_move) (\<lambda>run4.
             Inr (input_setSize run4 (size_sub (dyn_size run4) len1)))))))"

text \<open>\<^verbatim>\<open>snprintf(buf, 20, "%-19" PRId64, v)\<close>: the decimal digits of the signed value,
  padded with spaces on the right to 19 characters, cut after 19 characters and closed by
  a NUL byte.\<close>

fun dec_digits :: "nat \<Rightarrow> byte list" where
  "dec_digits n = (if n < 10 then [48 + of_nat n] else dec_digits (n div 10) @ [48 + of_nat (n mod 10)])"

declare dec_digits.simps [simp del]

definition snprintf_ld19 :: "u64 \<Rightarrow> byte list" where
  "snprintf_ld19 w =
     (let v = sint w;
          txt = (if v < 0 then 45 # dec_digits (nat (- v)) else dec_digits (nat v))
      in take 19 (txt @ replicate (19 - length txt) 32) @ [0])"

definition mangle_ASCIINumOverwrite :: "honggfuzz_t \<Rightarrow> run_t \<Rightarrow> bool \<Rightarrow> error + run_t" where
  "mangle_ASCIINumOverwrite g run printable =
     bindE (mangle_getOffSet g run) (\<lambda>(off, run1).
     bindE (util_rndGet 2 8 run1) (\<lambda>(len, run2).
     let (w, run3) = util_rnd64 run2;
         buf = snprintf_ld19 w
     in mangle_Overwrite run3 off (Buf buf) (unat len) printable))"

definition mangle_ASCIINumInsert :: "honggfuzz_t \<Rightarrow> run_t \<Rightarrow> bool \<Rightarrow> error + run_t" where
  "mangle_ASCIINumInsert g run printable =
     bindE (mangle_getOffSet g run) (\<lambda>(off, run1).
     bindE (util_rndGet 2 8 run1) (\<lambda>(len, run2).
     let (w, run3) = util_rnd64 run2;
         buf = snprintf_ld19 w
     in mangle_Insert g run3 off (Buf buf) (unat len) printable))"

definition mangle_SpliceOverwrite :: "honggfuzz_t \<Rightarrow> run_t \<Rightarrow> bool \<Rightarrow> error + run_t" where
  "mangle_SpliceOverwrite g run printable =
     (let ((sz, buf), run1) = input_getRandomInputAsBuf g run in
      if sz = 0 then mangle_BytesOverwrite g run1 printable
      else
        bindE (mangle_getLen g sz run1) (\<lambda>(l, run2).
        let remoteOff = l - 1 in
        bindE (mangle_getOffSet g run2) (\<lambda>(localOff, run3).
        bindE (mangle_getLen g (HF_MIN (size_sub sz remoteOff) (size_sub (dyn_size run3) localOff)) run3)
          (\<lambda>(len, run4).
        mangle_Overwrite run4 localOff (Buf (drop remoteOff buf)) len printable))))"

definition mangle_SpliceInsert :: "honggfuzz_t \<Rightarrow> run_t \<Rightarrow> bool \<Rightarrow> error + run_t" where
  "mangle_SpliceInsert g run printable =
     (let ((sz, buf), run1) = input_getRandomInputAsBuf g run in
      if sz = 0 then mangle_BytesInsert g run1 printable
      else
        bindE (mangle_getLen g sz run1) (\<lambda>(l, run2).
        let remoteOff = l - 1 in
        bindE (mangle_getOffSet g run2) (\<lambda>(localOff, run3).
        bindE (mangle_getLen g (HF_MIN (size_sub sz remoteOff) (size_sub (dyn_size run3) localOff)) run3)
          (\<lambda>(len, run4).
        mangle_Insert g run4 localOff (Buf (drop remoteOff buf)) len printable))))"

subsection \<open>mangle.c: the size controller and the dispatcher\<close>

text \<open>\<^verbatim>\<open>ssize_t\<close> values are integers; \<open>sint\<close> is the cast of a \<^verbatim>\<open>uint64_t\<close> to it.\<close>

text \<open>The \<^verbatim>\<open>switch (choice)\<close> of \<^verbatim>\<open>mangle_Resize\<close>: the draw of the bucket and the value
  of \<^verbatim>\<open>newsz\<close> when the switch is left.\<close>

definition resize_choice :: "honggfuzz_t \<Rightarrow> int \<Rightarrow> run_t \<Rightarrow> error + (int \<times> run_t)" where
  "resize_choice g oldsz run =
     bindE (util_rndGet 0 32 run) (\<lambda>(choice, run1).
     if choice = 0 then
       bindE (util_rndGet 1 (of_nat (mutate_maxInputSz g)) run1) (\<lambda>(r, run'). Inr (sint r, run'))
     else if 1 \<le> choice \<and> choice \<le> 4 then
       bindE (util_rndGet 0 8 run1) (\<lambda>(r, run'). Inr (oldsz + sint r, run'))
     else if choice = 5 then
       bindE (util_rndGet 9 128 run1) (\<lambda>(r, run'). Inr (oldsz + sint r, run'))
     else if 6 \<le> choice \<and> choice \<le> 9 then
       bindE (util_rndGet 0 8 run1) (\<lambda>(r, run'). Inr (oldsz - sint r, run'))
     else if choice = 10 then
       bindE (util_rndGet 9 128 run1) (\<lambda>(r, run'). Inr (oldsz - sint r, run'))
     else if 11 \<le> choice \<and> choice \<le> 32 then Inr (oldsz, run1)
     else Inl Fatal)"

definition mangle_Resize :: "honggfuzz_t \<Rightarrow> run_t \<Rightarrow> bool \<Rightarrow> error + run_t" where
  "mangle_Resize g run printable =
     (let oldsz = int (dyn_size run) in
      bindE (resize_choice g oldsz run) (\<lambda>(newsz0, run2).
      let newsz1 = (if newsz0 < 1 then 1 else newsz0);
          newsz = (if newsz1 > int (mutate_maxInputSz g) then int (mutate_maxInputSz g) else newsz1);
          run3 = input_setSize run2 (nat newsz)
      in if newsz > oldsz then
           if printable then memset_dyn run3 (nat oldsz) 32 (nat (newsz - oldsz)) else Inr run3
         else Inr run3))"

definition mangleFuncs :: "(honggfuzz_t \<Rightarrow> run_t \<Rightarrow> bool \<Rightarrow> error + run_t) list" where
  "mangleFuncs = [
     mangle_Shrink,
     mangle_Shrink,
     mangle_Shrink,
     mangle_Shrink,
     mangle_Expand,
     mangle_Bit,
     mangle_IncByte,
     mangle_DecByte,
     mangle_NegByte,
     mangle_AddSub,
     mangle_MemSet,
     mangle_MemCopyOverwrite,
     mangle_MemCopyInsert,
     mangle_BytesOverwrite,
     mangle_BytesInsert,
     mangle_ASCIINumOverwrite,
     mangle_ASCIINumInsert,
     mangle_ByteRepeatOverwrite,
     mangle_ByteRepeatInsert,
     mangle_MagicOverwrite,
     mangle_MagicInsert,
     mangle_DictionaryOverwrite,
     mangle_DictionaryInsert,
     mangle_ConstFeedbackOverwrite,
     mangle_ConstFeedbackInsert,
     mangle_RandomOverwrite,
     mangle_RandomInsert,
     mangle_SpliceOverwrite,
     mangle_SpliceInsert
   ]"

text \<open>The body of the loop \<^verbatim>\<open>for (x = 0; x < changesCnt; x++)\<close>, and the loop with the
  number of rounds that are left.\<close>

definition mangle_round :: "honggfuzz_t \<Rightarrow> run_t \<Rightarrow> error + run_t" where
  "mangle_round g run =
     bindE (util_rndGet 0 (of_nat (length mangleFuncs - 1)) run) (\<lambda>(choice, run1).
     bindE (array_get mangleFuncs (unat choice)) (\<lambda>f.
     f g run1 (cfg_only_printable g)))"

fun mangle_rounds :: "honggfuzz_t \<Rightarrow> nat \<Rightarrow> run_t \<Rightarrow> error + run_t" where
  "mangle_rounds g 0 run = Inr run"
| "mangle_rounds g (Suc n) run = bindE (mangle_round g run) (\<lambda>run1. mangle_rounds g n run1)"

text \<open>The \<^verbatim>\<open>switch (slow_factor)\<close> that fixes \<^verbatim>\<open>changesCnt\<close>, and the splice that is
  made when the coverage has not changed for more than a second.\<close>

definition mangle_changesCnt :: "honggfuzz_t \<Rightarrow> run_t \<Rightarrow> nat \<Rightarrow> error + (nat \<times> run_t)" where
  "mangle_changesCnt g run slow_factor =
     (if slow_factor \<le> 2 then
        bindE (util_rndGet 1 (of_nat (mutate_mutationsPerRun g)) run)
          (\<lambda>(r, run'). Inr (unat r, run'))
      else if slow_factor \<le> 4 then Inr (HF_MAX (mutate_mutationsPerRun g) 5, run)
      else if slow_factor \<le> 9 then Inr (HF_MAX (mutate_mutationsPerRun g) 7, run)
      else Inr (HF_MAX (mutate_mutationsPerRun g) 10, run))"

definition mangle_staleSplice :: "honggfuzz_t \<Rightarrow> run_t \<Rightarrow> error + run_t" where
  "mangle_staleSplice g run =
     (if timeNowMillis run - timing_lastCovUpdate g > 1000 then
        let (w, run') = util_rnd64 run in
        if w mod 3 = 0 then mangle_SpliceOverwrite g run' (cfg_only_printable g)
        else if w mod 3 = 1 then mangle_SpliceInsert g run' (cfg_only_printable g)
        else Inr run'
      else Inr run)"

definition mangle_mangleContent :: "honggfuzz_t \<Rightarrow> run_t \<Rightarrow> nat \<Rightarrow> error + run_t" where
  "mangle_mangleContent g run slow_factor =
     (if mutationsPerRun run = 0 then Inr run
      else
        bindE (if dyn_size run = 0 then mangle_Resize g run (cfg_only_printable g) else Inr run)
          (\<lambda>run1.
        bindE (mangle_changesCnt g run1 slow_factor) (\<lambda>(changesCnt, run2).
        bindE (mangle_staleSplice g run2) (\<lambda>run3.
        mangle_rounds g changesCnt run3))))"

subsection \<open>Reference semantics of the buffer primitives\<close>

text \<open>What the primitives are meant to do to the storage, stated index by index and without
  reference to the code. \<open>patch mem off bs\<close> is \<open>mem\<close> with the bytes \<open>bs\<close> written at
  \<open>off\<close>. \<open>move_read_then_write mem from to n\<close> is the mathematical "read, then write":
  every byte of the destination \<open>[to, to + n)\<close> receives the value that the corresponding
  byte of the source \<open>[from, from + n)\<close> had before the move.\<close>

definition patch :: "byte list \<Rightarrow> nat \<Rightarrow> byte list \<Rightarrow> byte list" where
  "patch mem off bs =
     map (\<lambda>i. if off \<le> i \<and> i < off + length bs then bs ! (i - off) else mem ! i) [0..<length mem]"

definition move_read_then_write :: "byte list \<Rightarrow> nat \<Rightarrow> nat \<Rightarrow> nat \<Rightarrow> byte list" where
  "move_read_then_write mem off_from off_to n =
     map (\<lambda>i. if off_to \<le> i \<and> i < off_to + n then mem ! (off_from + (i - off_to)) else mem ! i)
       [0..<length mem]"

subsection \<open>Properties of states\<close>

text \<open>\<open>printable_byte\<close>: a byte of \<open>[0x20, 0x7E]\<close>. \<open>printable_buf\<close>: every byte of
  \<^verbatim>\<open>data[0..size)\<close> is printable.\<close>

definition printable_byte :: "byte \<Rightarrow> bool" where
  "printable_byte b \<longleftrightarrow> 32 \<le> b \<and> b \<le> 126"

definition printable_buf :: "run_t \<Rightarrow> bool" where
  "printable_buf run = list_all printable_byte (take (dyn_size run) (dyn_data run))"

text \<open>Two relations between the state before and the state after a call. \<open>grown\<close>: the
  mapping is the same, the size did not decrease, and if it changed it is within the limit.
  \<open>size_safe\<close>: the mapping is the same, and a size within the limit stays within the limit
  and, if it was at least \<open>1\<close>, stays at least \<open>1\<close>.\<close>

definition grown :: "honggfuzz_t \<Rightarrow> run_t \<Rightarrow> run_t \<Rightarrow> bool" where
  "grown g run run' \<longleftrightarrow>
     length (dyn_data run') = length (dyn_data run) \<and> dyn_size run \<le> dyn_size run' \<and>
     (dyn_size run' = dyn_size run \<or> dyn_size run' \<le> mutate_maxInputSz g)"

definition size_safe :: "honggfuzz_t \<Rightarrow> run_t \<Rightarrow> run_t \<Rightarrow> bool" where
  "size_safe g run run' \<longleftrightarrow>
     length (dyn_data run') = length (dyn_data run) \<and>
     (dyn_size run \<le> mutate_maxInputSz g \<longrightarrow>
        dyn_size run' \<le> mutate_maxInputSz g \<and> (1 \<le> dyn_size run \<longrightarrow> 1 \<le> dyn_size run'))"

text \<open>\<open>sampler_ok g n\<close>: \<open>n\<close> passes the guard of \<open>mangle_getLen\<close> and its cube fits into
  64 bits. \<open>buf_inv\<close>: a non-empty input within the limit, in a mapping that holds
  \<open>maxInputSz\<close> bytes, with a limit for which the sampler is known to return.\<close>

definition sampler_ok :: "honggfuzz_t \<Rightarrow> nat \<Rightarrow> bool" where
  "sampler_ok g n \<longleftrightarrow> n \<le> HF_INPUT_MAX_SIZE g \<and> n ^ 3 < 2 ^ 64"

definition buf_inv :: "honggfuzz_t \<Rightarrow> run_t \<Rightarrow> bool" where
  "buf_inv g run \<longleftrightarrow>
     1 \<le> dyn_size run \<and> dyn_size run \<le> mutate_maxInputSz g \<and>
     mutate_maxInputSz g \<le> length (dyn_data run) \<and> sampler_ok g (mutate_maxInputSz g)"

text \<open>\<open>wf_cfg\<close>: what the rest of honggfuzz is taken to guarantee about the configuration.
  The base number of mutations is at least \<open>1\<close>; \<^verbatim>\<open>dictionaryCnt\<close> does not exceed the number
  of dictionary entries and no entry is longer than its \<^verbatim>\<open>val\<close> array; when comparison
  feedback is switched on, its table is not empty and no token is longer than its array;
  every prior input of the corpus has a size on which the length sampler returns.\<close>

definition wf_cfg :: "honggfuzz_t \<Rightarrow> bool" where
  "wf_cfg g \<longleftrightarrow>
     1 \<le> mutate_mutationsPerRun g \<and> mutate_mutationsPerRun g < 2 ^ 64 \<and>
     mutate_dictionaryCnt g \<le> length (mutate_dictionary g) \<and>
     mutate_dictionaryCnt g < 2 ^ 64 \<and>
     list_all (\<lambda>(val, len). len \<le> length val) (mutate_dictionary g) \<and>
     (feedback_cmpFeedback g \<longrightarrow>
        1 \<le> length (valArr (feedback_cmpFeedbackMap g)) \<and>
        length (valArr (feedback_cmpFeedbackMap g)) < 2 ^ 32 \<and>
        list_all (\<lambda>(val, len). len \<le> length val) (valArr (feedback_cmpFeedbackMap g))) \<and>
     (\<forall>w. sampler_ok g (length (prior_input g w)))"

subsection \<open>Concrete configurations and states\<close>

text \<open>A configuration with the input limits of the honggfuzz distribution
  (\<^verbatim>\<open>_HF_INPUT_MAX_SIZE\<close> = 128 MiB), no dictionary, no feedback and an empty corpus.\<close>

definition cfg_large :: honggfuzz_t where
  "cfg_large = \<lparr>mutate_maxInputSz = 134217728, mutate_mutationsPerRun = 1,
     mutate_dictionary = [], mutate_dictionaryCnt = 0, cfg_only_printable = True,
     feedback_cmpFeedback = False, feedback_cmpFeedbackMap = \<lparr>cnt = 0, valArr = []\<rparr>,
     timing_lastCovUpdate = 0, HF_INPUT_MAX_SIZE = 134217728, prior_input = (\<lambda>w. [])\<rparr>"

text \<open>A state whose entropy source returns \<open>1999999999\<close> on every read.\<close>

definition run_const_entropy :: run_t where
  "run_const_entropy = \<lparr>dyn_data = [], dyn_size = 0, mutationsPerRun = 1,
     entropy = (\<lambda>i. 1999999999), drawn = 0, timeNowMillis = 0\<rparr>"

text \<open>A three-byte input \<^verbatim>\<open>"abc"\<close> in a mapping of eight bytes, with mutation switched off.\<close>

definition run_disabled :: run_t where
  "run_disabled = \<lparr>dyn_data = [97, 98, 99, 0, 0, 0, 0, 0], dyn_size = 3, mutationsPerRun = 0,
     entropy = (\<lambda>i. 0), drawn = 0, timeNowMillis = 5000\<rparr>"

text \<open>A configuration with an input limit of eight bytes, printable mode off.\<close>

definition cfg_small :: honggfuzz_t where
  "cfg_small = \<lparr>mutate_maxInputSz = 8, mutate_mutationsPerRun = 1,
     mutate_dictionary = [], mutate_dictionaryCnt = 0, cfg_only_printable = False,
     feedback_cmpFeedback = False, feedback_cmpFeedbackMap = \<lparr>cnt = 0, valArr = []\<rparr>,
     timing_lastCovUpdate = 0, HF_INPUT_MAX_SIZE = 134217728, prior_input = (\<lambda>w. [])\<rparr>"

text \<open>A five-byte input in a mapping of eight bytes.\<close>

definition run_five :: run_t where
  "run_five = \<lparr>dyn_data = [1, 2, 3, 4, 5, 0, 0, 0], dyn_size = 5, mutationsPerRun = 1,
     entropy = (\<lambda>i. 0), drawn = 0, timeNowMillis = 0\<rparr>"

text \<open>The limit of eight bytes again, in printable mode.\<close>

definition cfg_printable :: honggfuzz_t where
  "cfg_printable = \<lparr>mutate_maxInputSz = 8, mutate_mutationsPerRun = 1,
     mutate_dictionary = [], mutate_dictionaryCnt = 0, cfg_only_printable = True,
     feedback_cmpFeedback = False, feedback_cmpFeedbackMap = \<lparr>cnt = 0, valArr = []\<rparr>,
     timing_lastCovUpdate = 0, HF_INPUT_MAX_SIZE = 134217728, prior_input = (\<lambda>w. [])\<rparr>"

text \<open>The one-byte input \<^verbatim>\<open>"~"\<close>. The entropy source makes the dispatcher run one round,
  choose entry 9 of the table (\<^verbatim>\<open>mangle_AddSub\<close>) and draw the delta \<open>17 - 16 = 1\<close>.\<close>

definition run_tilde :: run_t where
  "run_tilde = \<lparr>dyn_data = [126, 32, 32, 32, 32, 32, 32, 32], dyn_size = 1, mutationsPerRun = 1,
     entropy = (\<lambda>i. if i = 1 then 9 else if i = 3 then 17 else 0), drawn = 0, timeNowMillis = 0\<rparr>"

text \<open>An empty input. The entropy source makes \<^verbatim>\<open>mangle_Resize\<close> choose the new size \<open>3\<close>
  and the dispatcher run one round with entry 5 of the table (\<^verbatim>\<open>mangle_Bit\<close>).\<close>

definition run_empty :: run_t where
  "run_empty = \<lparr>dyn_data = [0, 0, 0, 0, 0, 0, 0, 0], dyn_size = 0, mutationsPerRun = 1,
     entropy = (\<lambda>i. if i = 1 then 2 else if i = 3 then 5 else 0), drawn = 0, timeNowMillis = 0\<rparr>"

text \<open>An input of 4 MiB in a mapping of 128 MiB, the entropy source as in
  \<open>run_const_entropy\<close>.\<close>

definition run_4MiB :: run_t where
  "run_4MiB = \<lparr>dyn_data = replicate 134217728 0, dyn_size = 4194304, mutationsPerRun = 1,
     entropy = (\<lambda>i. 1999999999), drawn = 0, timeNowMillis = 0\<rparr>"

text \<open>The five-byte input again. The entropy source makes \<^verbatim>\<open>mangle_BytesInsert\<close> draw the
  bytes \<open>0xAA 0xBB\<close>, the offset \<open>2\<close> and the count \<open>2\<close>.\<close>

definition run_five_drawn :: run_t where
  "run_five_drawn = \<lparr>dyn_data = [1, 2, 3, 4, 5, 0, 0, 0], dyn_size = 5, mutationsPerRun = 1,
     entropy = (\<lambda>i. if i = 0 then 48042 else if i = 1 then 15 else 1), drawn = 0,
     timeNowMillis = 0\<rparr>"

section \<open>Verification\<close>

subsection \<open>The result monad and the random numbers\<close>

lemma bindE_Inr_iff: "bindE m f = Inr y \<longleftrightarrow> (\<exists>x. m = Inr x \<and> f x = Inr y)"
  by (cases m) (simp_all add: bindE_def)

lemma unat_range_width:
  fixes mn mx :: u64
  assumes "mn \<le> mx" "mx - mn + 1 \<noteq> 0"
  shows "unat (mx - mn + 1) = unat mx - unat mn + 1"
proof -
  have le: "unat mn \<le> unat mx" using assms(1) by (simp add: word_le_nat_alt)
  have s: "unat (mx - mn) = unat mx - unat mn" using assms(1) by (simp add: unat_sub)
  have "unat mx < 2 ^ 64" using unsigned_less [of mx] by simp
  have ne: "mx - mn \<noteq> - 1" using assms(2) by (metis add.commute add_eq_0_iff)
  have "unat (mx - mn) \<noteq> 2 ^ 64 - 1"
  proof
    assume "unat (mx - mn) = 2 ^ 64 - 1"
    then have "unat (mx - mn) = unat (- 1 :: u64)" by (simp add: unsigned_minus_1_eq_mask mask_eq_exp_minus_1)
    then show False using ne by (simp only: word_unat_eq_iff [symmetric])
  qed
  moreover have "unat (mx - mn) < 2 ^ 64" using unsigned_less [of "mx - mn"] by simp
  ultimately have "unat (mx - mn) + unat (1::u64) < 2 ^ 64" by simp
  then have "unat (mx - mn + 1) = unat (mx - mn) + unat (1::u64)"
    using unat_add_lem [of "mx - mn" 1] by simp
  then show ?thesis using s by simp
qed

lemma word_mod_plus_range:
  fixes r mn mx :: u64
  assumes "mn \<le> mx" "mx - mn + 1 \<noteq> 0"
  shows "unat (r mod (mx - mn + 1) + mn) = unat r mod (unat mx - unat mn + 1) + unat mn"
proof -
  have le: "unat mn \<le> unat mx" using assms(1) by (simp add: word_le_nat_alt)
  have w: "unat (mx - mn + 1) = unat mx - unat mn + 1" by (rule unat_range_width [OF assms])
  have m: "unat (r mod (mx - mn + 1)) = unat r mod (unat mx - unat mn + 1)"
    by (simp add: unat_mod w)
  have "unat r mod (unat mx - unat mn + 1) < unat mx - unat mn + 1" by simp
  then have "unat r mod (unat mx - unat mn + 1) + unat mn \<le> unat mx" using le by linarith
  moreover have "unat mx < 2 ^ 64" using unsigned_less [of mx] by simp
  ultimately have "unat (r mod (mx - mn + 1)) + unat mn < 2 ^ 64" using m by simp
  then have "unat (r mod (mx - mn + 1) + mn) = unat (r mod (mx - mn + 1)) + unat mn"
    using unat_add_lem [of "r mod (mx - mn + 1)" mn] by simp
  then show ?thesis using m by simp
qed

lemma getLen_small_q:
  fixes mx r :: nat
  assumes "2 \<le> mx" "mx ^ 3 < 2 ^ 64" "r < mx * mx"
  shows "((r * r) mod 2 ^ 64) div (mx ^ 3) < mx"
proof (cases "mx \<le> 65536")
  case True
  have "r * r < (mx * mx) * (mx * mx)" using assms(3) assms(1) by (intro mult_strict_mono) auto
  then have "r * r < mx * mx ^ 3" by (simp add: power3_eq_cube mult.assoc)
  moreover have "(r * r) mod 2 ^ 64 \<le> r * r" by simp
  ultimately have "(r * r) mod 2 ^ 64 < mx * mx ^ 3" by linarith
  then show ?thesis by (rule less_mult_imp_div_less)
next
  case False
  then have "65537 \<le> mx" by simp
  then have "(65537::nat) ^ 4 \<le> mx ^ 4" by (rule power_mono) simp
  then have "(2::nat) ^ 64 < mx ^ 4" by simp
  moreover have "(r * r) mod 2 ^ 64 < (2::nat) ^ 64" by simp
  ultimately have "(r * r) mod 2 ^ 64 < mx * mx ^ 3" by (simp add: power4_eq_xxxx power3_eq_cube mult.assoc)
  then show ?thesis by (rule less_mult_imp_div_less)
qed


lemma util_rndGet_Inr:
  assumes "util_rndGet mn mx run = Inr (v, run')"
  shows "mn \<le> v \<and> v \<le> mx \<and> run' = run\<lparr>drawn := Suc (drawn run)\<rparr>"
proof -
  from assms have c: "mn \<le> mx" "mx - mn + 1 \<noteq> 0"
    and v: "v = entropy run (drawn run) mod (mx - mn + 1) + mn"
    and r: "run' = run\<lparr>drawn := Suc (drawn run)\<rparr>"
    by (auto simp: util_rndGet_def next_entropy_def Let_def split: if_splits)
  have u: "unat v = unat (entropy run (drawn run)) mod (unat mx - unat mn + 1) + unat mn"
    unfolding v by (rule word_mod_plus_range [OF c])
  have le: "unat mn \<le> unat mx" using c(1) by (simp add: word_le_nat_alt)
  have "unat (entropy run (drawn run)) mod (unat mx - unat mn + 1) < unat mx - unat mn + 1"
    by simp
  then have "unat mn \<le> unat v \<and> unat v \<le> unat mx" using u le by linarith
  then show ?thesis using r by (simp add: word_le_nat_alt)
qed

lemma util_rndGet_returns:
  assumes "mn \<le> mx" "mx - mn + 1 \<noteq> 0"
  shows "\<exists>v. util_rndGet mn mx run = Inr (v, run\<lparr>drawn := Suc (drawn run)\<rparr>)"
  using assms by (simp add: util_rndGet_def next_entropy_def Let_def not_less [symmetric])

lemma mangle_getLen_Inr:
  assumes "mangle_getLen g mx run = Inr (v, run')"
  shows "1 \<le> v \<and> v \<le> mx \<and> dyn_data run' = dyn_data run \<and> dyn_size run' = dyn_size run"
proof (cases "mx = 1")
  case True
  then show ?thesis using assms by (simp add: mangle_getLen_def split: if_splits)
next
  case False
  from assms False obtain rnd where
    g: "util_rndGet 1 (of_nat mx * of_nat mx - 1) run = Inr (rnd, run')"
    and lo: "\<not> rnd * rnd div (of_nat mx * of_nat mx * of_nat mx) + 1 < (1::u64)"
    and hi: "\<not> rnd * rnd div (of_nat mx * of_nat mx * of_nat mx) + 1 > (of_nat mx :: u64)"
    and v: "v = unat (rnd * rnd div (of_nat mx * of_nat mx * of_nat mx) + 1)"
    by (auto simp: mangle_getLen_def Let_def bindE_Inr_iff split: if_splits)
  from lo have "1 \<le> v" unfolding v by (simp add: word_less_nat_alt)
  moreover from hi have "v \<le> unat (of_nat mx :: u64)" unfolding v by (simp add: word_less_nat_alt)
  moreover have "unat (of_nat mx :: u64) \<le> mx" by (simp add: unat_of_nat)
  ultimately have "1 \<le> v \<and> v \<le> mx" by linarith
  moreover have "run' = run\<lparr>drawn := Suc (drawn run)\<rparr>" using util_rndGet_Inr [OF g] by simp
  ultimately show ?thesis by simp
qed

lemma mangle_getLen_returns:
  assumes "1 \<le> mx" "mx \<le> HF_INPUT_MAX_SIZE g" "mx ^ 3 < 2 ^ 64"
  shows "\<exists>v run'. mangle_getLen g mx run = Inr (v, run')"
proof (cases "mx = 1")
  case True
  then show ?thesis using assms by (simp add: mangle_getLen_def)
next
  case False
  then have mx2: "2 \<le> mx" using assms(1) by simp
  have lt3: "mx * mx * mx < 2 ^ 64" using assms(3) by (simp add: power3_eq_cube)
  have "mx * mx * 1 \<le> mx * mx * mx" using mx2 by (intro mult_le_mono) auto
  then have lt2: "mx * mx < 2 ^ 64" using lt3 by linarith
  have "mx * 1 \<le> mx * mx" using mx2 by (intro mult_le_mono) auto
  then have lt1: "mx < 2 ^ 64" using lt2 by linarith
  have u1: "unat (of_nat mx :: u64) = mx" using lt1 by (simp add: unat_of_nat)
  have u2: "unat (of_nat mx * of_nat mx :: u64) = mx * mx"
    using lt2 by (simp add: unat_of_nat flip: of_nat_mult)
  have u3: "unat (of_nat mx * of_nat mx * of_nat mx :: u64) = mx * mx * mx"
    using lt3 by (simp add: unat_of_nat flip: of_nat_mult)
  have "2 * 2 \<le> mx * mx" using mx2 by (intro mult_le_mono) auto
  then have four: "4 \<le> mx * mx" by simp
  let ?m2 = "of_nat mx * of_nat mx :: u64"
  let ?m3 = "of_nat mx * of_nat mx * of_nat mx :: u64"
  have m2ne: "?m2 \<noteq> 0" using u2 four by (metis not_numeral_le_zero unat_0)
  have um: "unat (?m2 - 1) = mx * mx - 1" using m2ne u2 by (simp add: unat_minus_one)
  have c1: "(1::u64) \<le> ?m2 - 1" using um four by (simp add: word_le_nat_alt)
  have c2: "?m2 - 1 - 1 + 1 \<noteq> 0"
  proof -
    have "?m2 - 1 - 1 + 1 = ?m2 - 1" by simp
    moreover have "unat (?m2 - 1) \<noteq> 0" using um four by simp
    ultimately show ?thesis by (metis unat_0)
  qed
  obtain rnd where g: "util_rndGet 1 (?m2 - 1) run = Inr (rnd, run\<lparr>drawn := Suc (drawn run)\<rparr>)"
    using util_rndGet_returns [OF c1 c2] by blast
  have rr: "1 \<le> rnd \<and> rnd \<le> ?m2 - 1" using util_rndGet_Inr [OF g] by simp
  then have "unat rnd \<le> mx * mx - 1" using um by (simp add: word_le_nat_alt)
  then have rlt: "unat rnd < mx * mx" using four by linarith
  have m3ne: "?m3 \<noteq> 0" using u3 four mx2
    by (metis mult_is_0 not_numeral_le_zero unat_0)
  have "unat (rnd * rnd div ?m3) = unat (rnd * rnd) div unat ?m3" by (rule unat_div)
  also have "unat (rnd * rnd) = (unat rnd * unat rnd) mod 2 ^ 64" by (simp add: unat_word_ariths)
  finally have q: "unat (rnd * rnd div ?m3) = (unat rnd * unat rnd) mod 2 ^ 64 div (mx ^ 3)"
    by (simp only: u3 power3_eq_cube)
  have qlt: "unat (rnd * rnd div ?m3) < mx"
    unfolding q by (rule getLen_small_q [OF mx2 assms(3) rlt])
  then have "unat (rnd * rnd div ?m3) + unat (1::u64) < 2 ^ 64" using lt1 by simp
  then have ret: "unat (rnd * rnd div ?m3 + 1) = unat (rnd * rnd div ?m3) + 1"
    using unat_add_lem [of "rnd * rnd div ?m3" 1] by simp
  have a: "\<not> rnd * rnd div ?m3 + 1 < 1" by (simp add: word_less_nat_alt ret)
  have b: "\<not> rnd * rnd div ?m3 + 1 > of_nat mx" using qlt by (simp add: word_less_nat_alt ret u1)
  show ?thesis using assms False g m3ne a b
    by (simp add: mangle_getLen_def Let_def bindE_def)
qed


subsection \<open>The length sampler\<close>

text \<open>
  C6. The claim is that \<open>mangle_getLen\<close> returns a value of \<open>[1, max]\<close> for every
  \<open>max\<close> from \<open>1\<close> to \<^verbatim>\<open>_HF_INPUT_MAX_SIZE\<close> and every draw, and that its two fatal
  branches cannot be reached. The code computes \<open>max * max * max\<close> and \<open>rnd * rnd\<close> in
  64 bits. For \<open>max = 2642246\<close>, the least value whose cube exceeds \<open>2 ^ 64\<close>, the draw
  \<open>rnd = 2000000000\<close> gives \<open>ret = 3791516 > max\<close> and the fatal branch is taken; for
  \<open>max = 4194304\<close> the cube wraps to \<open>0\<close> and the division is by zero. Both values
  are below the 128 MiB that the guard at the head of the function lets through.
\<close>

theorem mangle_getLen_overflow:
  "mangle_getLen cfg_large 2642246 run_const_entropy = Inl Fatal \<and>
   mangle_getLen cfg_large 4194304 run_const_entropy = Inl DivByZero"
  by (simp add: mangle_getLen_def cfg_large_def run_const_entropy_def util_rndGet_def
      next_entropy_def bindE_def Let_def)

subsection \<open>The buffer primitives\<close>

lemma load_in_range: "off + n \<le> length mem \<Longrightarrow> load mem off n = Inr (take n (drop off mem))"
  by (simp add: load_def)

lemma splice_eq_patch:
  assumes "off + length bs \<le> length mem"
  shows "take off mem @ bs @ drop (off + length bs) mem = patch mem off bs"
proof (rule nth_equalityI)
  show "length (take off mem @ bs @ drop (off + length bs) mem) = length (patch mem off bs)"
    using assms by (simp add: patch_def)
next
  fix i assume "i < length (take off mem @ bs @ drop (off + length bs) mem)"
  then have i: "i < length mem" using assms by simp
  show "(take off mem @ bs @ drop (off + length bs) mem) ! i = patch mem off bs ! i"
    using i assms by (auto simp: patch_def nth_append)
qed

lemma length_patch [simp]: "length (patch mem off bs) = length mem"
  by (simp add: patch_def)

lemma patch_Nil [simp]: "patch mem off [] = mem"
  by (rule nth_equalityI) (auto simp: patch_def)

lemma store_in_range: "off + length bs \<le> length mem \<Longrightarrow> store mem off bs = Inr (patch mem off bs)"
  using splice_eq_patch [of off bs mem] by (simp add: store_def)

lemma store_Inr_patch: "store mem off bs = Inr d \<Longrightarrow> d = patch mem off bs"
  using splice_eq_patch [of off bs mem] by (auto simp: store_def split: if_splits)

lemma nth_patch: "i < length mem \<Longrightarrow>
   patch mem off bs ! i = (if off \<le> i \<and> i < off + length bs then bs ! (i - off) else mem ! i)"
  by (simp add: patch_def)

lemma patch_slice_eq_move_read_then_write:
  assumes "off_from + n \<le> length mem"
  shows "patch mem off_to (take n (drop off_from mem)) = move_read_then_write mem off_from off_to n"
  using assms by (auto simp: patch_def move_read_then_write_def min_def)

lemma mangle_Move_eq:
  assumes "dyn_size run \<le> length (dyn_data run)"
  shows "mangle_Move run off_from off_to len =
     Inr (if off_from \<ge> dyn_size run \<or> off_to \<ge> dyn_size run then run
          else run\<lparr>dyn_data := move_read_then_write (dyn_data run) off_from off_to
                  (min len (min (dyn_size run - off_from) (dyn_size run - off_to)))\<rparr>)"
proof (cases "off_from \<ge> dyn_size run \<or> off_to \<ge> dyn_size run")
  case True
  then show ?thesis by (auto simp: mangle_Move_def)
next
  case False
  let ?n = "min len (min (dyn_size run - off_from) (dyn_size run - off_to))"
  have n: "HF_MIN (HF_MIN len (dyn_size run - off_from)) (dyn_size run - off_to) = ?n"
    by (simp add: HF_MIN_def min_def)
  have "?n \<le> dyn_size run - off_from" "?n \<le> dyn_size run - off_to" by simp_all
  then have a: "off_from + ?n \<le> length (dyn_data run)"
    and b: "off_to + ?n \<le> length (dyn_data run)" using False assms by linarith+
  have l: "load (dyn_data run) off_from ?n = Inr (take ?n (drop off_from (dyn_data run)))"
    by (rule load_in_range [OF a])
  have len: "length (take ?n (drop off_from (dyn_data run))) = ?n" using a by simp
  have s: "store (dyn_data run) off_to (take ?n (drop off_from (dyn_data run)))
           = Inr (patch (dyn_data run) off_to (take ?n (drop off_from (dyn_data run))))"
    by (rule store_in_range) (simp only: len b)
  show ?thesis using False
    by (simp add: mangle_Move_def Let_def n memmove_dyn_def load_src_def l s bindE_def
        patch_slice_eq_move_read_then_write [OF a])
qed

text \<open>
  C4. \<open>mangle_Move\<close> on an input that lies within its mapping: the call always returns; it
  changes nothing when either offset is at or beyond the size; otherwise it copies exactly
  \<open>min len (min (size - from) (size - to))\<close> bytes, and the storage afterwards is the one
  given by reading the source slice in full and then writing it to the destination, whether or
  not the two slices overlap.
\<close>

theorem mangle_Move_semantics:
  assumes "dyn_size run \<le> length (dyn_data run)"
  shows "mangle_Move run off_from off_to len =
     Inr (if off_from \<ge> dyn_size run \<or> off_to \<ge> dyn_size run then run
          else run\<lparr>dyn_data := move_read_then_write (dyn_data run) off_from off_to
                  (min len (min (dyn_size run - off_from) (dyn_size run - off_to)))\<rparr>)"
  using assms by (rule mangle_Move_eq)

theorem mangle_Move_semantics_witness:
  "dyn_size run_five \<le> length (dyn_data run_five) \<and>
   mangle_Move run_five 0 1 10 = Inr (run_five\<lparr>dyn_data := [1, 1, 2, 3, 4, 0, 0, 0]\<rparr>)"
proof -
  have h: "dyn_size run_five \<le> length (dyn_data run_five)" by (simp add: run_five_def)
  have "move_read_then_write (dyn_data run_five) 0 1 4 = [1, 1, 2, 3, 4, 0, 0, 0]"
    by (simp add: move_read_then_write_def run_five_def upt_rec)
  then show ?thesis using h mangle_Move_semantics [OF h, of 0 1 10] by (simp add: run_five_def)
qed

lemma load_Inr_length: "load mem off n = Inr bs \<Longrightarrow> length bs = n"
  by (auto simp: load_def split: if_splits)

lemma load_src_Inr_length: "load_src run src n = Inr bs \<Longrightarrow> length bs = n"
  by (auto simp: load_src_def split: src_ptr.splits dest: load_Inr_length)

lemma slice_patch:
  assumes "off + length bs \<le> length mem"
  shows "take (length bs) (drop off (patch mem off bs)) = bs"
  using assms by (auto simp: patch_def intro!: nth_equalityI)

lemma patch_patch:
  assumes "length bs' = length bs"
  shows "patch (patch mem off bs) off bs' = patch mem off bs'"
  using assms by (auto simp: patch_def)

lemma to_printable_range: "32 \<le> to_printable b \<and> to_printable b \<le> 126"
proof -
  have "unat (b mod 95) = unat b mod 95" by (simp add: unat_mod)
  then have lt: "unat (b mod 95) < 95" by simp
  then have "unat (b mod 95) + unat (32 :: byte) < 2 ^ 8" by simp
  then have "unat (b mod 95 + 32) = unat (b mod 95) + unat (32 :: byte)"
    using unat_add_lem [of "b mod 95" "32 :: byte"] by simp
  then have "32 \<le> unat (b mod 95 + 32) \<and> unat (b mod 95 + 32) \<le> 126" using lt by simp
  then show ?thesis by (simp add: to_printable_def word_le_nat_alt)
qed

lemma util_turnToPrintable_patch:
  assumes "off + length bs \<le> length (dyn_data run)"
  shows "util_turnToPrintable (run\<lparr>dyn_data := patch (dyn_data run) off bs\<rparr>) off (length bs)
         = Inr (run\<lparr>dyn_data := patch (dyn_data run) off (map to_printable bs)\<rparr>)"
proof -
  let ?d = "patch (dyn_data run) off bs"
  have l: "load ?d off (length bs) = Inr bs"
    using assms by (simp add: load_in_range slice_patch)
  have s: "store ?d off (map to_printable bs) = Inr (patch ?d off (map to_printable bs))"
    by (rule store_in_range) (simp add: assms)
  show ?thesis by (simp add: util_turnToPrintable_def l s bindE_def patch_patch)
qed

lemma mangle_Overwrite_facts:
  assumes "off \<le> dyn_size run" and "dyn_size run \<le> length (dyn_data run)"
    and "load_src run src (min len (dyn_size run - off)) = Inr bs"
  shows "mangle_Overwrite run off src len printable =
           Inr (run\<lparr>dyn_data := patch (dyn_data run) off (if printable then map to_printable bs else bs)\<rparr>)
         \<and> length bs = min len (dyn_size run - off)
         \<and> (printable \<longrightarrow> (\<forall>b \<in> set (map to_printable bs). 32 \<le> b \<and> b \<le> 126))
         \<and> (off = dyn_size run \<or> len = 0 \<longrightarrow> mangle_Overwrite run off src len printable = Inr run)"
proof -
  let ?n = "min len (dyn_size run - off)"
  have n: "length bs = ?n" by (rule load_src_Inr_length [OF assms(3)])
  have rng: "off + length bs \<le> length (dyn_data run)" using n assms(1,2) by (simp add: min_def split: if_splits)
  have sub: "size_sub (dyn_size run) off = dyn_size run - off" using assms(1) by (simp add: size_sub_def)
  have len1: "(if len > dyn_size run - off then dyn_size run - off else len) = ?n" by (simp add: min_def)
  have mv: "memmove_dyn run off src ?n = Inr (run\<lparr>dyn_data := patch (dyn_data run) off bs\<rparr>)"
    using assms(3) store_in_range [OF rng] by (simp add: memmove_dyn_def bindE_def)
  have tp: "util_turnToPrintable (run\<lparr>dyn_data := patch (dyn_data run) off bs\<rparr>) off ?n
            = Inr (run\<lparr>dyn_data := patch (dyn_data run) off (map to_printable bs)\<rparr>)"
    using util_turnToPrintable_patch [OF rng] n by simp
  have main: "mangle_Overwrite run off src len printable =
           Inr (run\<lparr>dyn_data := patch (dyn_data run) off (if printable then map to_printable bs else bs)\<rparr>)"
  proof (cases "len = 0")
    case True
    then have "bs = []" using n by simp
    then show ?thesis using True by (simp add: mangle_Overwrite_def)
  next
    case False
    then show ?thesis
      by (simp add: mangle_Overwrite_def Let_def sub len1 mv tp bindE_def)
  qed
  have noop: "off = dyn_size run \<or> len = 0 \<longrightarrow> mangle_Overwrite run off src len printable = Inr run"
  proof
    assume "off = dyn_size run \<or> len = 0"
    then have "bs = []" using n by auto
    then show "mangle_Overwrite run off src len printable = Inr run" using main by simp
  qed
  show ?thesis using main n noop to_printable_range by auto
qed

text \<open>
  C3, as amended. For an offset \<open>off \<le> size\<close> and a source from which
  \<open>n = min len (size - off)\<close> bytes can be read, \<open>mangle_Overwrite\<close> returns, writes
  exactly those \<open>n\<close> bytes at \<open>off\<close> and nothing else, each written byte remapped into
  \<open>[0x20, 0x7E]\<close> when \<open>printable\<close> is set, and leaves the state as it was when
  \<open>off = size\<close> or \<open>len = 0\<close>.
\<close>

theorem mangle_Overwrite_semantics:
  assumes "off \<le> dyn_size run" and "dyn_size run \<le> length (dyn_data run)"
    and "load_src run src (min len (dyn_size run - off)) = Inr bs"
  shows "mangle_Overwrite run off src len printable =
           Inr (run\<lparr>dyn_data := patch (dyn_data run) off (if printable then map to_printable bs else bs)\<rparr>)
         \<and> length bs = min len (dyn_size run - off)
         \<and> (printable \<longrightarrow> (\<forall>b \<in> set (map to_printable bs). 32 \<le> b \<and> b \<le> 126))
         \<and> (off = dyn_size run \<or> len = 0 \<longrightarrow> mangle_Overwrite run off src len printable = Inr run)"
  using assms by (rule mangle_Overwrite_facts)

theorem mangle_Overwrite_semantics_witness:
  "3 \<le> dyn_size run_five \<and> dyn_size run_five \<le> length (dyn_data run_five) \<and>
   load_src run_five (Buf [65, 66, 67, 68]) (min 4 (dyn_size run_five - 3)) = Inr [65, 66] \<and>
   mangle_Overwrite run_five 3 (Buf [65, 66, 67, 68]) 4 True
     = Inr (run_five\<lparr>dyn_data := [1, 2, 3, 97, 98, 0, 0, 0]\<rparr>)"
proof -
  have h1: "3 \<le> dyn_size run_five" by (simp add: run_five_def)
  have h2: "dyn_size run_five \<le> length (dyn_data run_five)" by (simp add: run_five_def)
  have h3: "load_src run_five (Buf [65, 66, 67, 68]) (min 4 (dyn_size run_five - 3)) = Inr [65, 66]"
    by (simp add: load_src_def load_def run_five_def)
  have "patch (dyn_data run_five) 3 (map to_printable [65, 66]) = [1, 2, 3, 97, 98, 0, 0, 0]"
    by (simp add: patch_def run_five_def upt_rec to_printable_def)
  then show ?thesis using h1 h2 h3 mangle_Overwrite_semantics [OF h1 h2 h3, of True] by simp
qed

text \<open>
  C3, as stated, also has \<open>mangle_Overwrite\<close> do nothing when \<open>off > size\<close>. The code
  computes \<^verbatim>\<open>size - off\<close> on \<^verbatim>\<open>size_t\<close>, which wraps to a huge bound, and copies: with a
  five-byte input, offset \<open>6\<close> and one source byte, the byte at index \<open>6\<close> of the storage
  is overwritten.
\<close>

theorem mangle_Overwrite_past_size:
  "6 \<ge> dyn_size run_five \<and>
   mangle_Overwrite run_five 6 (Buf [65]) 1 False = Inr (run_five\<lparr>dyn_data := [1, 2, 3, 4, 5, 0, 65, 0]\<rparr>) \<and>
   mangle_Overwrite run_five 6 (Buf [65]) 1 False \<noteq> Inr run_five"
  by (simp add: mangle_Overwrite_def run_five_def size_sub_def memmove_dyn_def load_src_def
      load_def store_def bindE_def Let_def)

lemma nth_move_read_then_write: "i < length mem \<Longrightarrow>
   move_read_then_write mem off_from off_to n ! i =
     (if off_to \<le> i \<and> i < off_to + n then mem ! (off_from + (i - off_to)) else mem ! i)"
  by (simp add: move_read_then_write_def)

lemma length_move_read_then_write [simp]: "length (move_read_then_write mem off_from off_to n) = length mem"
  by (simp add: move_read_then_write_def)

lemma move_read_then_write_same [simp]: "move_read_then_write mem off off n = mem"
  by (rule nth_equalityI) (auto simp: move_read_then_write_def)

lemma mangle_Inflate_facts:
  assumes "off < dyn_size run" and "dyn_size run \<le> mutate_maxInputSz g"
    and "mutate_maxInputSz g \<le> length (dyn_data run)"
  shows "\<exists>run'. mangle_Inflate g run off len printable =
                   Inr (min len (mutate_maxInputSz g - dyn_size run), run')
     \<and> dyn_size run' = dyn_size run + min len (mutate_maxInputSz g - dyn_size run)
     \<and> length (dyn_data run') = length (dyn_data run)
     \<and> (\<forall>i. off \<le> i \<and> i < dyn_size run \<longrightarrow>
            dyn_data run' ! (i + min len (mutate_maxInputSz g - dyn_size run)) = dyn_data run ! i)
     \<and> (\<forall>i < off. dyn_data run' ! i = dyn_data run ! i)
     \<and> (printable \<longrightarrow> (\<forall>i. off \<le> i \<and> i < off + min len (mutate_maxInputSz g - dyn_size run) \<longrightarrow>
            dyn_data run' ! i = 32))
     \<and> (dyn_size run = mutate_maxInputSz g \<longrightarrow>
            mangle_Inflate g run off len printable = Inr (0, run))"
proof (cases "dyn_size run \<ge> mutate_maxInputSz g")
  case True
  then have "min len (mutate_maxInputSz g - dyn_size run) = 0" by simp
  then show ?thesis using True by (auto simp: mangle_Inflate_def)
next
  case False
  define a where "a = min len (mutate_maxInputSz g - dyn_size run)"
  define d where "d = dyn_data run"
  define run1 where "run1 = input_setSize run (dyn_size run + a)"
  have a: "(if len > mutate_maxInputSz g - dyn_size run
            then mutate_maxInputSz g - dyn_size run else len) = a" by (simp add: min_def a_def)
  have sz1: "dyn_size run1 = dyn_size run + a" "dyn_data run1 = d"
    by (simp_all add: input_setSize_def run1_def d_def)
  have "a \<le> mutate_maxInputSz g - dyn_size run" by (simp add: a_def)
  then have cap: "dyn_size run + a \<le> length d" using assms False unfolding d_def by linarith
  have n0: "min (dyn_size run + a) (min (dyn_size run + a - off) (dyn_size run + a - (off + a)))
           = dyn_size run - off" using assms(1) by linarith
  then have n: "min (dyn_size run1) (min (dyn_size run1 - off) (dyn_size run1 - (off + a)))
           = dyn_size run - off" by (simp only: sz1)
  have pre: "dyn_size run1 \<le> length (dyn_data run1)" using cap by (simp add: sz1)
  have guard: "\<not> (off \<ge> dyn_size run1 \<or> off + a \<ge> dyn_size run1)"
    using assms(1) by (simp add: sz1)
  have mv: "mangle_Move run1 off (off + a) (dyn_size run1)
            = Inr (run1\<lparr>dyn_data := move_read_then_write d off (off + a) (dyn_size run - off)\<rparr>)"
    using mangle_Move_eq [OF pre, of off "off + a" "dyn_size run1"] guard
    by (simp only: sz1 n0 if_False)
  define d2 where "d2 = move_read_then_write d off (off + a) (dyn_size run - off)"
  have ld2: "length d2 = length d" by (simp add: d2_def)
  have "off + length (replicate a (32::byte)) \<le> length d2" using cap assms(1) by (simp add: ld2)
  then have "store d2 off (replicate a 32) = Inr (patch d2 off (replicate a 32))"
    by (rule store_in_range)
  then have ms: "memset_dyn (run1\<lparr>dyn_data := d2\<rparr>) off 32 a
       = Inr (run1\<lparr>dyn_data := patch d2 off (replicate a 32)\<rparr>)"
    by (simp add: memset_dyn_def bindE_def)
  define d3 where "d3 = (if printable then patch d2 off (replicate a 32) else d2)"
  define run3 where "run3 = run1\<lparr>dyn_data := d3\<rparr>"
  have res: "mangle_Inflate g run off len printable = Inr (a, run3)"
    using False mv ms
    by (simp add: sz1 mangle_Inflate_def Let_def a bindE_def run3_def d3_def d2_def run1_def [symmetric])
  have p1: "dyn_size run3 = dyn_size run + a" by (simp add: run3_def sz1)
  have p2: "length (dyn_data run3) = length d" by (simp add: run3_def d3_def ld2)
  have p3: "\<forall>i. off \<le> i \<and> i < dyn_size run \<longrightarrow> dyn_data run3 ! (i + a) = d ! i"
    using cap by (auto simp: run3_def d3_def d2_def nth_patch nth_move_read_then_write)
  have p4: "\<forall>i < off. dyn_data run3 ! i = d ! i"
    using cap assms(1) by (auto simp: run3_def d3_def d2_def nth_patch nth_move_read_then_write)
  have p5: "printable \<longrightarrow> (\<forall>i. off \<le> i \<and> i < off + a \<longrightarrow> dyn_data run3 ! i = 32)"
    using cap assms(1) by (auto simp: run3_def d3_def d2_def nth_patch nth_move_read_then_write)
  show ?thesis using res p1 p2 p3 p4 p5 False assms(2)
    unfolding a_def [symmetric] d_def [symmetric] by (intro exI [of _ run3]) simp
qed

text \<open>
  C5. \<open>mangle_Inflate\<close> at an offset inside an input that respects the size limit, in a
  mapping that holds \<open>maxInputSz\<close> bytes: the call returns
  \<open>actual = min len (maxInputSz - size)\<close>, the size grows by exactly \<open>actual\<close>, every byte
  that was at an index of \<open>[off, size)\<close> is found \<open>actual\<close> places to the right, the bytes
  before \<open>off\<close> stay, the gap is filled with spaces in printable mode, and an input that is
  already at the limit is returned unchanged with the result \<open>0\<close>.
\<close>

theorem mangle_Inflate_semantics:
  assumes "off < dyn_size run" and "dyn_size run \<le> mutate_maxInputSz g"
    and "mutate_maxInputSz g \<le> length (dyn_data run)"
  shows "\<exists>run'. mangle_Inflate g run off len printable =
                   Inr (min len (mutate_maxInputSz g - dyn_size run), run')
     \<and> dyn_size run' = dyn_size run + min len (mutate_maxInputSz g - dyn_size run)
     \<and> length (dyn_data run') = length (dyn_data run)
     \<and> (\<forall>i. off \<le> i \<and> i < dyn_size run \<longrightarrow>
            dyn_data run' ! (i + min len (mutate_maxInputSz g - dyn_size run)) = dyn_data run ! i)
     \<and> (\<forall>i < off. dyn_data run' ! i = dyn_data run ! i)
     \<and> (printable \<longrightarrow> (\<forall>i. off \<le> i \<and> i < off + min len (mutate_maxInputSz g - dyn_size run) \<longrightarrow>
            dyn_data run' ! i = 32))
     \<and> (dyn_size run = mutate_maxInputSz g \<longrightarrow>
            mangle_Inflate g run off len printable = Inr (0, run))"
  using assms by (rule mangle_Inflate_facts)

theorem mangle_Inflate_semantics_witness:
  "1 < dyn_size run_five \<and> dyn_size run_five \<le> mutate_maxInputSz cfg_small \<and>
   mutate_maxInputSz cfg_small \<le> length (dyn_data run_five) \<and>
   (\<exists>run'. mangle_Inflate cfg_small run_five 1 10 True = Inr (3, run') \<and>
      dyn_size run' = 8 \<and> dyn_data run' ! 0 = 1 \<and> dyn_data run' ! 1 = 32 \<and>
      dyn_data run' ! 3 = 32 \<and> dyn_data run' ! 4 = 2 \<and> dyn_data run' ! 7 = 5)"
proof -
  have h1: "1 < dyn_size run_five" by (simp add: run_five_def)
  have h2: "dyn_size run_five \<le> mutate_maxInputSz cfg_small" by (simp add: run_five_def cfg_small_def)
  have h3: "mutate_maxInputSz cfg_small \<le> length (dyn_data run_five)" by (simp add: run_five_def cfg_small_def)
  have m: "min 10 (mutate_maxInputSz cfg_small - dyn_size run_five) = 3"
    by (simp add: run_five_def cfg_small_def)
  from mangle_Inflate_semantics [OF h1 h2 h3, of 10 True] obtain run' where
    r: "mangle_Inflate cfg_small run_five 1 10 True = Inr (3, run')"
    and s: "dyn_size run' = dyn_size run_five + 3"
    and shifted: "\<forall>i. 1 \<le> i \<and> i < dyn_size run_five \<longrightarrow> dyn_data run' ! (i + 3) = dyn_data run_five ! i"
    and before: "\<forall>i<1. dyn_data run' ! i = dyn_data run_five ! i"
    and gap: "\<forall>i. 1 \<le> i \<and> i < 1 + 3 \<longrightarrow> dyn_data run' ! i = 32"
    unfolding m by auto
  have "dyn_data run' ! 0 = 1" using before by (simp add: run_five_def)
  moreover have "dyn_data run' ! 1 = 32" "dyn_data run' ! 3 = 32" using gap by simp_all
  moreover have "dyn_data run' ! (1 + 3) = 2" "dyn_data run' ! (4 + 3) = 5"
    using shifted [rule_format, of 1] shifted [rule_format, of 4] by (simp_all add: run_five_def)
  ultimately show ?thesis using h1 h2 h3 r s by (intro conjI exI [of _ run']) (simp_all add: run_five_def)
qed

subsection \<open>What a call that returns has done to the size and the mapping\<close>

lemma next_entropy_frame:
  "next_entropy run = (w, run') \<Longrightarrow> dyn_size run' = dyn_size run \<and> dyn_data run' = dyn_data run"
  by (auto simp: next_entropy_def)

lemma util_rnd64_frame:
  "util_rnd64 run = (w, run') \<Longrightarrow> dyn_size run' = dyn_size run \<and> dyn_data run' = dyn_data run"
  by (auto simp: util_rnd64_def next_entropy_def)

lemma util_rndGet_frame:
  "util_rndGet mn mx run = Inr (v, run') \<Longrightarrow> dyn_size run' = dyn_size run \<and> dyn_data run' = dyn_data run"
  by (drule util_rndGet_Inr) simp

lemma util_rndPrintable_frame:
  "util_rndPrintable run = Inr (b, run') \<Longrightarrow> dyn_size run' = dyn_size run \<and> dyn_data run' = dyn_data run"
  by (auto simp: util_rndPrintable_def bindE_Inr_iff dest!: util_rndGet_frame)

lemma util_rndBuf_frame:
  "util_rndBuf n run = (bs, run') \<Longrightarrow>
     length bs = n \<and> dyn_size run' = dyn_size run \<and> dyn_data run' = dyn_data run"
proof (induction n arbitrary: run bs run')
  case 0
  then show ?case by simp
next
  case (Suc n)
  then show ?case
    by (auto simp: Let_def split: prod.splits dest!: util_rnd64_frame)
qed

lemma util_rndBufPrintable_frame:
  "util_rndBufPrintable n run = Inr (bs, run') \<Longrightarrow>
     length bs = n \<and> dyn_size run' = dyn_size run \<and> dyn_data run' = dyn_data run"
proof (induction n arbitrary: run bs run')
  case 0
  then show ?case by simp
next
  case (Suc n)
  then show ?case
    by (auto simp: bindE_Inr_iff dest!: util_rndPrintable_frame)
qed

lemma mangle_getOffSet_Inr:
  assumes "mangle_getOffSet g run = Inr (off, run')"
  shows "off < dyn_size run \<and> dyn_size run' = dyn_size run \<and> dyn_data run' = dyn_data run"
  using assms by (auto simp: mangle_getOffSet_def bindE_Inr_iff dest!: mangle_getLen_Inr)


lemma store_Inr_length: "store mem off bs = Inr d \<Longrightarrow> length d = length mem"
  by (auto simp: store_def split: if_splits)

lemma memmove_dyn_frame:
  "memmove_dyn run off src n = Inr run' \<Longrightarrow>
     dyn_size run' = dyn_size run \<and> length (dyn_data run') = length (dyn_data run)"
  by (auto simp: memmove_dyn_def bindE_Inr_iff dest: store_Inr_length)

lemma memset_dyn_frame:
  "memset_dyn run off c n = Inr run' \<Longrightarrow>
     dyn_size run' = dyn_size run \<and> length (dyn_data run') = length (dyn_data run)"
  by (auto simp: memset_dyn_def bindE_Inr_iff dest: store_Inr_length)

lemma dyn_set_frame:
  "dyn_set run off b = Inr run' \<Longrightarrow>
     dyn_size run' = dyn_size run \<and> length (dyn_data run') = length (dyn_data run)"
  by (auto simp: dyn_set_def split: if_splits)

lemma util_turnToPrintable_frame:
  "util_turnToPrintable run off n = Inr run' \<Longrightarrow>
     dyn_size run' = dyn_size run \<and> length (dyn_data run') = length (dyn_data run)"
  by (auto simp: util_turnToPrintable_def bindE_Inr_iff dest: store_Inr_length)

lemma mangle_Move_frame:
  "mangle_Move run off_from off_to len = Inr run' \<Longrightarrow>
     dyn_size run' = dyn_size run \<and> length (dyn_data run') = length (dyn_data run)"
  by (auto simp: mangle_Move_def Let_def split: if_splits dest: memmove_dyn_frame)

lemma mangle_Overwrite_frame:
  "mangle_Overwrite run off src len printable = Inr run' \<Longrightarrow>
     dyn_size run' = dyn_size run \<and> length (dyn_data run') = length (dyn_data run)"
  by (auto simp: mangle_Overwrite_def Let_def bindE_Inr_iff split: if_splits
      dest!: memmove_dyn_frame util_turnToPrintable_frame)

lemma mangle_Inflate_Inr:
  assumes "mangle_Inflate g run off len printable = Inr (n, run')"
  shows "length (dyn_data run') = length (dyn_data run) \<and> dyn_size run' = dyn_size run + n \<and>
         (n = 0 \<or> dyn_size run' \<le> mutate_maxInputSz g)"
  using assms
  by (auto simp: mangle_Inflate_def Let_def bindE_Inr_iff input_setSize_def split: if_splits
      dest!: mangle_Move_frame memset_dyn_frame)

lemma mangle_Insert_Inr:
  assumes "mangle_Insert g run off val len printable = Inr run'"
  shows "length (dyn_data run') = length (dyn_data run) \<and> dyn_size run \<le> dyn_size run' \<and>
         (dyn_size run' = dyn_size run \<or> dyn_size run' \<le> mutate_maxInputSz g)"
  using assms
  by (auto simp: mangle_Insert_def bindE_Inr_iff dest!: mangle_Inflate_Inr mangle_Overwrite_frame)

lemmas frame_dest =
  next_entropy_frame util_rnd64_frame util_rndGet_frame util_rndPrintable_frame
  util_rndBuf_frame util_rndBufPrintable_frame mangle_getOffSet_Inr mangle_getLen_Inr
  memmove_dyn_frame memset_dyn_frame dyn_set_frame util_turnToPrintable_frame
  mangle_Move_frame mangle_Overwrite_frame mangle_Inflate_Inr mangle_Insert_Inr
  store_Inr_length

lemma rnd_u16_buf_frame:
  "rnd_u16_buf run printable = Inr (buf, run') \<Longrightarrow>
     dyn_size run' = dyn_size run \<and> dyn_data run' = dyn_data run"
  by (auto simp: rnd_u16_buf_def Let_def split: if_splits prod.splits
      dest!: util_rndBufPrintable_frame util_rnd64_frame)

lemma addsub_val_frame:
  "addsub_val run off varLen delta = Inr (val, run') \<Longrightarrow>
     dyn_size run' = dyn_size run \<and> dyn_data run' = dyn_data run"
  by (auto simp: addsub_val_def bindE_Inr_iff Let_def util_rnd64_def next_entropy_def split: if_splits prod.splits
      dest!: util_rnd64_frame)

lemma mangle_AddSubWithRange_frame:
  "mangle_AddSubWithRange run off varLen range' printable = Inr run' \<Longrightarrow>
     dyn_size run' = dyn_size run \<and> length (dyn_data run') = length (dyn_data run)"
  by (auto simp: mangle_AddSubWithRange_def bindE_Inr_iff Let_def split: if_splits
      dest!: util_rndGet_frame addsub_val_frame mangle_Overwrite_frame dyn_set_frame)

lemma mangle_FeedbackDict_frame:
  "mangle_FeedbackDict g run = Inr (r, run') \<Longrightarrow>
     dyn_size run' = dyn_size run \<and> dyn_data run' = dyn_data run"
  by (auto simp: mangle_FeedbackDict_def bindE_Inr_iff Let_def split: if_splits
      dest!: util_rndGet_frame)

lemma input_getRandomInputAsBuf_frame:
  "input_getRandomInputAsBuf g run = (r, run') \<Longrightarrow>
     dyn_size run' = dyn_size run \<and> dyn_data run' = dyn_data run"
  by (auto simp: input_getRandomInputAsBuf_def Let_def split: prod.splits dest!: next_entropy_frame)

lemmas frame_dest2 = frame_dest rnd_u16_buf_frame addsub_val_frame mangle_AddSubWithRange_frame
  mangle_FeedbackDict_frame input_getRandomInputAsBuf_frame

lemma mangle_MemCopyOverwrite_grown:
  "mangle_MemCopyOverwrite g run printable = Inr run' \<Longrightarrow> grown g run run'"
  unfolding grown_def mangle_MemCopyOverwrite_def
  by (auto simp: bindE_Inr_iff Let_def util_rnd64_def next_entropy_def input_getRandomInputAsBuf_def split: if_splits prod.splits option.splits
      dest!: frame_dest2)

lemma mangle_MemCopyInsert_grown:
  "mangle_MemCopyInsert g run printable = Inr run' \<Longrightarrow> grown g run run'"
  unfolding grown_def mangle_MemCopyInsert_def
  by (auto simp: bindE_Inr_iff Let_def util_rnd64_def next_entropy_def input_getRandomInputAsBuf_def split: if_splits prod.splits option.splits
      dest!: frame_dest2)

lemma mangle_BytesOverwrite_grown:
  "mangle_BytesOverwrite g run printable = Inr run' \<Longrightarrow> grown g run run'"
  unfolding grown_def mangle_BytesOverwrite_def
  by (auto simp: bindE_Inr_iff Let_def util_rnd64_def next_entropy_def input_getRandomInputAsBuf_def split: if_splits prod.splits option.splits
      dest!: frame_dest2)

lemma mangle_BytesInsert_grown:
  "mangle_BytesInsert g run printable = Inr run' \<Longrightarrow> grown g run run'"
  unfolding grown_def mangle_BytesInsert_def
  by (auto simp: bindE_Inr_iff Let_def util_rnd64_def next_entropy_def input_getRandomInputAsBuf_def split: if_splits prod.splits option.splits
      dest!: frame_dest2)

lemma mangle_ByteRepeatOverwrite_grown:
  "mangle_ByteRepeatOverwrite g run printable = Inr run' \<Longrightarrow> grown g run run'"
  unfolding grown_def mangle_ByteRepeatOverwrite_def
  by (auto simp: bindE_Inr_iff Let_def util_rnd64_def next_entropy_def input_getRandomInputAsBuf_def split: if_splits prod.splits option.splits
      dest!: frame_dest2 mangle_BytesOverwrite_grown [unfolded grown_def])

lemma mangle_ByteRepeatInsert_grown:
  "mangle_ByteRepeatInsert g run printable = Inr run' \<Longrightarrow> grown g run run'"
  unfolding grown_def mangle_ByteRepeatInsert_def
  by (auto simp: bindE_Inr_iff Let_def util_rnd64_def next_entropy_def input_getRandomInputAsBuf_def split: if_splits prod.splits option.splits
      dest!: frame_dest2 mangle_BytesInsert_grown [unfolded grown_def])

lemma mangle_Bit_grown:
  "mangle_Bit g run printable = Inr run' \<Longrightarrow> grown g run run'"
  unfolding grown_def mangle_Bit_def
  by (auto simp: bindE_Inr_iff Let_def util_rnd64_def next_entropy_def input_getRandomInputAsBuf_def split: if_splits prod.splits option.splits
      dest!: frame_dest2)

lemma mangle_MagicOverwrite_grown:
  "mangle_MagicOverwrite g run printable = Inr run' \<Longrightarrow> grown g run run'"
  unfolding grown_def mangle_MagicOverwrite_def
  by (auto simp: bindE_Inr_iff Let_def util_rnd64_def next_entropy_def input_getRandomInputAsBuf_def split: if_splits prod.splits option.splits
      dest!: frame_dest2)

lemma mangle_MagicInsert_grown:
  "mangle_MagicInsert g run printable = Inr run' \<Longrightarrow> grown g run run'"
  unfolding grown_def mangle_MagicInsert_def
  by (auto simp: bindE_Inr_iff Let_def util_rnd64_def next_entropy_def input_getRandomInputAsBuf_def split: if_splits prod.splits option.splits
      dest!: frame_dest2)

lemma mangle_DictionaryOverwrite_grown:
  "mangle_DictionaryOverwrite g run printable = Inr run' \<Longrightarrow> grown g run run'"
  unfolding grown_def mangle_DictionaryOverwrite_def
  by (auto simp: bindE_Inr_iff Let_def util_rnd64_def next_entropy_def input_getRandomInputAsBuf_def split: if_splits prod.splits option.splits
      dest!: frame_dest2 mangle_BytesOverwrite_grown [unfolded grown_def])

lemma mangle_DictionaryInsert_grown:
  "mangle_DictionaryInsert g run printable = Inr run' \<Longrightarrow> grown g run run'"
  unfolding grown_def mangle_DictionaryInsert_def
  by (auto simp: bindE_Inr_iff Let_def util_rnd64_def next_entropy_def input_getRandomInputAsBuf_def split: if_splits prod.splits option.splits
      dest!: frame_dest2 mangle_BytesInsert_grown [unfolded grown_def])

lemma mangle_ConstFeedbackInsert_grown:
  "mangle_ConstFeedbackInsert g run printable = Inr run' \<Longrightarrow> grown g run run'"
  unfolding grown_def mangle_ConstFeedbackInsert_def
  by (auto simp: bindE_Inr_iff Let_def util_rnd64_def next_entropy_def input_getRandomInputAsBuf_def split: if_splits prod.splits option.splits
      dest!: frame_dest2 mangle_BytesInsert_grown [unfolded grown_def])

lemma mangle_ConstFeedbackOverwrite_grown:
  "mangle_ConstFeedbackOverwrite g run printable = Inr run' \<Longrightarrow> grown g run run'"
  unfolding grown_def mangle_ConstFeedbackOverwrite_def
  by (auto simp: bindE_Inr_iff Let_def util_rnd64_def next_entropy_def input_getRandomInputAsBuf_def split: if_splits prod.splits option.splits
      dest!: frame_dest2 mangle_BytesOverwrite_grown [unfolded grown_def])

lemma mangle_MemSet_grown:
  "mangle_MemSet g run printable = Inr run' \<Longrightarrow> grown g run run'"
  unfolding grown_def mangle_MemSet_def
  by (auto simp: bindE_Inr_iff Let_def util_rnd64_def next_entropy_def input_getRandomInputAsBuf_def split: if_splits prod.splits option.splits
      dest!: frame_dest2)

lemma mangle_RandomOverwrite_grown:
  "mangle_RandomOverwrite g run printable = Inr run' \<Longrightarrow> grown g run run'"
  unfolding grown_def mangle_RandomOverwrite_def
  by (auto simp: bindE_Inr_iff Let_def util_rnd64_def next_entropy_def input_getRandomInputAsBuf_def split: if_splits prod.splits option.splits
      dest!: frame_dest2)

lemma mangle_RandomInsert_grown:
  "mangle_RandomInsert g run printable = Inr run' \<Longrightarrow> grown g run run'"
  unfolding grown_def mangle_RandomInsert_def
  by (auto simp: bindE_Inr_iff Let_def util_rnd64_def next_entropy_def input_getRandomInputAsBuf_def split: if_splits prod.splits option.splits
      dest!: frame_dest2)

lemma mangle_AddSub_grown:
  "mangle_AddSub g run printable = Inr run' \<Longrightarrow> grown g run run'"
  unfolding grown_def mangle_AddSub_def
  by (auto simp: bindE_Inr_iff Let_def util_rnd64_def next_entropy_def input_getRandomInputAsBuf_def split: if_splits prod.splits option.splits
      dest!: frame_dest2)

lemma mangle_IncByte_grown:
  "mangle_IncByte g run printable = Inr run' \<Longrightarrow> grown g run run'"
  unfolding grown_def mangle_IncByte_def
  by (auto simp: bindE_Inr_iff Let_def util_rnd64_def next_entropy_def input_getRandomInputAsBuf_def split: if_splits prod.splits option.splits
      dest!: frame_dest2)

lemma mangle_DecByte_grown:
  "mangle_DecByte g run printable = Inr run' \<Longrightarrow> grown g run run'"
  unfolding grown_def mangle_DecByte_def
  by (auto simp: bindE_Inr_iff Let_def util_rnd64_def next_entropy_def input_getRandomInputAsBuf_def split: if_splits prod.splits option.splits
      dest!: frame_dest2)

lemma mangle_NegByte_grown:
  "mangle_NegByte g run printable = Inr run' \<Longrightarrow> grown g run run'"
  unfolding grown_def mangle_NegByte_def
  by (auto simp: bindE_Inr_iff Let_def util_rnd64_def next_entropy_def input_getRandomInputAsBuf_def split: if_splits prod.splits option.splits
      dest!: frame_dest2)

lemma mangle_Expand_grown:
  "mangle_Expand g run printable = Inr run' \<Longrightarrow> grown g run run'"
  unfolding grown_def mangle_Expand_def
  by (auto simp: bindE_Inr_iff Let_def util_rnd64_def next_entropy_def input_getRandomInputAsBuf_def split: if_splits prod.splits option.splits
      dest!: frame_dest2)

lemma mangle_ASCIINumOverwrite_grown:
  "mangle_ASCIINumOverwrite g run printable = Inr run' \<Longrightarrow> grown g run run'"
  unfolding grown_def mangle_ASCIINumOverwrite_def
  by (auto simp: bindE_Inr_iff Let_def util_rnd64_def next_entropy_def input_getRandomInputAsBuf_def split: if_splits prod.splits option.splits
      dest!: frame_dest2)

lemma mangle_ASCIINumInsert_grown:
  "mangle_ASCIINumInsert g run printable = Inr run' \<Longrightarrow> grown g run run'"
  unfolding grown_def mangle_ASCIINumInsert_def
  by (auto simp: bindE_Inr_iff Let_def util_rnd64_def next_entropy_def input_getRandomInputAsBuf_def split: if_splits prod.splits option.splits
      dest!: frame_dest2)

lemma mangle_SpliceOverwrite_grown:
  "mangle_SpliceOverwrite g run printable = Inr run' \<Longrightarrow> grown g run run'"
  unfolding grown_def mangle_SpliceOverwrite_def
  by (auto simp: bindE_Inr_iff Let_def util_rnd64_def next_entropy_def input_getRandomInputAsBuf_def split: if_splits prod.splits option.splits
      dest!: frame_dest2 mangle_BytesOverwrite_grown [unfolded grown_def])

lemma mangle_SpliceInsert_grown:
  "mangle_SpliceInsert g run printable = Inr run' \<Longrightarrow> grown g run run'"
  unfolding grown_def mangle_SpliceInsert_def
  by (auto simp: bindE_Inr_iff Let_def util_rnd64_def next_entropy_def input_getRandomInputAsBuf_def split: if_splits prod.splits option.splits
      dest!: frame_dest2 mangle_BytesInsert_grown [unfolded grown_def])

subsection \<open>Shrinking, resizing and the dispatcher\<close>

lemma size_safe_refl: "size_safe g run run"
  by (simp add: size_safe_def)

lemma size_safe_trans: "size_safe g r1 r2 \<Longrightarrow> size_safe g r2 r3 \<Longrightarrow> size_safe g r1 r3"
  by (auto simp: size_safe_def)

lemma grown_size_safe: "grown g run run' \<Longrightarrow> size_safe g run run'"
  by (auto simp: grown_def size_safe_def)

lemma mangle_LenLeft_Inr: "mangle_LenLeft run off = Inr len \<Longrightarrow> off < dyn_size run \<and> len = dyn_size run - off - 1"
  by (auto simp: mangle_LenLeft_def split: if_splits)

lemma mangle_Shrink_Inr:
  assumes "mangle_Shrink g run printable = Inr run'"
  shows "length (dyn_data run') = length (dyn_data run) \<and> dyn_size run' \<le> dyn_size run \<and>
     (dyn_size run \<le> 2 \<and> run' = run \<or>
      (\<exists>off_start run1. mangle_getOffSet g run = Inr (off_start, run1) \<and>
         dyn_size run - dyn_size run' \<le> dyn_size run - off_start - 1))"
proof (cases "dyn_size run \<le> 2")
  case True
  then show ?thesis using assms by (simp add: mangle_Shrink_def)
next
  case False
  from assms False obtain off_start run1 len where
    o: "mangle_getOffSet g run = Inr (off_start, run1)"
    and l: "mangle_LenLeft run1 off_start = Inr len"
    and t: "(if len = 0 then Inr run1
        else
          let (w, run2) = util_rnd64 run1 in
          bindE (if w mod 16 \<noteq> 0 then mangle_getLen g (HF_MIN 16 len) run2
                 else mangle_getLen g len run2) (\<lambda>(len1, run3).
          let off_end = off_start + len1;
              len_to_move = size_sub (dyn_size run3) off_end
          in bindE (mangle_Move run3 off_end off_start len_to_move) (\<lambda>run4.
             Inr (input_setSize run4 (size_sub (dyn_size run4) len1))))) = Inr run'"
    by (auto simp: mangle_Shrink_def bindE_Inr_iff)
  have f1: "off_start < dyn_size run" "dyn_size run1 = dyn_size run" "dyn_data run1 = dyn_data run"
    using mangle_getOffSet_Inr [OF o] by simp_all
  have len: "len = dyn_size run - off_start - 1" using mangle_LenLeft_Inr [OF l] f1 by simp
  show ?thesis
  proof (cases "len = 0")
    case True
    then have "run' = run1" using t by simp
    then show ?thesis using o f1 by auto
  next
    case False
    define run2 where "run2 = run1\<lparr>drawn := Suc (drawn run1)\<rparr>"
    define mx where "mx = (if entropy run1 (drawn run1) mod 16 \<noteq> 0 then HF_MIN 16 len else len)"
    from t False obtain len1 run3 where
      gl: "mangle_getLen g mx run2 = Inr (len1, run3)"
      and t2: "bindE (mangle_Move run3 (off_start + len1) off_start
                 (size_sub (dyn_size run3) (off_start + len1)))
               (\<lambda>run4. Inr (input_setSize run4 (size_sub (dyn_size run4) len1))) = Inr run'"
      by (auto simp: bindE_Inr_iff Let_def util_rnd64_def next_entropy_def run2_def mx_def
          split: if_splits)
    from t2 obtain run4 where
      mv: "mangle_Move run3 (off_start + len1) off_start
             (size_sub (dyn_size run3) (off_start + len1)) = Inr run4"
      and r: "run' = input_setSize run4 (size_sub (dyn_size run4) len1)"
      by (auto simp: bindE_Inr_iff)
    have mxle: "mx \<le> len" by (simp add: mx_def HF_MIN_def)
    have g3: "1 \<le> len1" "len1 \<le> mx" "dyn_size run3 = dyn_size run2"
      "dyn_data run3 = dyn_data run2"
      using mangle_getLen_Inr [OF gl] by simp_all
    have s2: "dyn_size run2 = dyn_size run" "dyn_data run2 = dyn_data run"
      using f1 by (simp_all add: run2_def)
    have g4: "dyn_size run4 = dyn_size run" "length (dyn_data run4) = length (dyn_data run)"
      using mangle_Move_frame [OF mv] g3 s2 by simp_all
    have le: "len1 \<le> dyn_size run - off_start - 1" using g3 mxle len by linarith
    then have le2: "len1 \<le> dyn_size run" by linarith
    have "size_sub (dyn_size run) len1 = dyn_size run - len1" using le2 by (simp add: size_sub_def)
    then have sz: "dyn_size run' = dyn_size run - len1" using r g4 by (simp add: input_setSize_def)
    have ln: "length (dyn_data run') = length (dyn_data run)"
      using r g4 by (simp add: input_setSize_def)
    have "dyn_size run - dyn_size run' \<le> dyn_size run - off_start - 1" using sz le le2 by linarith
    moreover have "dyn_size run' \<le> dyn_size run" using sz by linarith
    ultimately show ?thesis using ln o by blast
  qed
qed

lemma mangle_Shrink_size_safe:
  "mangle_Shrink g run printable = Inr run' \<Longrightarrow> size_safe g run run'"
proof -
  assume a: "mangle_Shrink g run printable = Inr run'"
  note s = mangle_Shrink_Inr [OF a]
  from s have "1 \<le> dyn_size run \<longrightarrow> 1 \<le> dyn_size run'"
    by (auto dest!: mangle_getOffSet_Inr)
  then show ?thesis using s by (simp add: size_safe_def)
qed

lemma util_rndGet_mutationsPerRun:
  "util_rndGet mn mx run = Inr (v, run') \<Longrightarrow> mutationsPerRun run' = mutationsPerRun run"
  by (drule util_rndGet_Inr) simp

lemma resize_choice_frame:
  "resize_choice g oldsz run = Inr (newsz0, run') \<Longrightarrow>
     dyn_size run' = dyn_size run \<and> dyn_data run' = dyn_data run"
  unfolding resize_choice_def
  by (auto simp: bindE_Inr_iff split: if_splits dest!: util_rndGet_frame)

lemma resize_choice_mutationsPerRun:
  "resize_choice g oldsz run = Inr (newsz0, run') \<Longrightarrow> mutationsPerRun run' = mutationsPerRun run"
  unfolding resize_choice_def
  by (auto simp: bindE_Inr_iff split: if_splits dest!: util_rndGet_mutationsPerRun)

lemma mangle_Resize_Inr:
  assumes "mangle_Resize g run printable = Inr run'"
  shows "length (dyn_data run') = length (dyn_data run) \<and> dyn_size run' \<le> mutate_maxInputSz g \<and>
         (1 \<le> mutate_maxInputSz g \<longrightarrow> 1 \<le> dyn_size run') \<and>
         mutationsPerRun run' = mutationsPerRun run"
proof -
  from assms obtain newsz0 run2 where
    c: "resize_choice g (int (dyn_size run)) run = Inr (newsz0, run2)"
    and t: "(let newsz1 = (if newsz0 < 1 then 1 else newsz0);
          newsz = (if newsz1 > int (mutate_maxInputSz g) then int (mutate_maxInputSz g) else newsz1);
          run3 = input_setSize run2 (nat newsz)
      in if newsz > int (dyn_size run) then
           if printable then memset_dyn run3 (nat (int (dyn_size run))) 32 (nat (newsz - int (dyn_size run)))
           else Inr run3
         else Inr run3) = Inr run'"
    by (auto simp: mangle_Resize_def bindE_Inr_iff Let_def)
  define newsz where "newsz = (if (if newsz0 < 1 then 1 else newsz0) > int (mutate_maxInputSz g)
             then int (mutate_maxInputSz g) else (if newsz0 < 1 then 1 else newsz0))"
  have b: "nat newsz \<le> mutate_maxInputSz g" "1 \<le> mutate_maxInputSz g \<longrightarrow> 1 \<le> nat newsz"
    by (auto simp: newsz_def)
  from t have "run' = input_setSize run2 (nat newsz) \<or>
     (\<exists>off c n. memset_dyn (input_setSize run2 (nat newsz)) off c n = Inr run')"
    unfolding Let_def newsz_def [symmetric] by (auto split: if_splits)
  then have "dyn_size run' = nat newsz \<and> length (dyn_data run') = length (dyn_data run2) \<and>
      mutationsPerRun run' = mutationsPerRun run2"
    by (auto simp: input_setSize_def memset_dyn_def bindE_Inr_iff dest!: store_Inr_length)
  then show ?thesis
    using b resize_choice_frame [OF c] resize_choice_mutationsPerRun [OF c] by simp
qed

lemma mangle_Resize_size_safe:
  "mangle_Resize g run printable = Inr run' \<Longrightarrow> size_safe g run run'"
  by (drule mangle_Resize_Inr) (auto simp: size_safe_def)

lemma mangleFuncs_size_safe:
  assumes "f \<in> set mangleFuncs" and "f g run printable = Inr run'"
  shows "size_safe g run run'"
proof -
  from assms(1) consider
    "f = mangle_Shrink" | "f = mangle_Expand" | "f = mangle_Bit" | "f = mangle_IncByte"
    | "f = mangle_DecByte" | "f = mangle_NegByte" | "f = mangle_AddSub" | "f = mangle_MemSet"
    | "f = mangle_MemCopyOverwrite" | "f = mangle_MemCopyInsert" | "f = mangle_BytesOverwrite"
    | "f = mangle_BytesInsert" | "f = mangle_ASCIINumOverwrite" | "f = mangle_ASCIINumInsert"
    | "f = mangle_ByteRepeatOverwrite" | "f = mangle_ByteRepeatInsert"
    | "f = mangle_MagicOverwrite" | "f = mangle_MagicInsert" | "f = mangle_DictionaryOverwrite"
    | "f = mangle_DictionaryInsert" | "f = mangle_ConstFeedbackOverwrite"
    | "f = mangle_ConstFeedbackInsert" | "f = mangle_RandomOverwrite" | "f = mangle_RandomInsert"
    | "f = mangle_SpliceOverwrite" | "f = mangle_SpliceInsert"
    unfolding mangleFuncs_def by auto
  then show ?thesis
  proof cases
    case 1 then show ?thesis using assms(2) by (simp add: mangle_Shrink_size_safe)
  next case 2 then show ?thesis using assms(2) by (simp add: grown_size_safe mangle_Expand_grown)
  next case 3 then show ?thesis using assms(2) by (simp add: grown_size_safe mangle_Bit_grown)
  next case 4 then show ?thesis using assms(2) by (simp add: grown_size_safe mangle_IncByte_grown)
  next case 5 then show ?thesis using assms(2) by (simp add: grown_size_safe mangle_DecByte_grown)
  next case 6 then show ?thesis using assms(2) by (simp add: grown_size_safe mangle_NegByte_grown)
  next case 7 then show ?thesis using assms(2) by (simp add: grown_size_safe mangle_AddSub_grown)
  next case 8 then show ?thesis using assms(2) by (simp add: grown_size_safe mangle_MemSet_grown)
  next case 9 then show ?thesis using assms(2) by (simp add: grown_size_safe mangle_MemCopyOverwrite_grown)
  next case 10 then show ?thesis using assms(2) by (simp add: grown_size_safe mangle_MemCopyInsert_grown)
  next case 11 then show ?thesis using assms(2) by (simp add: grown_size_safe mangle_BytesOverwrite_grown)
  next case 12 then show ?thesis using assms(2) by (simp add: grown_size_safe mangle_BytesInsert_grown)
  next case 13 then show ?thesis using assms(2) by (simp add: grown_size_safe mangle_ASCIINumOverwrite_grown)
  next case 14 then show ?thesis using assms(2) by (simp add: grown_size_safe mangle_ASCIINumInsert_grown)
  next case 15 then show ?thesis using assms(2) by (simp add: grown_size_safe mangle_ByteRepeatOverwrite_grown)
  next case 16 then show ?thesis using assms(2) by (simp add: grown_size_safe mangle_ByteRepeatInsert_grown)
  next case 17 then show ?thesis using assms(2) by (simp add: grown_size_safe mangle_MagicOverwrite_grown)
  next case 18 then show ?thesis using assms(2) by (simp add: grown_size_safe mangle_MagicInsert_grown)
  next case 19 then show ?thesis using assms(2) by (simp add: grown_size_safe mangle_DictionaryOverwrite_grown)
  next case 20 then show ?thesis using assms(2) by (simp add: grown_size_safe mangle_DictionaryInsert_grown)
  next case 21 then show ?thesis using assms(2) by (simp add: grown_size_safe mangle_ConstFeedbackOverwrite_grown)
  next case 22 then show ?thesis using assms(2) by (simp add: grown_size_safe mangle_ConstFeedbackInsert_grown)
  next case 23 then show ?thesis using assms(2) by (simp add: grown_size_safe mangle_RandomOverwrite_grown)
  next case 24 then show ?thesis using assms(2) by (simp add: grown_size_safe mangle_RandomInsert_grown)
  next case 25 then show ?thesis using assms(2) by (simp add: grown_size_safe mangle_SpliceOverwrite_grown)
  next case 26 then show ?thesis using assms(2) by (simp add: grown_size_safe mangle_SpliceInsert_grown)
  qed
qed

lemma array_get_Inr: "array_get xs i = Inr x \<Longrightarrow> i < length xs \<and> x = xs ! i"
  by (auto simp: array_get_def split: if_splits)

lemma mangle_round_size_safe:
  assumes "mangle_round g run = Inr run'"
  shows "size_safe g run run'"
proof -
  from assms obtain choice run1 f where
    c: "util_rndGet 0 (of_nat (length mangleFuncs - 1)) run = Inr (choice, run1)"
    and a: "array_get mangleFuncs (unat choice) = Inr f"
    and r: "f g run1 (cfg_only_printable g) = Inr run'"
    by (auto simp: mangle_round_def bindE_Inr_iff)
  have "f \<in> set mangleFuncs" using array_get_Inr [OF a] by simp
  then have "size_safe g run1 run'" using r by (rule mangleFuncs_size_safe)
  then show ?thesis using util_rndGet_frame [OF c] by (simp add: size_safe_def)
qed

lemma mangle_rounds_size_safe:
  "mangle_rounds g n run = Inr run' \<Longrightarrow> size_safe g run run'"
proof (induction n arbitrary: run)
  case 0
  then show ?case by (simp add: size_safe_refl)
next
  case (Suc n)
  then obtain run1 where a: "mangle_round g run = Inr run1" and b: "mangle_rounds g n run1 = Inr run'"
    by (auto simp: bindE_Inr_iff)
  show ?case using mangle_round_size_safe [OF a] Suc.IH [OF b] by (rule size_safe_trans)
qed

lemma mangle_changesCnt_frame:
  "mangle_changesCnt g run slow_factor = Inr (n, run') \<Longrightarrow>
     dyn_size run' = dyn_size run \<and> dyn_data run' = dyn_data run"
  unfolding mangle_changesCnt_def
  by (auto simp: bindE_Inr_iff split: if_splits dest!: util_rndGet_frame)

lemma mangle_staleSplice_size_safe:
  "mangle_staleSplice g run = Inr run' \<Longrightarrow> size_safe g run run'"
  unfolding mangle_staleSplice_def
  by (auto simp: Let_def util_rnd64_def next_entropy_def size_safe_def grown_def
      split: if_splits dest!: mangle_SpliceOverwrite_grown mangle_SpliceInsert_grown)

lemma mangle_mangleContent_Inr:
  assumes "mangle_mangleContent g run slow_factor = Inr run'"
  shows "mutationsPerRun run = 0 \<and> run' = run \<or>
     mutationsPerRun run \<noteq> 0 \<and>
     (\<exists>run1. (if dyn_size run = 0 then mangle_Resize g run (cfg_only_printable g) = Inr run1
              else run1 = run) \<and> size_safe g run1 run')"
proof (cases "mutationsPerRun run = 0")
  case True
  then show ?thesis using assms by (simp add: mangle_mangleContent_def)
next
  case False
  from assms False obtain run1 n run2 run3 where
    b: "(if dyn_size run = 0 then mangle_Resize g run (cfg_only_printable g) else Inr run) = Inr run1"
    and c: "mangle_changesCnt g run1 slow_factor = Inr (n, run2)"
    and s: "mangle_staleSplice g run2 = Inr run3"
    and l: "mangle_rounds g n run3 = Inr run'"
    by (auto simp: mangle_mangleContent_def bindE_Inr_iff)
  have "size_safe g run1 run2" using mangle_changesCnt_frame [OF c] by (simp add: size_safe_def)
  then have "size_safe g run1 run'"
    using mangle_staleSplice_size_safe [OF s] mangle_rounds_size_safe [OF l]
    by (blast intro: size_safe_trans)
  moreover have "if dyn_size run = 0 then mangle_Resize g run (cfg_only_printable g) = Inr run1
              else run1 = run" using b by (auto split: if_splits)
  ultimately show ?thesis using False by blast
qed

subsection \<open>Calls that are known to return\<close>

lemma util_rndPrintable_returns:
  "\<exists>b. util_rndPrintable run = Inr (b, run\<lparr>drawn := Suc (drawn run)\<rparr>)"
proof -
  have "\<exists>v. util_rndGet 32 126 run = Inr (v, run\<lparr>drawn := Suc (drawn run)\<rparr>)"
    by (rule util_rndGet_returns) simp_all
  then show ?thesis by (auto simp: util_rndPrintable_def bindE_def)
qed

lemma util_rndBufPrintable_returns:
  "\<exists>bs run'. util_rndBufPrintable n run = Inr (bs, run')"
proof (induction n arbitrary: run)
  case 0
  then show ?case by simp
next
  case (Suc n)
  obtain b where b: "util_rndPrintable run = Inr (b, run\<lparr>drawn := Suc (drawn run)\<rparr>)"
    using util_rndPrintable_returns by blast
  obtain bs run' where "util_rndBufPrintable n (run\<lparr>drawn := Suc (drawn run)\<rparr>) = Inr (bs, run')"
    using Suc.IH by blast
  then show ?case using b by (simp add: bindE_def)
qed

lemma rnd_u16_buf_returns:
  "\<exists>buf run'. rnd_u16_buf run printable = Inr (buf, run') \<and> length buf = 2 \<and>
     dyn_size run' = dyn_size run \<and> dyn_data run' = dyn_data run"
proof (cases printable)
  case True
  obtain bs run' where r: "util_rndBufPrintable 2 run = Inr (bs, run')"
    using util_rndBufPrintable_returns by blast
  then show ?thesis using True util_rndBufPrintable_frame [OF r] by (simp add: rnd_u16_buf_def)
next
  case False
  then show ?thesis
    by (simp add: rnd_u16_buf_def util_rnd64_def next_entropy_def bytes_of_u16_def)
qed

lemma sampler_ok_mono: "sampler_ok g n \<Longrightarrow> m \<le> n \<Longrightarrow> sampler_ok g m"
proof -
  assume a: "sampler_ok g n" and b: "m \<le> n"
  have "m ^ 3 \<le> n ^ 3" using b by (rule power_mono) simp
  moreover have "n ^ 3 < 2 ^ 64" "n \<le> HF_INPUT_MAX_SIZE g" using a by (simp_all add: sampler_ok_def)
  ultimately have "m ^ 3 < 2 ^ 64" "m \<le> HF_INPUT_MAX_SIZE g" using b by linarith+
  then show ?thesis by (simp add: sampler_ok_def)
qed

lemma mangle_getLen_ok:
  assumes "1 \<le> mx" and "sampler_ok g mx"
  shows "\<exists>v run'. mangle_getLen g mx run = Inr (v, run') \<and> 1 \<le> v \<and> v \<le> mx \<and>
           dyn_size run' = dyn_size run \<and> dyn_data run' = dyn_data run"
proof -
  obtain v run' where r: "mangle_getLen g mx run = Inr (v, run')"
    using mangle_getLen_returns [of mx g run] assms by (auto simp: sampler_ok_def)
  then show ?thesis using mangle_getLen_Inr [OF r] by simp
qed

lemma mangle_getOffSet_ok:
  assumes "1 \<le> dyn_size run" and "sampler_ok g (dyn_size run)"
  shows "\<exists>off run'. mangle_getOffSet g run = Inr (off, run') \<and> off < dyn_size run \<and>
           dyn_size run' = dyn_size run \<and> dyn_data run' = dyn_data run"
proof -
  obtain v run' where r: "mangle_getLen g (dyn_size run) run = Inr (v, run')"
    and v: "1 \<le> v" "v \<le> dyn_size run" "dyn_size run' = dyn_size run" "dyn_data run' = dyn_data run"
    using mangle_getLen_ok [OF assms] by blast
  have "mangle_getOffSet g run = Inr (v - 1, run')" using r by (simp add: mangle_getOffSet_def bindE_def)
  then show ?thesis using v by auto
qed

lemma util_rndGet_ok:
  assumes "mn \<le> mx" "mx - mn + 1 \<noteq> 0"
  shows "\<exists>v run'. util_rndGet mn mx run = Inr (v, run') \<and> mn \<le> v \<and> v \<le> mx \<and>
           dyn_size run' = dyn_size run \<and> dyn_data run' = dyn_data run"
proof -
  obtain v where r: "util_rndGet mn mx run = Inr (v, run\<lparr>drawn := Suc (drawn run)\<rparr>)"
    using util_rndGet_returns [OF assms] by blast
  then show ?thesis using util_rndGet_Inr [OF r] by simp
qed

lemma load_src_Buf: "n \<le> length bs \<Longrightarrow> load_src run (Buf bs) n = Inr (take n bs)"
  by (simp add: load_src_def load_def)

lemma mangle_Overwrite_Buf_ok:
  assumes "off \<le> dyn_size run" "dyn_size run \<le> length (dyn_data run)" "len \<le> length bs"
  shows "\<exists>run'. mangle_Overwrite run off (Buf bs) len printable = Inr run' \<and>
           dyn_size run' = dyn_size run \<and> length (dyn_data run') = length (dyn_data run)"
proof -
  have "min len (dyn_size run - off) \<le> length bs" using assms(3) by simp
  then have l: "load_src run (Buf bs) (min len (dyn_size run - off))
                = Inr (take (min len (dyn_size run - off)) bs)"
    by (rule load_src_Buf)
  show ?thesis using mangle_Overwrite_facts [OF assms(1,2) l, of printable] by auto
qed

lemma mangle_Inflate_ok:
  assumes "off < dyn_size run" "dyn_size run \<le> mutate_maxInputSz g"
    "mutate_maxInputSz g \<le> length (dyn_data run)"
  shows "\<exists>run'. mangle_Inflate g run off len printable
                  = Inr (min len (mutate_maxInputSz g - dyn_size run), run') \<and>
           dyn_size run' = dyn_size run + min len (mutate_maxInputSz g - dyn_size run) \<and>
           length (dyn_data run') = length (dyn_data run)"
  using mangle_Inflate_facts [OF assms, of len printable]
  by (elim exE conjE) (intro exI conjI, assumption+)

lemma mangle_Insert_Buf_ok:
  assumes "off < dyn_size run" "dyn_size run \<le> mutate_maxInputSz g"
    "mutate_maxInputSz g \<le> length (dyn_data run)" "len \<le> length bs"
  shows "\<exists>run'. mangle_Insert g run off (Buf bs) len printable = Inr run' \<and>
           dyn_size run' = dyn_size run + min len (mutate_maxInputSz g - dyn_size run) \<and>
           length (dyn_data run') = length (dyn_data run)"
proof -
  define a where "a = min len (mutate_maxInputSz g - dyn_size run)"
  obtain run1 where i: "mangle_Inflate g run off len printable = Inr (a, run1)"
    and s1: "dyn_size run1 = dyn_size run + a" "length (dyn_data run1) = length (dyn_data run)"
    using mangle_Inflate_ok [OF assms(1-3), of len printable] unfolding a_def by blast
  have "a \<le> mutate_maxInputSz g - dyn_size run" by (simp add: a_def)
  then have c: "dyn_size run1 \<le> length (dyn_data run1)" using s1 assms(2,3) by linarith
  have o: "off \<le> dyn_size run1" using s1 assms(1) by linarith
  have "a \<le> length bs" using assms(4) by (simp add: a_def)
  then obtain run' where "mangle_Overwrite run1 off (Buf bs) a printable = Inr run'"
    "dyn_size run' = dyn_size run1" "length (dyn_data run') = length (dyn_data run1)"
    using mangle_Overwrite_Buf_ok [OF o c, of a bs printable] by blast
  then show ?thesis using i s1 unfolding a_def [symmetric]
    by (simp add: mangle_Insert_def bindE_def)
qed

lemma buf_inv_sampler: "buf_inv g run \<Longrightarrow> sampler_ok g (dyn_size run)"
  by (auto simp: buf_inv_def intro: sampler_ok_mono)

lemma u64_one_or_two:
  fixes v :: u64 assumes "1 \<le> v" "v \<le> 2" shows "unat v = 1 \<or> unat v = 2"
proof -
  have "1 \<le> unat v" "unat v \<le> 2" using assms by (simp_all add: word_le_nat_alt)
  then show ?thesis by linarith
qed

lemma mangle_BytesOverwrite_ok:
  assumes "1 \<le> dyn_size run" and "sampler_ok g (dyn_size run)"
    and "dyn_size run \<le> length (dyn_data run)"
  shows "\<exists>run'. mangle_BytesOverwrite g run printable = Inr run' \<and>
           dyn_size run' = dyn_size run \<and> length (dyn_data run') = length (dyn_data run)"
proof -
  obtain off run1 where o: "mangle_getOffSet g run = Inr (off, run1)" "off < dyn_size run"
    "dyn_size run1 = dyn_size run" "dyn_data run1 = dyn_data run"
    using mangle_getOffSet_ok [OF assms(1,2)] by blast
  obtain buf run2 where b: "rnd_u16_buf run1 printable = Inr (buf, run2)" "length buf = 2"
    "dyn_size run2 = dyn_size run1" "dyn_data run2 = dyn_data run1"
    using rnd_u16_buf_returns by blast
  obtain v run3 where c: "util_rndGet 1 2 run2 = Inr (v, run3)" "1 \<le> v" "v \<le> 2"
    "dyn_size run3 = dyn_size run2" "dyn_data run3 = dyn_data run2"
    using util_rndGet_ok [of 1 2 run2] by auto
  have k: "unat v \<le> length buf" using u64_one_or_two [OF c(2,3)] b(2) by auto
  have "off \<le> dyn_size run3" "dyn_size run3 \<le> length (dyn_data run3)"
    using o b c assms(3) by auto
  then obtain run' where "mangle_Overwrite run3 off (Buf buf) (unat v) printable = Inr run'"
    "dyn_size run' = dyn_size run3" "length (dyn_data run') = length (dyn_data run3)"
    using mangle_Overwrite_Buf_ok [of off run3 "unat v" buf printable] k by blast
  then show ?thesis using o b c by (simp add: mangle_BytesOverwrite_def bindE_def)
qed

lemma mangle_BytesInsert_ok:
  assumes "1 \<le> dyn_size run" and "sampler_ok g (dyn_size run)"
    and "dyn_size run \<le> mutate_maxInputSz g"
    and "mutate_maxInputSz g \<le> length (dyn_data run)"
  shows "\<exists>run' k. mangle_BytesInsert g run printable = Inr run' \<and> (k = 1 \<or> k = 2) \<and>
           dyn_size run' = dyn_size run + min k (mutate_maxInputSz g - dyn_size run) \<and>
           length (dyn_data run') = length (dyn_data run)"
proof -
  obtain buf run1 where b: "rnd_u16_buf run printable = Inr (buf, run1)" "length buf = 2"
    "dyn_size run1 = dyn_size run" "dyn_data run1 = dyn_data run"
    using rnd_u16_buf_returns by blast
  have "1 \<le> dyn_size run1" "sampler_ok g (dyn_size run1)"
    using assms(1,2) b by auto
  then obtain off run2 where o: "mangle_getOffSet g run1 = Inr (off, run2)" "off < dyn_size run1"
    "dyn_size run2 = dyn_size run1" "dyn_data run2 = dyn_data run1"
    using mangle_getOffSet_ok [of run1 g] by blast
  obtain v run3 where c: "util_rndGet 1 2 run2 = Inr (v, run3)" "1 \<le> v" "v \<le> 2"
    "dyn_size run3 = dyn_size run2" "dyn_data run3 = dyn_data run2"
    using util_rndGet_ok [of 1 2 run2] by auto
  note k = u64_one_or_two [OF c(2,3)]
  then have kl: "unat v \<le> length buf" using b(2) by auto
  have "off < dyn_size run3" "dyn_size run3 \<le> mutate_maxInputSz g"
    "mutate_maxInputSz g \<le> length (dyn_data run3)"
    using o b c assms(3,4) by auto
  then obtain run' where "mangle_Insert g run3 off (Buf buf) (unat v) printable = Inr run'"
    "dyn_size run' = dyn_size run3 + min (unat v) (mutate_maxInputSz g - dyn_size run3)"
    "length (dyn_data run') = length (dyn_data run3)"
    using mangle_Insert_Buf_ok [of off run3 g "unat v" buf printable] kl by blast
  then show ?thesis using o b c k by (auto simp: mangle_BytesInsert_def bindE_def)
qed
subsection \<open>No operator aborts on a well-formed state\<close>

lemma bindE_Inl_iff:
  "bindE m f = Inl e \<longleftrightarrow> m = Inl e \<or> (\<exists>x. m = Inr x \<and> f x = Inl e)"
  by (cases m) (simp_all add: bindE_def)

lemma no_abort_getLen:
  assumes "sampler_ok g mx" "1 \<le> mx"
  shows "mangle_getLen g mx run \<noteq> Inl e"
  using mangle_getLen_ok [of mx g run] assms by auto

lemma no_abort_getLen_le:
  assumes "buf_inv g run0" "1 \<le> mx" "mx \<le> mutate_maxInputSz g"
  shows "mangle_getLen g mx run \<noteq> Inl e"
proof -
  have "sampler_ok g mx" using assms by (auto simp: buf_inv_def intro: sampler_ok_mono)
  then show ?thesis using assms(2) by (rule no_abort_getLen)
qed

lemma no_abort_getOffSet:
  assumes "buf_inv g run0" "1 \<le> dyn_size run" "dyn_size run \<le> mutate_maxInputSz g"
  shows "mangle_getOffSet g run \<noteq> Inl e"
  using no_abort_getLen_le [OF assms(1), of "dyn_size run" run] assms(2,3)
  by (auto simp: mangle_getOffSet_def bindE_Inl_iff)

lemma no_abort_rndGet:
  assumes "mn \<le> mx" "mx - mn + 1 \<noteq> 0"
  shows "util_rndGet mn mx run \<noteq> Inl e"
  using util_rndGet_returns [OF assms, of run] by auto

lemma no_abort_rndPrintable: "util_rndPrintable run \<noteq> Inl e"
  using util_rndPrintable_returns [of run] by auto

lemma no_abort_rndBufPrintable: "util_rndBufPrintable n run \<noteq> Inl e"
  using util_rndBufPrintable_returns [of n run] by auto

lemma no_abort_rnd_u16_buf: "rnd_u16_buf run printable \<noteq> Inl e"
  using rnd_u16_buf_returns [of run printable] by auto

lemma rnd_u16_buf_length: "rnd_u16_buf run printable = Inr (buf, run') \<Longrightarrow> length buf = 2"
  using rnd_u16_buf_returns [of run printable] by auto

lemma no_abort_dyn_get: "off < length (dyn_data run) \<Longrightarrow> dyn_get run off \<noteq> Inl e"
  by (simp add: dyn_get_def)

lemma no_abort_dyn_set: "off < length (dyn_data run) \<Longrightarrow> dyn_set run off b \<noteq> Inl e"
  by (simp add: dyn_set_def)

lemma no_abort_store: "off + length bs \<le> length mem \<Longrightarrow> store mem off bs \<noteq> Inl e"
  by (simp add: store_def)

lemma no_abort_turnToPrintable:
  "off + n \<le> length (dyn_data run) \<Longrightarrow> util_turnToPrintable run off n \<noteq> Inl e"
  by (auto simp: util_turnToPrintable_def load_def store_def bindE_def)

lemma no_abort_memset_dyn:
  "off + n \<le> length (dyn_data run) \<Longrightarrow> memset_dyn run off c n \<noteq> Inl e"
  by (auto simp: memset_dyn_def store_def bindE_def)

lemma no_abort_array_get: "i < length xs \<Longrightarrow> array_get xs i \<noteq> Inl e"
  by (simp add: array_get_def)

lemma array_get_mem: "array_get xs i = Inr x \<Longrightarrow> x \<in> set xs"
  by (auto simp: array_get_def split: if_splits)

lemma no_abort_Move:
  "dyn_size run \<le> length (dyn_data run) \<Longrightarrow> mangle_Move run off_from off_to len \<noteq> Inl e"
  by (simp add: mangle_Move_eq)

lemma no_abort_Overwrite_Buf:
  assumes "off \<le> dyn_size run" "dyn_size run \<le> length (dyn_data run)" "len \<le> length bs"
  shows "mangle_Overwrite run off (Buf bs) len printable \<noteq> Inl e"
  using mangle_Overwrite_Buf_ok [OF assms, of printable] by auto

lemma no_abort_Overwrite_Dyn:
  assumes "off \<le> dyn_size run" "dyn_size run \<le> length (dyn_data run)"
    "k + len \<le> length (dyn_data run)"
  shows "mangle_Overwrite run off (Dyn k) len printable \<noteq> Inl e"
proof -
  have "k + min len (dyn_size run - off) \<le> length (dyn_data run)" using assms(3) by simp
  then have l: "load_src run (Dyn k) (min len (dyn_size run - off))
      = Inr (take (min len (dyn_size run - off)) (drop k (dyn_data run)))"
    by (simp add: load_src_def load_in_range)
  show ?thesis using mangle_Overwrite_facts [OF assms(1,2) l, of printable] by auto
qed

lemma no_abort_Inflate:
  assumes "off < dyn_size run" "dyn_size run \<le> mutate_maxInputSz g"
    "mutate_maxInputSz g \<le> length (dyn_data run)"
  shows "mangle_Inflate g run off len printable \<noteq> Inl e"
  using mangle_Inflate_ok [OF assms, of len printable] by auto

lemma inflate_room:
  assumes "mangle_Inflate g run off len printable = Inr (n, run')"
    "dyn_size run \<le> mutate_maxInputSz g" "mutate_maxInputSz g \<le> length (dyn_data run)"
  shows "dyn_size run' = dyn_size run + n \<and> dyn_size run' \<le> mutate_maxInputSz g \<and>
         length (dyn_data run') = length (dyn_data run) \<and> n \<le> len"
  using assms
  by (auto simp: mangle_Inflate_def Let_def bindE_Inr_iff input_setSize_def split: if_splits
      dest!: mangle_Move_frame memset_dyn_frame)

lemma no_abort_Insert_Buf:
  assumes "off < dyn_size run" "dyn_size run \<le> mutate_maxInputSz g"
    "mutate_maxInputSz g \<le> length (dyn_data run)" "len \<le> length bs"
  shows "mangle_Insert g run off (Buf bs) len printable \<noteq> Inl e"
  using mangle_Insert_Buf_ok [OF assms, of printable] by auto

lemma no_abort_Insert_Dyn:
  assumes "off < dyn_size run" "dyn_size run \<le> mutate_maxInputSz g"
    "mutate_maxInputSz g \<le> length (dyn_data run)" "k + len \<le> dyn_size run"
  shows "mangle_Insert g run off (Dyn k) len printable \<noteq> Inl e"
proof
  assume a: "mangle_Insert g run off (Dyn k) len printable = Inl e"
  have "mangle_Inflate g run off len printable \<noteq> Inl e" by (rule no_abort_Inflate [OF assms(1-3)])
  with a obtain n run1 where i: "mangle_Inflate g run off len printable = Inr (n, run1)"
    and o: "mangle_Overwrite run1 off (Dyn k) n printable = Inl e"
    by (auto simp: mangle_Insert_def bindE_Inl_iff)
  note r = inflate_room [OF i assms(2,3)]
  have "off \<le> dyn_size run1" "dyn_size run1 \<le> length (dyn_data run1)"
    "k + n \<le> length (dyn_data run1)" using r assms by simp_all
  then show False using o no_abort_Overwrite_Dyn by blast
qed

lemma no_abort_addsub_val:
  "off + varLen \<le> length (dyn_data run) \<Longrightarrow> addsub_val run off varLen delta \<noteq> Inl e"
  by (auto simp: addsub_val_def bindE_Inl_iff load_def Let_def util_rnd64_def next_entropy_def)

lemma addsub_val_length:
  "addsub_val run off varLen delta = Inr (val, run') \<Longrightarrow> length val = varLen"
proof -
  have "length (le_bytes n w) = n" for n w by (induction n arbitrary: w) simp_all
  then show "addsub_val run off varLen delta = Inr (val, run') \<Longrightarrow> length val = varLen"
    by (auto simp: addsub_val_def bindE_Inr_iff Let_def util_rnd64_def next_entropy_def
        split: if_splits)
qed

lemma magic_lengths: "list_all (\<lambda>(val, len). len \<le> length val) mangleMagicVals"
  by (simp add: mangleMagicVals_def)

lemma magic_count: "length mangleMagicVals = 221"
  by (simp add: mangleMagicVals_def)

lemma snprintf_ld19_length: "length (snprintf_ld19 w) = 20"
  by (simp add: snprintf_ld19_def Let_def)

lemma u64_le_unat: "(v::u64) \<le> of_nat n \<Longrightarrow> n < 2 ^ 64 \<Longrightarrow> unat v \<le> n"
  by (simp add: word_le_nat_alt unat_of_nat)

lemma util_rndGet_full:
  "util_rndGet mn mx run = Inr (v, run') \<Longrightarrow>
     unat mn \<le> unat v \<and> unat v \<le> unat mx \<and> dyn_size run' = dyn_size run \<and> dyn_data run' = dyn_data run"
  by (drule util_rndGet_Inr) (simp add: word_le_nat_alt)

lemma rnd_u16_buf_full:
  "rnd_u16_buf run printable = Inr (buf, run') \<Longrightarrow>
     length buf = 2 \<and> dyn_size run' = dyn_size run \<and> dyn_data run' = dyn_data run"
  using rnd_u16_buf_returns [of run printable] by auto

lemma mangle_Inflate_full:
  assumes "mangle_Inflate g run off len printable = Inr (n, run')"
  shows "length (dyn_data run') = length (dyn_data run) \<and> dyn_size run' = dyn_size run + n \<and>
         (n = 0 \<or> dyn_size run' \<le> mutate_maxInputSz g) \<and> n \<le> len"
  using assms
  by (auto simp: mangle_Inflate_def Let_def bindE_Inr_iff input_setSize_def split: if_splits
      dest!: mangle_Move_frame memset_dyn_frame)

lemma array_get_full: "array_get xs i = Inr x \<Longrightarrow> x \<in> set xs \<and> i < length xs"
  by (auto simp: array_get_def split: if_splits)

lemmas total_dest =
  mangle_getOffSet_Inr mangle_getLen_Inr util_rndGet_full dyn_set_frame rnd_u16_buf_full
  util_rndBufPrintable_frame util_rndBuf_frame util_rndPrintable_frame mangle_Inflate_full
  array_get_full addsub_val_frame mangle_FeedbackDict_frame

lemmas no_abort =
  no_abort_rndGet no_abort_rndPrintable no_abort_rndBufPrintable no_abort_rnd_u16_buf
  no_abort_dyn_get no_abort_dyn_set no_abort_store no_abort_turnToPrintable no_abort_memset_dyn
  no_abort_array_get no_abort_Move no_abort_Overwrite_Buf no_abort_Overwrite_Dyn
  no_abort_Inflate no_abort_Insert_Buf no_abort_Insert_Dyn no_abort_addsub_val

lemma no_abort_MemCopyOverwrite:
  assumes "buf_inv g run" "wf_cfg g"
  shows "mangle_MemCopyOverwrite g run printable \<noteq> Inl e"
  using assms unfolding mangle_MemCopyOverwrite_def
  by (auto simp: bindE_Inl_iff bindE_Inr_iff buf_inv_def no_abort
        no_abort_getOffSet [OF assms(1)] no_abort_getLen_le [OF assms(1)]
        HF_MIN_def HF_MAX_LEN_BLOCK_def size_sub_def Let_def util_rnd64_def next_entropy_def
        snprintf_ld19_length list_all_iff
      dest!: total_dest
      split: if_splits prod.splits)

lemma no_abort_MemCopyInsert:
  assumes "buf_inv g run" "wf_cfg g"
  shows "mangle_MemCopyInsert g run printable \<noteq> Inl e"
  using assms unfolding mangle_MemCopyInsert_def
  by (auto simp: bindE_Inl_iff bindE_Inr_iff buf_inv_def no_abort
        no_abort_getOffSet [OF assms(1)] no_abort_getLen_le [OF assms(1)]
        HF_MIN_def HF_MAX_LEN_BLOCK_def size_sub_def Let_def util_rnd64_def next_entropy_def
        snprintf_ld19_length list_all_iff
      dest!: total_dest
      split: if_splits prod.splits)

lemma no_abort_BytesOverwrite:
  assumes "buf_inv g run" "wf_cfg g"
  shows "mangle_BytesOverwrite g run printable \<noteq> Inl e"
  using assms unfolding mangle_BytesOverwrite_def
  by (auto simp: bindE_Inl_iff bindE_Inr_iff buf_inv_def no_abort
        no_abort_getOffSet [OF assms(1)] no_abort_getLen_le [OF assms(1)]
        HF_MIN_def HF_MAX_LEN_BLOCK_def size_sub_def Let_def util_rnd64_def next_entropy_def
        snprintf_ld19_length list_all_iff
      dest!: total_dest
      split: if_splits prod.splits)

lemma no_abort_BytesInsert:
  assumes "buf_inv g run" "wf_cfg g"
  shows "mangle_BytesInsert g run printable \<noteq> Inl e"
  using assms unfolding mangle_BytesInsert_def
  by (auto simp: bindE_Inl_iff bindE_Inr_iff buf_inv_def no_abort
        no_abort_getOffSet [OF assms(1)] no_abort_getLen_le [OF assms(1)]
        HF_MIN_def HF_MAX_LEN_BLOCK_def size_sub_def Let_def util_rnd64_def next_entropy_def
        snprintf_ld19_length list_all_iff
      dest!: total_dest
      split: if_splits prod.splits)

lemma no_abort_Bit:
  assumes "buf_inv g run" "wf_cfg g"
  shows "mangle_Bit g run printable \<noteq> Inl e"
  using assms unfolding mangle_Bit_def
  by (auto simp: bindE_Inl_iff bindE_Inr_iff buf_inv_def no_abort
        no_abort_getOffSet [OF assms(1)] no_abort_getLen_le [OF assms(1)]
        HF_MIN_def HF_MAX_LEN_BLOCK_def size_sub_def Let_def util_rnd64_def next_entropy_def
        snprintf_ld19_length list_all_iff
      dest!: total_dest
      split: if_splits prod.splits)

lemma no_abort_MemSet:
  assumes "buf_inv g run" "wf_cfg g"
  shows "mangle_MemSet g run printable \<noteq> Inl e"
  using assms unfolding mangle_MemSet_def
  by (auto simp: bindE_Inl_iff bindE_Inr_iff buf_inv_def no_abort
        no_abort_getOffSet [OF assms(1)] no_abort_getLen_le [OF assms(1)]
        HF_MIN_def HF_MAX_LEN_BLOCK_def size_sub_def Let_def util_rnd64_def next_entropy_def
        snprintf_ld19_length list_all_iff
      dest!: total_dest
      split: if_splits prod.splits)

lemma no_abort_RandomOverwrite:
  assumes "buf_inv g run" "wf_cfg g"
  shows "mangle_RandomOverwrite g run printable \<noteq> Inl e"
  using assms unfolding mangle_RandomOverwrite_def
  by (auto simp: bindE_Inl_iff bindE_Inr_iff buf_inv_def no_abort
        no_abort_getOffSet [OF assms(1)] no_abort_getLen_le [OF assms(1)]
        HF_MIN_def HF_MAX_LEN_BLOCK_def size_sub_def Let_def util_rnd64_def next_entropy_def
        snprintf_ld19_length list_all_iff
      dest!: total_dest
      split: if_splits prod.splits)

lemma no_abort_RandomInsert:
  assumes "buf_inv g run" "wf_cfg g"
  shows "mangle_RandomInsert g run printable \<noteq> Inl e"
  using assms unfolding mangle_RandomInsert_def
  by (auto simp: bindE_Inl_iff bindE_Inr_iff buf_inv_def no_abort
        no_abort_getOffSet [OF assms(1)] no_abort_getLen_le [OF assms(1)]
        HF_MIN_def HF_MAX_LEN_BLOCK_def size_sub_def Let_def util_rnd64_def next_entropy_def
        snprintf_ld19_length list_all_iff
      dest!: total_dest
      split: if_splits prod.splits)

lemma no_abort_IncByte:
  assumes "buf_inv g run" "wf_cfg g"
  shows "mangle_IncByte g run printable \<noteq> Inl e"
  using assms unfolding mangle_IncByte_def
  by (auto simp: bindE_Inl_iff bindE_Inr_iff buf_inv_def no_abort
        no_abort_getOffSet [OF assms(1)] no_abort_getLen_le [OF assms(1)]
        HF_MIN_def HF_MAX_LEN_BLOCK_def size_sub_def Let_def util_rnd64_def next_entropy_def
        snprintf_ld19_length list_all_iff
      dest!: total_dest
      split: if_splits prod.splits)

lemma no_abort_DecByte:
  assumes "buf_inv g run" "wf_cfg g"
  shows "mangle_DecByte g run printable \<noteq> Inl e"
  using assms unfolding mangle_DecByte_def
  by (auto simp: bindE_Inl_iff bindE_Inr_iff buf_inv_def no_abort
        no_abort_getOffSet [OF assms(1)] no_abort_getLen_le [OF assms(1)]
        HF_MIN_def HF_MAX_LEN_BLOCK_def size_sub_def Let_def util_rnd64_def next_entropy_def
        snprintf_ld19_length list_all_iff
      dest!: total_dest
      split: if_splits prod.splits)

lemma no_abort_NegByte:
  assumes "buf_inv g run" "wf_cfg g"
  shows "mangle_NegByte g run printable \<noteq> Inl e"
  using assms unfolding mangle_NegByte_def
  by (auto simp: bindE_Inl_iff bindE_Inr_iff buf_inv_def no_abort
        no_abort_getOffSet [OF assms(1)] no_abort_getLen_le [OF assms(1)]
        HF_MIN_def HF_MAX_LEN_BLOCK_def size_sub_def Let_def util_rnd64_def next_entropy_def
        snprintf_ld19_length list_all_iff
      dest!: total_dest
      split: if_splits prod.splits)

lemma no_abort_Expand:
  assumes "buf_inv g run" "wf_cfg g"
  shows "mangle_Expand g run printable \<noteq> Inl e"
  using assms unfolding mangle_Expand_def
  by (auto simp: bindE_Inl_iff bindE_Inr_iff buf_inv_def no_abort
        no_abort_getOffSet [OF assms(1)] no_abort_getLen_le [OF assms(1)]
        HF_MIN_def HF_MAX_LEN_BLOCK_def size_sub_def Let_def util_rnd64_def next_entropy_def
        snprintf_ld19_length list_all_iff
      dest!: total_dest
      split: if_splits prod.splits)

lemma no_abort_ASCIINumOverwrite:
  assumes "buf_inv g run" "wf_cfg g"
  shows "mangle_ASCIINumOverwrite g run printable \<noteq> Inl e"
  using assms unfolding mangle_ASCIINumOverwrite_def
  by (auto simp: bindE_Inl_iff bindE_Inr_iff buf_inv_def no_abort
        no_abort_getOffSet [OF assms(1)] no_abort_getLen_le [OF assms(1)]
        HF_MIN_def HF_MAX_LEN_BLOCK_def size_sub_def Let_def util_rnd64_def next_entropy_def
        snprintf_ld19_length list_all_iff
      dest!: total_dest
      split: if_splits prod.splits)

lemma no_abort_ASCIINumInsert:
  assumes "buf_inv g run" "wf_cfg g"
  shows "mangle_ASCIINumInsert g run printable \<noteq> Inl e"
  using assms unfolding mangle_ASCIINumInsert_def
  by (auto simp: bindE_Inl_iff bindE_Inr_iff buf_inv_def no_abort
        no_abort_getOffSet [OF assms(1)] no_abort_getLen_le [OF assms(1)]
        HF_MIN_def HF_MAX_LEN_BLOCK_def size_sub_def Let_def util_rnd64_def next_entropy_def
        snprintf_ld19_length list_all_iff
      dest!: total_dest
      split: if_splits prod.splits)

lemma buf_inv_same:
  "buf_inv g run \<Longrightarrow> dyn_size b = dyn_size run \<Longrightarrow> length (dyn_data b) = length (dyn_data run)
     \<Longrightarrow> buf_inv g b"
  by (simp add: buf_inv_def)

lemma rndGet_index:
  assumes "0 < n" "n < 2 ^ 64"
  shows "util_rndGet 0 (of_nat (n - 1)) run \<noteq> Inl e"
    and "util_rndGet 0 (of_nat (n - 1)) run = Inr (v, run') \<Longrightarrow>
           unat v < n \<and> dyn_size run' = dyn_size run \<and> dyn_data run' = dyn_data run"
proof -
  have "unat (of_nat (n - 1) :: u64) = (n - 1) mod 2 ^ LENGTH(64)" by (rule unat_of_nat)
  also have "\<dots> = n - 1" using assms by simp
  finally have u: "unat (of_nat (n - 1) :: u64) = n - 1" .
  have un: "unat (of_nat n :: u64) = n" using assms by (simp add: unat_of_nat)
  have "(of_nat (n - 1) :: u64) - 0 + 1 = of_nat n" using assms(1) by simp
  moreover have "(of_nat n :: u64) \<noteq> 0"
  proof
    assume "(of_nat n :: u64) = 0"
    then have "unat (of_nat n :: u64) = 0" by simp
    then show False using un assms(1) by simp
  qed
  ultimately have nz: "(of_nat (n - 1) :: u64) - 0 + 1 \<noteq> 0" by simp
  show "util_rndGet 0 (of_nat (n - 1)) run \<noteq> Inl e"
    by (rule no_abort_rndGet [OF _ nz]) simp
  assume "util_rndGet 0 (of_nat (n - 1)) run = Inr (v, run')"
  from util_rndGet_full [OF this]
  have "unat v \<le> unat (of_nat (n - 1) :: u64)" "dyn_size run' = dyn_size run"
    "dyn_data run' = dyn_data run" by blast+
  moreover from this(1) have "unat v < n" unfolding u using assms(1) by linarith
  ultimately show "unat v < n \<and> dyn_size run' = dyn_size run \<and> dyn_data run' = dyn_data run"
    by blast
qed

lemma magic_entry: "(val, sz) \<in> set mangleMagicVals \<Longrightarrow> sz \<le> length val"
  using magic_lengths by (auto simp: list_all_iff)


lemma no_abort_MagicOverwrite:
  assumes "buf_inv g run" "wf_cfg g"
  shows "mangle_MagicOverwrite g run printable \<noteq> Inl e"
  using assms unfolding mangle_MagicOverwrite_def
  by (auto simp: bindE_Inl_iff bindE_Inr_iff buf_inv_def no_abort
          no_abort_getOffSet [OF assms(1)] no_abort_getLen_le [OF assms(1)]
          HF_MIN_def HF_MAX_LEN_BLOCK_def size_sub_def Let_def util_rnd64_def next_entropy_def
          snprintf_ld19_length list_all_iff magic_count
        dest!: total_dest magic_entry
        split: if_splits prod.splits)

lemma no_abort_MagicInsert:
  assumes "buf_inv g run" "wf_cfg g"
  shows "mangle_MagicInsert g run printable \<noteq> Inl e"
  using assms unfolding mangle_MagicInsert_def
  by (auto simp: bindE_Inl_iff bindE_Inr_iff buf_inv_def no_abort
          no_abort_getOffSet [OF assms(1)] no_abort_getLen_le [OF assms(1)]
          HF_MIN_def HF_MAX_LEN_BLOCK_def size_sub_def Let_def util_rnd64_def next_entropy_def
          snprintf_ld19_length list_all_iff magic_count
        dest!: total_dest magic_entry
        split: if_splits prod.splits)

lemma no_abort_Bytes_fallback:
  assumes "buf_inv g run" "wf_cfg g" "dyn_size b = dyn_size run" "dyn_data b = dyn_data run"
  shows "mangle_BytesOverwrite g b printable \<noteq> Inl e"
    and "mangle_BytesInsert g b printable \<noteq> Inl e"
proof -
  have "buf_inv g b" using assms by (simp add: buf_inv_def)
  then show "mangle_BytesOverwrite g b printable \<noteq> Inl e"
    and "mangle_BytesInsert g b printable \<noteq> Inl e"
    using assms(2) by (rule no_abort_BytesOverwrite no_abort_BytesInsert)+
qed

lemma no_abort_ByteRepeatOverwrite:
  assumes "buf_inv g run" "wf_cfg g"
  shows "mangle_ByteRepeatOverwrite g run printable \<noteq> Inl e"
  using assms unfolding mangle_ByteRepeatOverwrite_def
  by (auto simp: bindE_Inl_iff bindE_Inr_iff buf_inv_def no_abort
          no_abort_getOffSet [OF assms(1)] no_abort_getLen_le [OF assms(1)]
          HF_MIN_def HF_MAX_LEN_BLOCK_def size_sub_def Let_def util_rnd64_def next_entropy_def
          snprintf_ld19_length list_all_iff no_abort_Bytes_fallback [OF assms]
        dest!: total_dest 
        split: if_splits prod.splits)

lemma no_abort_ByteRepeatInsert:
  assumes "buf_inv g run" "wf_cfg g"
  shows "mangle_ByteRepeatInsert g run printable \<noteq> Inl e"
  using assms unfolding mangle_ByteRepeatInsert_def
  by (auto simp: bindE_Inl_iff bindE_Inr_iff buf_inv_def no_abort
          no_abort_getOffSet [OF assms(1)] no_abort_getLen_le [OF assms(1)]
          HF_MIN_def HF_MAX_LEN_BLOCK_def size_sub_def Let_def util_rnd64_def next_entropy_def
          snprintf_ld19_length list_all_iff no_abort_Bytes_fallback [OF assms]
        dest!: total_dest 
        split: if_splits prod.splits)

lemma dict_entry:
  "wf_cfg g \<Longrightarrow> (val, len) \<in> set (mutate_dictionary g) \<Longrightarrow> len \<le> length val"
  by (auto simp: wf_cfg_def list_all_iff)

lemma no_abort_DictionaryOverwrite:
  assumes "buf_inv g run" "wf_cfg g"
  shows "mangle_DictionaryOverwrite g run printable \<noteq> Inl e"
proof (cases "mutate_dictionaryCnt g = 0")
  case True
  then show ?thesis using no_abort_BytesOverwrite [OF assms] by (simp add: mangle_DictionaryOverwrite_def)
next
  case False
  define hi :: u64 where "hi = of_nat (mutate_dictionaryCnt g - 1)"
  have n: "0 < mutate_dictionaryCnt g" "mutate_dictionaryCnt g < 2 ^ 64"
    using False assms(2) by (simp_all add: wf_cfg_def)
  have r1: "util_rndGet 0 hi run \<noteq> Inl e" for run e
    unfolding hi_def by (rule rndGet_index(1) [OF n])
  have r2: "util_rndGet 0 hi run = Inr (v, run') \<Longrightarrow>
      unat v < length (mutate_dictionary g) \<and> dyn_size run' = dyn_size run \<and> dyn_data run' = dyn_data run"
    for run v run'
    unfolding hi_def using rndGet_index(2) [OF n, of run v run'] assms(2)
    by (auto simp: wf_cfg_def)
  show ?thesis
    using assms False unfolding mangle_DictionaryOverwrite_def hi_def [symmetric]
    by (auto simp: bindE_Inl_iff bindE_Inr_iff buf_inv_def no_abort r1
          no_abort_getOffSet [OF assms(1)]
        dest!: mangle_getOffSet_Inr r2 array_get_full dict_entry [OF assms(2)])
qed

lemma no_abort_DictionaryInsert:
  assumes "buf_inv g run" "wf_cfg g"
  shows "mangle_DictionaryInsert g run printable \<noteq> Inl e"
proof (cases "mutate_dictionaryCnt g = 0")
  case True
  then show ?thesis using no_abort_BytesInsert [OF assms] by (simp add: mangle_DictionaryInsert_def)
next
  case False
  define hi :: u64 where "hi = of_nat (mutate_dictionaryCnt g - 1)"
  have n: "0 < mutate_dictionaryCnt g" "mutate_dictionaryCnt g < 2 ^ 64"
    using False assms(2) by (simp_all add: wf_cfg_def)
  have r1: "util_rndGet 0 hi run \<noteq> Inl e" for run e
    unfolding hi_def by (rule rndGet_index(1) [OF n])
  have r2: "util_rndGet 0 hi run = Inr (v, run') \<Longrightarrow>
      unat v < length (mutate_dictionary g) \<and> dyn_size run' = dyn_size run \<and> dyn_data run' = dyn_data run"
    for run v run'
    unfolding hi_def using rndGet_index(2) [OF n, of run v run'] assms(2)
    by (auto simp: wf_cfg_def)
  show ?thesis
    using assms False unfolding mangle_DictionaryInsert_def hi_def [symmetric]
    by (auto simp: bindE_Inl_iff bindE_Inr_iff buf_inv_def no_abort r1
          no_abort_getOffSet [OF assms(1)]
        dest!: r2 mangle_getOffSet_Inr array_get_full dict_entry [OF assms(2)])
qed

lemma addsub_val_full:
  "addsub_val run off varLen delta = Inr (val, run') \<Longrightarrow>
     length val = varLen \<and> dyn_size run' = dyn_size run \<and> dyn_data run' = dyn_data run"
  by (frule addsub_val_length, drule addsub_val_frame) simp

lemma no_abort_AddSubWithRange:
  assumes "off + varLen \<le> dyn_size run" "dyn_size run \<le> length (dyn_data run)"
    "varLen = 1 \<or> varLen = 2 \<or> varLen = 4 \<or> varLen = 8" "range' * 2 + 1 \<noteq> 0"
  shows "mangle_AddSubWithRange run off varLen range' printable \<noteq> Inl e"
proof -
  have r: "util_rndGet 0 (range' * 2) run \<noteq> Inl e" for run e
    by (rule no_abort_rndGet) (use assms(4) in simp_all)
  show ?thesis
    using assms(1-3) unfolding mangle_AddSubWithRange_def
    by (auto simp: bindE_Inl_iff bindE_Inr_iff r no_abort Let_def
        dest!: util_rndGet_full addsub_val_full)
qed

lemma pow2_cases: "n \<le> 3 \<Longrightarrow> (2::nat) ^ n = 1 \<or> (2::nat) ^ n = 2 \<or> (2::nat) ^ n = 4 \<or> (2::nat) ^ n = 8"
proof -
  assume "n \<le> 3"
  then consider "n = 0" | "n = 1" | "n = 2" | "n = 3" by linarith
  then show ?thesis by cases simp_all
qed

lemma no_abort_AddSub:
  assumes "buf_inv g run" "wf_cfg g"
  shows "mangle_AddSub g run printable \<noteq> Inl e"
proof
  assume a: "mangle_AddSub g run printable = Inl e"
  from a no_abort_getOffSet [OF assms(1), of run] assms(1) obtain off run1 where
    o: "mangle_getOffSet g run = Inr (off, run1)"
    and a1: "bindE (util_rndGet 0 3 run1) (\<lambda>(sh, run2).
     let varLen0 = (2::nat) ^ unat sh;
         varLen = (if size_sub (dyn_size run2) off < varLen0 then 1 else varLen0)
     in bindE (if varLen = 1 then Inr 16
               else if varLen = 2 then Inr 4096
               else if varLen = 4 then Inr 1048576
               else if varLen = 8 then Inr 268435456
               else Inl Fatal) (\<lambda>range'.
        mangle_AddSubWithRange run2 off varLen range' printable)) = Inl e"
    unfolding mangle_AddSub_def by (auto simp: bindE_Inl_iff buf_inv_def)
  note f1 = mangle_getOffSet_Inr [OF o]
  have "util_rndGet 0 3 run1 \<noteq> Inl e" by (rule no_abort_rndGet) simp_all
  with a1 obtain sh run2 where
    s: "util_rndGet 0 3 run1 = Inr (sh, run2)"
    and a2: "(let varLen0 = (2::nat) ^ unat sh;
         varLen = (if size_sub (dyn_size run2) off < varLen0 then 1 else varLen0)
     in bindE (if varLen = 1 then Inr 16
               else if varLen = 2 then Inr 4096
               else if varLen = 4 then Inr 1048576
               else if varLen = 8 then Inr 268435456
               else Inl Fatal) (\<lambda>range'.
        mangle_AddSubWithRange run2 off varLen range' printable)) = Inl e"
    by (auto simp: bindE_Inl_iff)
  note f2 = util_rndGet_full [OF s]
  have sz: "dyn_size run2 = dyn_size run" "length (dyn_data run2) = length (dyn_data run)"
    using f1 f2 by simp_all
  define varLen where "varLen = (if size_sub (dyn_size run2) off < 2 ^ unat sh then 1 else (2::nat) ^ unat sh)"
  have "unat sh \<le> 3" using f2 by simp
  then have p: "(2::nat) ^ unat sh = 1 \<or> (2::nat) ^ unat sh = 2 \<or> (2::nat) ^ unat sh = 4 \<or> (2::nat) ^ unat sh = 8"
    by (rule pow2_cases)
  then have v: "varLen = 1 \<or> varLen = 2 \<or> varLen = 4 \<or> varLen = 8" by (auto simp: varLen_def)
  have "size_sub (dyn_size run2) off = dyn_size run - off" using f1 sz by (simp add: size_sub_def)
  then have fit: "off + varLen \<le> dyn_size run2" using f1 sz by (auto simp: varLen_def)
  have cap: "dyn_size run2 \<le> length (dyn_data run2)" using assms(1) sz by (simp add: buf_inv_def)
  from a2 have a3: "bindE (if varLen = 1 then Inr 16
               else if varLen = 2 then Inr 4096
               else if varLen = 4 then Inr 1048576
               else if varLen = 8 then Inr 268435456
               else Inl Fatal) (\<lambda>range'.
        mangle_AddSubWithRange run2 off varLen range' printable) = Inl e"
    unfolding Let_def varLen_def [symmetric] .
  note na = no_abort_AddSubWithRange [OF fit cap v, of _ printable e]
  from v consider "varLen = 1" | "varLen = 2" | "varLen = 4" | "varLen = 8" by blast
  then show False
  proof cases
    case 1
    with a3 have "mangle_AddSubWithRange run2 off varLen 16 printable = Inl e"
      by (simp add: bindE_def)
    then show False using na [of 16] by simp
  next
    case 2
    with a3 have "mangle_AddSubWithRange run2 off varLen 4096 printable = Inl e"
      by (simp add: bindE_def)
    then show False using na [of 4096] by simp
  next
    case 3
    with a3 have "mangle_AddSubWithRange run2 off varLen 1048576 printable = Inl e"
      by (simp add: bindE_def)
    then show False using na [of 1048576] by simp
  next
    case 4
    with a3 have "mangle_AddSubWithRange run2 off varLen 268435456 printable = Inl e"
      by (simp add: bindE_def)
    then show False using na [of 268435456] by simp
  qed
qed

lemma no_abort_Shrink:
  assumes "buf_inv g run" "wf_cfg g"
  shows "mangle_Shrink g run printable \<noteq> Inl e"
  using assms unfolding mangle_Shrink_def
  by (auto simp: bindE_Inl_iff bindE_Inr_iff buf_inv_def no_abort
          no_abort_getOffSet [OF assms(1)] no_abort_getLen_le [OF assms(1)]
          HF_MIN_def HF_MAX_LEN_BLOCK_def size_sub_def Let_def util_rnd64_def next_entropy_def
          snprintf_ld19_length list_all_iff mangle_LenLeft_def input_setSize_def
        dest!: total_dest 
        split: if_splits prod.splits)

lemma no_abort_getLen_prior:
  assumes "wf_cfg g" "prior_input g w \<noteq> []"
  shows "mangle_getLen g (length (prior_input g w)) run \<noteq> Inl e"
proof (rule no_abort_getLen)
  show "sampler_ok g (length (prior_input g w))" using assms(1) by (simp add: wf_cfg_def)
  show "1 \<le> length (prior_input g w)" using assms(2) by (cases "prior_input g w") simp_all
qed

lemma no_abort_SpliceOverwrite:
  assumes "buf_inv g run" "wf_cfg g"
  shows "mangle_SpliceOverwrite g run printable \<noteq> Inl e"
  using assms unfolding mangle_SpliceOverwrite_def
  by (auto simp: bindE_Inl_iff bindE_Inr_iff buf_inv_def no_abort
          no_abort_getOffSet [OF assms(1)] no_abort_getLen_le [OF assms(1)]
          HF_MIN_def HF_MAX_LEN_BLOCK_def size_sub_def Let_def util_rnd64_def next_entropy_def
          snprintf_ld19_length list_all_iff input_getRandomInputAsBuf_def no_abort_Bytes_fallback [OF assms] no_abort_getLen_prior [OF assms(2)]
        dest!: total_dest 
        split: if_splits prod.splits)

lemma no_abort_SpliceInsert:
  assumes "buf_inv g run" "wf_cfg g"
  shows "mangle_SpliceInsert g run printable \<noteq> Inl e"
  using assms unfolding mangle_SpliceInsert_def
  by (auto simp: bindE_Inl_iff bindE_Inr_iff buf_inv_def no_abort
          no_abort_getOffSet [OF assms(1)] no_abort_getLen_le [OF assms(1)]
          HF_MIN_def HF_MAX_LEN_BLOCK_def size_sub_def Let_def util_rnd64_def next_entropy_def
          snprintf_ld19_length list_all_iff input_getRandomInputAsBuf_def no_abort_Bytes_fallback [OF assms] no_abort_getLen_prior [OF assms(2)]
        dest!: total_dest 
        split: if_splits prod.splits)

lemma unat_ucast_32_64: "unat (ucast (w :: 32 word) :: u64) = unat w"
proof -
  have "unat w < 2 ^ 32" using unsigned_less [of w] by simp
  then have "unat w < 2 ^ 64" by simp
  then show ?thesis by (simp add: unsigned_ucast_eq take_bit_nat_eq_self)
qed

lemma unat_ucast_64_32: "unat (v :: u64) < 2 ^ 32 \<Longrightarrow> unat (ucast v :: 32 word) = unat v"
  by (simp add: unsigned_ucast_eq take_bit_nat_eq_self)

lemma mangle_FeedbackDict_ok:
  assumes "wf_cfg g"
  shows "\<exists>r run'. mangle_FeedbackDict g run = Inr (r, run') \<and>
           dyn_size run' = dyn_size run \<and> dyn_data run' = dyn_data run \<and>
           (\<forall>val len. r = Some (val, len) \<longrightarrow> len \<le> length val)"
proof (cases "feedback_cmpFeedback g \<and> cnt (feedback_cmpFeedbackMap g) \<noteq> 0")
  case False
  then show ?thesis by (auto simp: mangle_FeedbackDict_def Let_def)
next
  case True
  define arr where "arr = valArr (feedback_cmpFeedbackMap g)"
  define c0 where "c0 = cnt (feedback_cmpFeedbackMap g)"
  define c1 :: "32 word" where "c1 = (if unat c0 > length arr then of_nat (length arr) else c0)"
  define hi :: u64 where "hi = ucast (c1 - 1)"
  have la: "1 \<le> length arr" "length arr < 2 ^ 32"
    and ent: "\<And>val len. (val, len) \<in> set arr \<Longrightarrow> len \<le> length val"
    using assms True by (auto simp: wf_cfg_def arr_def list_all_iff)
  have c0: "c0 \<noteq> 0" using True by (simp add: c0_def)
  then have "unat c0 \<noteq> 0" by (simp add: unat_eq_0)
  then have u0: "1 \<le> unat c0" by simp
  have u1: "1 \<le> unat c1 \<and> unat c1 \<le> length arr"
  proof (cases "unat c0 > length arr")
    case True
    have "unat (of_nat (length arr) :: 32 word) = length arr" using la by (simp add: unat_of_nat)
    then show ?thesis using True la by (simp add: c1_def)
  next
    case False
    then show ?thesis using u0 by (simp add: c1_def)
  qed
  then have "c1 \<noteq> 0" by auto
  then have um: "unat (c1 - 1) = unat c1 - 1" by (rule unat_minus_one)
  have uh: "unat hi = unat c1 - 1" unfolding hi_def by (simp add: unat_ucast_32_64 um)
  have "unat c1 < 2 ^ 32" using unsigned_less [of c1] by simp
  then have hlt: "unat hi < 2 ^ 32 - 1" using uh u1 by linarith
  then have "unat hi + unat (1 :: u64) < 2 ^ 64" by simp
  then have "unat (hi + 1) = unat hi + unat (1 :: u64)" using unat_add_lem [of hi 1] by simp
  then have "hi + 1 \<noteq> 0" by (metis add_is_0 unat_0 unat_1 zero_neq_one)
  then have nz: "hi - 0 + 1 \<noteq> 0" by simp
  obtain v run1 where r: "util_rndGet 0 hi run = Inr (v, run1)" and vle: "v \<le> hi"
    and fr: "dyn_size run1 = dyn_size run" "dyn_data run1 = dyn_data run"
    using util_rndGet_ok [of 0 hi run] nz by auto
  have "unat v \<le> unat hi" using vle by (simp add: word_le_nat_alt)
  then have vlt: "unat v < 2 ^ 32" "unat v < length arr" using hlt uh u1 by linarith+
  then have idx: "unat (ucast v :: 32 word) < length arr" by (simp add: unat_ucast_64_32)
  define ent where "ent = arr ! unat (ucast v :: 32 word)"
  have ag: "array_get arr (unat (ucast v :: 32 word)) = Inr ent" using idx by (simp add: array_get_def ent_def)
  have mem: "ent \<in> set arr" using idx by (simp add: ent_def)
  obtain val len where e: "ent = (val, len)" by (cases ent)
  have le: "len \<le> length val" using mem e ent by simp
  have "mangle_FeedbackDict g run = Inr (if len = 0 then None else Some (val, len), run1)"
    using True r ag e
    unfolding mangle_FeedbackDict_def Let_def arr_def [symmetric] c0_def [symmetric]
      c1_def [symmetric] hi_def [symmetric]
    by (simp add: bindE_def c0)
  then show ?thesis using fr le by auto
qed

lemma no_abort_ConstFeedbackOverwrite:
  assumes "buf_inv g run" "wf_cfg g"
  shows "mangle_ConstFeedbackOverwrite g run printable \<noteq> Inl e"
proof -
  obtain r run1 where f: "mangle_FeedbackDict g run = Inr (r, run1)"
    and fr: "dyn_size run1 = dyn_size run" "dyn_data run1 = dyn_data run"
    and le: "\<And>val len. r = Some (val, len) \<Longrightarrow> len \<le> length val"
    using mangle_FeedbackDict_ok [OF assms(2), of run] by blast
  have b1: "buf_inv g run1" using assms(1) fr by (simp add: buf_inv_def)
  show ?thesis
  proof (cases r)
    case None
    then show ?thesis using f no_abort_BytesOverwrite [OF b1 assms(2)]
      by (simp add: mangle_ConstFeedbackOverwrite_def bindE_def)
  next
    case (Some p)
    obtain val len where p: "p = (val, len)" by (cases p)
    have l: "len \<le> length val" using le Some p by simp
    show ?thesis
      using f Some p l b1 no_abort_getOffSet [OF b1, of run1]
      unfolding mangle_ConstFeedbackOverwrite_def
      by (auto simp: bindE_def bindE_Inl_iff buf_inv_def no_abort split: sum.splits
          dest!: mangle_getOffSet_Inr)
  qed
qed

lemma no_abort_ConstFeedbackInsert:
  assumes "buf_inv g run" "wf_cfg g"
  shows "mangle_ConstFeedbackInsert g run printable \<noteq> Inl e"
proof -
  obtain r run1 where f: "mangle_FeedbackDict g run = Inr (r, run1)"
    and fr: "dyn_size run1 = dyn_size run" "dyn_data run1 = dyn_data run"
    and le: "\<And>val len. r = Some (val, len) \<Longrightarrow> len \<le> length val"
    using mangle_FeedbackDict_ok [OF assms(2), of run] by blast
  have b1: "buf_inv g run1" using assms(1) fr by (simp add: buf_inv_def)
  show ?thesis
  proof (cases r)
    case None
    then show ?thesis using f no_abort_BytesInsert [OF b1 assms(2)]
      by (simp add: mangle_ConstFeedbackInsert_def bindE_def)
  next
    case (Some p)
    obtain val len where p: "p = (val, len)" by (cases p)
    have l: "len \<le> length val" using le Some p by simp
    show ?thesis
      using f Some p l b1 no_abort_getOffSet [OF b1, of run1]
      unfolding mangle_ConstFeedbackInsert_def
      by (auto simp: bindE_def bindE_Inl_iff buf_inv_def no_abort split: sum.splits
          dest!: mangle_getOffSet_Inr)
  qed
qed

lemma sampler_ok_lt: "sampler_ok g n \<Longrightarrow> n < 2 ^ 64"
proof -
  assume a: "sampler_ok g n"
  show "n < 2 ^ 64"
  proof (cases "n = 0")
    case True then show ?thesis by simp
  next
    case False
    then have "n ^ 1 \<le> n ^ 3" by (intro power_increasing) simp_all
    then show ?thesis using a by (simp add: sampler_ok_def)
  qed
qed

lemma rndGet_from_one:
  assumes "1 \<le> n" "n < 2 ^ 64"
  shows "util_rndGet 1 (of_nat n) run \<noteq> Inl e"
proof -
  have un: "unat (of_nat n :: u64) = n" using assms by (simp add: unat_of_nat)
  then have a: "(1::u64) \<le> of_nat n" using assms(1) by (simp add: word_le_nat_alt)
  have "(of_nat n :: u64) \<noteq> 0"
  proof
    assume "(of_nat n :: u64) = 0"
    then have "unat (of_nat n :: u64) = 0" by simp
    then show False using un assms(1) by simp
  qed
  then have b: "(of_nat n :: u64) - 1 + 1 \<noteq> 0" by simp
  show ?thesis by (rule no_abort_rndGet [OF a b])
qed

lemma no_abort_resize_choice:
  assumes "1 \<le> mutate_maxInputSz g" "sampler_ok g (mutate_maxInputSz g)"
  shows "resize_choice g oldsz run \<noteq> Inl e"
proof -
  note m = rndGet_from_one [OF assms(1) sampler_ok_lt [OF assms(2)]]
  show ?thesis
    unfolding resize_choice_def
    apply (auto simp: bindE_Inl_iff no_abort_rndGet m split: if_splits dest!: util_rndGet_full)
           apply (simp_all add: word_le_nat_alt word_unat_eq_iff)
    done
qed

lemma no_abort_Resize:
  assumes "1 \<le> mutate_maxInputSz g" "sampler_ok g (mutate_maxInputSz g)"
    "mutate_maxInputSz g \<le> length (dyn_data run)"
  shows "mangle_Resize g run printable \<noteq> Inl e"
  using assms(3) unfolding mangle_Resize_def
  by (auto simp: bindE_Inl_iff Let_def no_abort_resize_choice [OF assms(1,2)] input_setSize_def
        no_abort_memset_dyn
      dest!: resize_choice_frame split: if_splits)

lemma size_safe_buf_inv: "buf_inv g run \<Longrightarrow> size_safe g run run' \<Longrightarrow> buf_inv g run'"
  by (simp add: buf_inv_def size_safe_def)

lemma no_abort_mangleFuncs:
  assumes "f \<in> set mangleFuncs" and "buf_inv g run" and "wf_cfg g"
  shows "f g run printable \<noteq> Inl e"
proof -
  note b = assms(2,3)
  from assms(1) consider
    "f = mangle_Shrink" | "f = mangle_Expand" | "f = mangle_Bit" | "f = mangle_IncByte"
    | "f = mangle_DecByte" | "f = mangle_NegByte" | "f = mangle_AddSub" | "f = mangle_MemSet"
    | "f = mangle_MemCopyOverwrite" | "f = mangle_MemCopyInsert" | "f = mangle_BytesOverwrite"
    | "f = mangle_BytesInsert" | "f = mangle_ASCIINumOverwrite" | "f = mangle_ASCIINumInsert"
    | "f = mangle_ByteRepeatOverwrite" | "f = mangle_ByteRepeatInsert"
    | "f = mangle_MagicOverwrite" | "f = mangle_MagicInsert" | "f = mangle_DictionaryOverwrite"
    | "f = mangle_DictionaryInsert" | "f = mangle_ConstFeedbackOverwrite"
    | "f = mangle_ConstFeedbackInsert" | "f = mangle_RandomOverwrite" | "f = mangle_RandomInsert"
    | "f = mangle_SpliceOverwrite" | "f = mangle_SpliceInsert"
    unfolding mangleFuncs_def by auto
  then show ?thesis
  proof cases
    case 1 then show ?thesis by (simp add: no_abort_Shrink [OF b])
  next case 2 then show ?thesis by (simp add: no_abort_Expand [OF b])
  next case 3 then show ?thesis by (simp add: no_abort_Bit [OF b])
  next case 4 then show ?thesis by (simp add: no_abort_IncByte [OF b])
  next case 5 then show ?thesis by (simp add: no_abort_DecByte [OF b])
  next case 6 then show ?thesis by (simp add: no_abort_NegByte [OF b])
  next case 7 then show ?thesis by (simp add: no_abort_AddSub [OF b])
  next case 8 then show ?thesis by (simp add: no_abort_MemSet [OF b])
  next case 9 then show ?thesis by (simp add: no_abort_MemCopyOverwrite [OF b])
  next case 10 then show ?thesis by (simp add: no_abort_MemCopyInsert [OF b])
  next case 11 then show ?thesis by (simp add: no_abort_BytesOverwrite [OF b])
  next case 12 then show ?thesis by (simp add: no_abort_BytesInsert [OF b])
  next case 13 then show ?thesis by (simp add: no_abort_ASCIINumOverwrite [OF b])
  next case 14 then show ?thesis by (simp add: no_abort_ASCIINumInsert [OF b])
  next case 15 then show ?thesis by (simp add: no_abort_ByteRepeatOverwrite [OF b])
  next case 16 then show ?thesis by (simp add: no_abort_ByteRepeatInsert [OF b])
  next case 17 then show ?thesis by (simp add: no_abort_MagicOverwrite [OF b])
  next case 18 then show ?thesis by (simp add: no_abort_MagicInsert [OF b])
  next case 19 then show ?thesis by (simp add: no_abort_DictionaryOverwrite [OF b])
  next case 20 then show ?thesis by (simp add: no_abort_DictionaryInsert [OF b])
  next case 21 then show ?thesis by (simp add: no_abort_ConstFeedbackOverwrite [OF b])
  next case 22 then show ?thesis by (simp add: no_abort_ConstFeedbackInsert [OF b])
  next case 23 then show ?thesis by (simp add: no_abort_RandomOverwrite [OF b])
  next case 24 then show ?thesis by (simp add: no_abort_RandomInsert [OF b])
  next case 25 then show ?thesis by (simp add: no_abort_SpliceOverwrite [OF b])
  next case 26 then show ?thesis by (simp add: no_abort_SpliceInsert [OF b])
  qed
qed

lemma returns_or_aborts: "(\<And>e. m \<noteq> Inl e) \<Longrightarrow> \<exists>x. m = Inr x"
  by (cases m) auto

lemma mangleFuncs_count: "length mangleFuncs = 29"
  by (simp add: mangleFuncs_def)

lemma mangle_round_returns:
  assumes "buf_inv g run" and "wf_cfg g"
  shows "\<exists>run'. mangle_round g run = Inr run' \<and> buf_inv g run'"
proof -
  have "util_rndGet 0 28 run \<noteq> Inl e" for e by (rule no_abort_rndGet) simp_all
  then obtain choice run1 where c: "util_rndGet 0 28 run = Inr (choice, run1)"
    using returns_or_aborts [of "util_rndGet 0 28 run"] by auto
  note f = util_rndGet_full [OF c]
  have i: "unat choice < length mangleFuncs" using f by (simp add: mangleFuncs_count)
  define op where "op = mangleFuncs ! unat choice"
  have mem: "op \<in> set mangleFuncs" using i by (simp add: op_def)
  have b1: "buf_inv g run1" using assms(1) f by (simp add: buf_inv_def)
  obtain run' where r: "op g run1 (cfg_only_printable g) = Inr run'"
    using returns_or_aborts [of "op g run1 (cfg_only_printable g)"]
      no_abort_mangleFuncs [OF mem b1 assms(2)] by blast
  have "size_safe g run1 run'" using mem r by (rule mangleFuncs_size_safe)
  then have "buf_inv g run'" using b1 by (simp add: size_safe_buf_inv)
  moreover have "mangle_round g run = Inr run'"
    using c i r by (simp add: mangle_round_def mangleFuncs_count bindE_def array_get_def op_def)
  ultimately show ?thesis by blast
qed

lemma mangle_rounds_returns:
  assumes "wf_cfg g"
  shows "buf_inv g run \<Longrightarrow> \<exists>run'. mangle_rounds g n run = Inr run' \<and> buf_inv g run'"
proof (induction n arbitrary: run)
  case 0
  then show ?case by simp
next
  case (Suc n)
  obtain run1 where a: "mangle_round g run = Inr run1" and b: "buf_inv g run1"
    using mangle_round_returns [OF Suc.prems assms] by blast
  from Suc.IH [OF b] obtain run' where "mangle_rounds g n run1 = Inr run'" "buf_inv g run'"
    by blast
  then show ?case using a by (simp add: bindE_def)
qed

lemma mangle_changesCnt_returns:
  assumes "wf_cfg g"
  shows "\<exists>n run'. mangle_changesCnt g run slow_factor = Inr (n, run') \<and>
           dyn_size run' = dyn_size run \<and> dyn_data run' = dyn_data run"
proof -
  have "1 \<le> mutate_mutationsPerRun g" "mutate_mutationsPerRun g < 2 ^ 64"
    using assms by (simp_all add: wf_cfg_def)
  then have "util_rndGet 1 (of_nat (mutate_mutationsPerRun g)) run \<noteq> Inl e" for e
    by (rule rndGet_from_one)
  then obtain v run1 where c: "util_rndGet 1 (of_nat (mutate_mutationsPerRun g)) run = Inr (v, run1)"
    using returns_or_aborts [of "util_rndGet 1 (of_nat (mutate_mutationsPerRun g)) run"] by auto
  show ?thesis
    using c util_rndGet_frame [OF c] by (auto simp: mangle_changesCnt_def bindE_def)
qed

lemma mangle_staleSplice_returns:
  assumes "buf_inv g run" and "wf_cfg g"
  shows "\<exists>run'. mangle_staleSplice g run = Inr run' \<and> buf_inv g run'"
proof -
  have "mangle_staleSplice g run \<noteq> Inl e" for e
  proof -
    have b: "buf_inv g (run\<lparr>drawn := Suc (drawn run)\<rparr>)" using assms(1) by (simp add: buf_inv_def)
    show ?thesis
      unfolding mangle_staleSplice_def
      by (simp add: Let_def util_rnd64_def next_entropy_def
          no_abort_SpliceOverwrite [OF b assms(2)] no_abort_SpliceInsert [OF b assms(2)])
  qed
  then obtain run' where r: "mangle_staleSplice g run = Inr run'"
    using returns_or_aborts [of "mangle_staleSplice g run"] by auto
  then show ?thesis
    using size_safe_buf_inv [OF assms(1) mangle_staleSplice_size_safe [OF r]] by blast
qed

lemma mangle_mangleContent_returns:
  assumes "wf_cfg g" and "1 \<le> mutate_maxInputSz g" and "sampler_ok g (mutate_maxInputSz g)"
    and "mutate_maxInputSz g \<le> length (dyn_data run)" and "dyn_size run \<le> mutate_maxInputSz g"
  shows "\<exists>run'. mangle_mangleContent g run slow_factor = Inr run' \<and>
           dyn_size run' \<le> mutate_maxInputSz g \<and>
           (mutationsPerRun run \<noteq> 0 \<longrightarrow> 1 \<le> dyn_size run')"
proof (cases "mutationsPerRun run = 0")
  case True
  then show ?thesis using assms(5) by (simp add: mangle_mangleContent_def)
next
  case False
  have "\<exists>run1. (if dyn_size run = 0 then mangle_Resize g run (cfg_only_printable g) else Inr run)
            = Inr run1 \<and> buf_inv g run1"
  proof (cases "dyn_size run = 0")
    case True
    obtain run1 where r: "mangle_Resize g run (cfg_only_printable g) = Inr run1"
      using returns_or_aborts [of "mangle_Resize g run (cfg_only_printable g)"]
        no_abort_Resize [OF assms(2,3,4)] by blast
    have "buf_inv g run1" using mangle_Resize_Inr [OF r] assms(2,3,4) by (simp add: buf_inv_def)
    then show ?thesis using True r by simp
  next
    case False
    then show ?thesis using assms by (simp add: buf_inv_def)
  qed
  then obtain run1 where
    b: "(if dyn_size run = 0 then mangle_Resize g run (cfg_only_printable g) else Inr run) = Inr run1"
    and i1: "buf_inv g run1" by blast
  obtain n run2 where c: "mangle_changesCnt g run1 slow_factor = Inr (n, run2)"
    and f2: "dyn_size run2 = dyn_size run1" "dyn_data run2 = dyn_data run1"
    using mangle_changesCnt_returns [OF assms(1), of run1 slow_factor] by blast
  have i2: "buf_inv g run2" using i1 f2 by (simp add: buf_inv_def)
  obtain run3 where s: "mangle_staleSplice g run2 = Inr run3" and i3: "buf_inv g run3"
    using mangle_staleSplice_returns [OF i2 assms(1)] by blast
  obtain run' where l: "mangle_rounds g n run3 = Inr run'" and i4: "buf_inv g run'"
    using mangle_rounds_returns [OF assms(1) i3, of n] by blast
  have "mangle_mangleContent g run slow_factor = Inr run'"
    using False b c s l by (simp add: mangle_mangleContent_def bindE_def)
  then show ?thesis using i4 by (simp add: buf_inv_def)
qed

subsection \<open>Concrete runs\<close>

lemmas eval_defs =
  mangle_mangleContent_def mangle_changesCnt_def mangle_staleSplice_def mangle_round_def
  mangleFuncs_def array_get_def mangle_getOffSet_def mangle_getLen_def bindE_def util_rndGet_def
  util_rnd64_def next_entropy_def Let_def size_sub_def HF_MIN_def HF_MAX_def dyn_get_def
  dyn_set_def mangle_LenLeft_def mangle_Move_def memmove_dyn_def memset_dyn_def load_src_def
  load_def store_def input_setSize_def mangle_Overwrite_def mangle_Inflate_def mangle_Insert_def
  util_turnToPrintable_def to_printable_def

lemma shrink_run_five:
  "mangle_Shrink cfg_small run_five False
     = Inr (run_five\<lparr>dyn_data := [2, 3, 4, 5, 5, 0, 0, 0], dyn_size := 4, drawn := 3\<rparr>)"
  by (simp add: mangle_Shrink_def eval_defs cfg_small_def run_five_def)

lemma mangleContent_run_five:
  "mangle_mangleContent cfg_small run_five 0
     = Inr (run_five\<lparr>dyn_data := [2, 3, 4, 5, 5, 0, 0, 0], dyn_size := 4, drawn := 5\<rparr>)"
  by (simp add: mangle_Shrink_def eval_defs cfg_small_def run_five_def)

lemma resize_run_empty:
  "mangle_Resize cfg_printable run_empty True
     = Inr (run_empty\<lparr>dyn_data := [32, 32, 32, 0, 0, 0, 0, 0], dyn_size := 3, drawn := 2\<rparr>)"
  by (simp add: mangle_Resize_def resize_choice_def eval_defs cfg_printable_def run_empty_def
      numeral_3_eq_3)

lemma mangleContent_run_empty:
  "mangle_mangleContent cfg_printable run_empty 0
     = Inr (run_empty\<lparr>dyn_data := [65, 32, 32, 0, 0, 0, 0, 0], dyn_size := 3, drawn := 6\<rparr>)"
  by (simp add: mangle_Resize_def resize_choice_def mangle_Bit_def eval_defs cfg_printable_def
      run_empty_def numeral_3_eq_3)

subsection \<open>Printable mode\<close>

text \<open>
  C1. The claim is that in printable mode a printable input stays printable under every
  operator of the dispatch table, \<open>mangle_AddSub\<close> at every width included. At width \<open>1\<close>
  \<open>mangle_AddSubWithRange\<close> adds the delta to the byte in place and never looks at
  \<open>printable\<close>, while the widths \<open>2\<close>, \<open>4\<close> and \<open>8\<close> go through \<open>mangle_Overwrite\<close>,
  which remaps. Here the dispatcher is run in printable mode on the printable one-byte input
  \<^verbatim>\<open>"~"\<close>: one round, \<open>mangle_AddSub\<close>, delta \<open>1\<close>; the byte becomes \<open>0x7F\<close>.
\<close>

theorem printable_broken_by_AddSub:
  "cfg_only_printable cfg_printable \<and> printable_buf run_tilde \<and>
   mangle_mangleContent cfg_printable run_tilde 0
     = Inr (run_tilde\<lparr>dyn_data := [127, 32, 32, 32, 32, 32, 32, 32], drawn := 4\<rparr>) \<and>
   \<not> printable_buf (run_tilde\<lparr>dyn_data := [127, 32, 32, 32, 32, 32, 32, 32], drawn := 4\<rparr>)"
  by (simp add: printable_buf_def printable_byte_def mangle_AddSub_def mangle_AddSubWithRange_def
      eval_defs
      cfg_printable_def run_tilde_def)

subsection \<open>The size invariants\<close>

text \<open>
  C2. For an input whose size is within \<open>maxInputSz\<close>: whenever \<open>mangle_mangleContent\<close>
  returns, for any \<open>slow_factor\<close>, the size of the result is within \<open>maxInputSz\<close>; and the
  same holds for the result of every operator of the dispatch table and of \<open>mangle_Resize\<close>.
  (Sizes are natural numbers, so they are never negative.) Moreover the call does return when
  the configuration is well-formed, the limit is at least \<open>1\<close> and one on which the length
  sampler returns, and the mapping holds \<open>maxInputSz\<close> bytes.
\<close>

theorem size_bound:
  assumes "dyn_size run \<le> mutate_maxInputSz g"
  shows "(\<forall>run'. mangle_mangleContent g run slow_factor = Inr run' \<longrightarrow>
            dyn_size run' \<le> mutate_maxInputSz g) \<and>
         (\<forall>f \<in> set mangleFuncs. \<forall>run'. f g run printable = Inr run' \<longrightarrow>
            dyn_size run' \<le> mutate_maxInputSz g) \<and>
         (\<forall>run'. mangle_Resize g run printable = Inr run' \<longrightarrow>
            dyn_size run' \<le> mutate_maxInputSz g) \<and>
         (wf_cfg g \<and> 1 \<le> mutate_maxInputSz g \<and> sampler_ok g (mutate_maxInputSz g) \<and>
          mutate_maxInputSz g \<le> length (dyn_data run) \<longrightarrow>
            (\<exists>run'. mangle_mangleContent g run slow_factor = Inr run'))"
proof (intro conjI allI ballI impI)
  assume "wf_cfg g \<and> 1 \<le> mutate_maxInputSz g \<and> sampler_ok g (mutate_maxInputSz g) \<and>
          mutate_maxInputSz g \<le> length (dyn_data run)"
  then show "\<exists>run'. mangle_mangleContent g run slow_factor = Inr run'"
    using mangle_mangleContent_returns [of g run slow_factor] assms by blast
next
  fix run' assume r: "mangle_mangleContent g run slow_factor = Inr run'"
  from mangle_mangleContent_Inr [OF r] show "dyn_size run' \<le> mutate_maxInputSz g"
  proof
    assume "mutationsPerRun run = 0 \<and> run' = run"
    then show ?thesis using assms by simp
  next
    assume "mutationsPerRun run \<noteq> 0 \<and>
      (\<exists>run1. (if dyn_size run = 0 then mangle_Resize g run (cfg_only_printable g) = Inr run1
                else run1 = run) \<and> size_safe g run1 run')"
    then obtain run1 where
      b: "if dyn_size run = 0 then mangle_Resize g run (cfg_only_printable g) = Inr run1
          else run1 = run"
      and s: "size_safe g run1 run'" by blast
    have "dyn_size run1 \<le> mutate_maxInputSz g"
      using b assms by (auto split: if_splits dest: mangle_Resize_Inr)
    then show ?thesis using s by (simp add: size_safe_def)
  qed
next
  fix f run' assume "f \<in> set mangleFuncs" and "f g run printable = Inr run'"
  then have "size_safe g run run'" by (rule mangleFuncs_size_safe)
  then show "dyn_size run' \<le> mutate_maxInputSz g" using assms by (simp add: size_safe_def)
next
  fix run' assume "mangle_Resize g run printable = Inr run'"
  then show "dyn_size run' \<le> mutate_maxInputSz g" by (simp add: mangle_Resize_Inr)
qed

theorem size_bound_witness:
  "dyn_size run_five \<le> mutate_maxInputSz cfg_small \<and>
   wf_cfg cfg_small \<and> 1 \<le> mutate_maxInputSz cfg_small \<and>
   sampler_ok cfg_small (mutate_maxInputSz cfg_small) \<and>
   mutate_maxInputSz cfg_small \<le> length (dyn_data run_five) \<and>
   (\<exists>run'. mangle_mangleContent cfg_small run_five 7 = Inr run') \<and>
   mangle_mangleContent cfg_small run_five 0
     = Inr (run_five\<lparr>dyn_data := [2, 3, 4, 5, 5, 0, 0, 0], dyn_size := 4, drawn := 5\<rparr>) \<and>
   dyn_size (run_five\<lparr>dyn_data := [2, 3, 4, 5, 5, 0, 0, 0], dyn_size := 4, drawn := 5\<rparr>)
     \<le> mutate_maxInputSz cfg_small \<and>
   mangle_Shrink \<in> set mangleFuncs \<and>
   mangle_Shrink cfg_small run_five False
     = Inr (run_five\<lparr>dyn_data := [2, 3, 4, 5, 5, 0, 0, 0], dyn_size := 4, drawn := 3\<rparr>) \<and>
   dyn_size (run_five\<lparr>dyn_data := [2, 3, 4, 5, 5, 0, 0, 0], dyn_size := 4, drawn := 3\<rparr>)
     \<le> mutate_maxInputSz cfg_small"
proof -
  have h: "dyn_size run_five \<le> mutate_maxInputSz cfg_small"
    by (simp add: run_five_def cfg_small_def)
  have m: "mangle_Shrink \<in> set mangleFuncs" by (simp add: mangleFuncs_def)
  have w: "wf_cfg cfg_small \<and> 1 \<le> mutate_maxInputSz cfg_small \<and>
      sampler_ok cfg_small (mutate_maxInputSz cfg_small) \<and>
      mutate_maxInputSz cfg_small \<le> length (dyn_data run_five)"
    by (simp add: wf_cfg_def sampler_ok_def cfg_small_def run_five_def)
  from size_bound [OF h, of 7 False] w
  have e: "\<exists>run'. mangle_mangleContent cfg_small run_five 7 = Inr run'" by blast
  note t = size_bound [OF h, of 0 False]
  from t mangleContent_run_five
  have a: "dyn_size (run_five\<lparr>dyn_data := [2, 3, 4, 5, 5, 0, 0, 0], dyn_size := 4, drawn := 5\<rparr>)
     \<le> mutate_maxInputSz cfg_small" by blast
  from t m shrink_run_five
  have b: "dyn_size (run_five\<lparr>dyn_data := [2, 3, 4, 5, 5, 0, 0, 0], dyn_size := 4, drawn := 3\<rparr>)
     \<le> mutate_maxInputSz cfg_small" by blast
  show ?thesis using h w e m a b mangleContent_run_five shrink_run_five by simp
qed

text \<open>
  C10. For a non-empty input within \<open>maxInputSz\<close>: whenever an operator of the dispatch
  table or \<open>mangle_Resize\<close> returns, the result is non-empty. In particular \<open>mangle_Shrink\<close>
  returns the state unchanged when the size is at most \<open>2\<close>, and otherwise it removes at most
  \<open>size - off_start - 1\<close> bytes, where \<open>off_start\<close> is the offset it drew. Moreover, on a
  well-formed configuration and a state that satisfies \<open>buf_inv\<close>, every operator of the
  table and \<open>mangle_Resize\<close> do return.
\<close>

theorem nonempty_preserved:
  assumes "1 \<le> dyn_size run" and "dyn_size run \<le> mutate_maxInputSz g"
  shows "(\<forall>f \<in> set mangleFuncs. \<forall>run'. f g run printable = Inr run' \<longrightarrow> 1 \<le> dyn_size run') \<and>
         (\<forall>run'. mangle_Resize g run printable = Inr run' \<longrightarrow> 1 \<le> dyn_size run') \<and>
         (dyn_size run \<le> 2 \<longrightarrow> mangle_Shrink g run printable = Inr run) \<and>
         (\<forall>run'. 2 < dyn_size run \<and> mangle_Shrink g run printable = Inr run' \<longrightarrow>
            (\<exists>off_start run1. mangle_getOffSet g run = Inr (off_start, run1) \<and>
               off_start < dyn_size run \<and>
               dyn_size run - dyn_size run' \<le> dyn_size run - off_start - 1)) \<and>
         (buf_inv g run \<and> wf_cfg g \<longrightarrow>
            (\<forall>f \<in> set mangleFuncs. \<exists>run'. f g run printable = Inr run') \<and>
            (\<exists>run'. mangle_Resize g run printable = Inr run'))"
proof (intro conjI allI ballI impI)
  fix f assume "buf_inv g run \<and> wf_cfg g" and "f \<in> set mangleFuncs"
  then show "\<exists>run'. f g run printable = Inr run'"
    using no_abort_mangleFuncs [of f g run printable]
      returns_or_aborts [of "f g run printable"] by blast
next
  assume "buf_inv g run \<and> wf_cfg g"
  then have "mangle_Resize g run printable \<noteq> Inl e" for e
    using no_abort_Resize [of g run printable e] by (simp add: buf_inv_def)
  then show "\<exists>run'. mangle_Resize g run printable = Inr run'"
    using returns_or_aborts [of "mangle_Resize g run printable"] by blast
next
  fix f run' assume "f \<in> set mangleFuncs" and "f g run printable = Inr run'"
  then have "size_safe g run run'" by (rule mangleFuncs_size_safe)
  then show "1 \<le> dyn_size run'" using assms by (simp add: size_safe_def)
next
  fix run' assume "mangle_Resize g run printable = Inr run'"
  then show "1 \<le> dyn_size run'" using assms mangle_Resize_Inr [of g run printable run'] by simp
next
  assume "dyn_size run \<le> 2"
  then show "mangle_Shrink g run printable = Inr run" by (simp add: mangle_Shrink_def)
next
  fix run' assume a: "2 < dyn_size run \<and> mangle_Shrink g run printable = Inr run'"
  then have "\<exists>off_start run1. mangle_getOffSet g run = Inr (off_start, run1) \<and>
         dyn_size run - dyn_size run' \<le> dyn_size run - off_start - 1"
    using mangle_Shrink_Inr [of g run printable run'] by auto
  then show "\<exists>off_start run1. mangle_getOffSet g run = Inr (off_start, run1) \<and>
               off_start < dyn_size run \<and>
               dyn_size run - dyn_size run' \<le> dyn_size run - off_start - 1"
    by (auto dest: mangle_getOffSet_Inr)
qed

theorem nonempty_preserved_witness:
  "1 \<le> dyn_size run_five \<and> dyn_size run_five \<le> mutate_maxInputSz cfg_small \<and>
   buf_inv cfg_small run_five \<and> wf_cfg cfg_small \<and>
   (\<exists>run'. mangle_Expand cfg_small run_five False = Inr run') \<and>
   mangle_Shrink \<in> set mangleFuncs \<and> 2 < dyn_size run_five \<and>
   mangle_Shrink cfg_small run_five False
     = Inr (run_five\<lparr>dyn_data := [2, 3, 4, 5, 5, 0, 0, 0], dyn_size := 4, drawn := 3\<rparr>) \<and>
   1 \<le> dyn_size (run_five\<lparr>dyn_data := [2, 3, 4, 5, 5, 0, 0, 0], dyn_size := 4, drawn := 3\<rparr>) \<and>
   (\<exists>off_start run1. mangle_getOffSet cfg_small run_five = Inr (off_start, run1) \<and>
      off_start < dyn_size run_five \<and>
      dyn_size run_five
        - dyn_size (run_five\<lparr>dyn_data := [2, 3, 4, 5, 5, 0, 0, 0], dyn_size := 4, drawn := 3\<rparr>)
        \<le> dyn_size run_five - off_start - 1)"
proof -
  have h1: "1 \<le> dyn_size run_five" by (simp add: run_five_def)
  have h2: "dyn_size run_five \<le> mutate_maxInputSz cfg_small"
    by (simp add: run_five_def cfg_small_def)
  have m: "mangle_Shrink \<in> set mangleFuncs" by (simp add: mangleFuncs_def)
  have b: "2 < dyn_size run_five" by (simp add: run_five_def)
  note t = nonempty_preserved [OF h1 h2, of False]
  have w: "buf_inv cfg_small run_five \<and> wf_cfg cfg_small"
    by (simp add: buf_inv_def wf_cfg_def sampler_ok_def cfg_small_def run_five_def)
  have x: "mangle_Expand \<in> set mangleFuncs" by (simp add: mangleFuncs_def)
  from t w x have e: "\<exists>run'. mangle_Expand cfg_small run_five False = Inr run'" by blast
  from t m shrink_run_five
  have a: "1 \<le> dyn_size (run_five\<lparr>dyn_data := [2, 3, 4, 5, 5, 0, 0, 0], dyn_size := 4, drawn := 3\<rparr>)"
    by blast
  from t b shrink_run_five
  have c: "\<exists>off_start run1. mangle_getOffSet cfg_small run_five = Inr (off_start, run1) \<and>
      off_start < dyn_size run_five \<and>
      dyn_size run_five
        - dyn_size (run_five\<lparr>dyn_data := [2, 3, 4, 5, 5, 0, 0, 0], dyn_size := 4, drawn := 3\<rparr>)
        \<le> dyn_size run_five - off_start - 1"
    by blast
  show ?thesis using h1 h2 w e m b a c shrink_run_five by blast
qed

subsection \<open>The bootstrap of an empty input\<close>

text \<open>
  C8. On an empty input, with \<^verbatim>\<open>run->mutationsPerRun\<close> not \<open>0\<close> and a limit of at least one
  byte, \<open>mangle_mangleContent\<close> is one call of \<open>mangle_Resize\<close> followed by what
  \<open>mangle_mangleContent\<close> does on the resized input; the resized input has a size of at
  least \<open>1\<close> (so no second resize takes place), and whenever the whole call returns, the
  size of its result is at least \<open>1\<close>. Moreover the call does return, with a result of size
  at least \<open>1\<close>, when the configuration is well-formed, the length sampler returns on the
  limit, and the mapping holds \<open>maxInputSz\<close> bytes.
\<close>

theorem empty_buffer_bootstrap:
  assumes "dyn_size run = 0" and "mutationsPerRun run \<noteq> 0" and "1 \<le> mutate_maxInputSz g"
  shows "mangle_mangleContent g run slow_factor =
           bindE (mangle_Resize g run (cfg_only_printable g))
             (\<lambda>run1. mangle_mangleContent g run1 slow_factor) \<and>
         (\<forall>run1. mangle_Resize g run (cfg_only_printable g) = Inr run1 \<longrightarrow>
            1 \<le> dyn_size run1 \<and> dyn_size run1 \<le> mutate_maxInputSz g) \<and>
         (\<forall>run'. mangle_mangleContent g run slow_factor = Inr run' \<longrightarrow> 1 \<le> dyn_size run') \<and>
         (wf_cfg g \<and> sampler_ok g (mutate_maxInputSz g) \<and>
          mutate_maxInputSz g \<le> length (dyn_data run) \<longrightarrow>
            (\<exists>run'. mangle_mangleContent g run slow_factor = Inr run' \<and> 1 \<le> dyn_size run'))"
proof (intro conjI allI impI)
  assume "wf_cfg g \<and> sampler_ok g (mutate_maxInputSz g) \<and>
          mutate_maxInputSz g \<le> length (dyn_data run)"
  then show "\<exists>run'. mangle_mangleContent g run slow_factor = Inr run' \<and> 1 \<le> dyn_size run'"
    using mangle_mangleContent_returns [of g run slow_factor] assms by auto
next
  show "mangle_mangleContent g run slow_factor =
           bindE (mangle_Resize g run (cfg_only_printable g))
             (\<lambda>run1. mangle_mangleContent g run1 slow_factor)"
  proof (cases "mangle_Resize g run (cfg_only_printable g)")
    case (Inl e)
    then show ?thesis using assms by (simp add: mangle_mangleContent_def bindE_def)
  next
    case (Inr run1)
    have "1 \<le> dyn_size run1" using mangle_Resize_Inr [OF Inr] assms(3) by simp
    moreover have "mutationsPerRun run1 \<noteq> 0"
      using mangle_Resize_Inr [OF Inr] assms(2) by simp
    ultimately show ?thesis using Inr assms by (simp add: mangle_mangleContent_def bindE_def)
  qed
next
  fix run1 assume "mangle_Resize g run (cfg_only_printable g) = Inr run1"
  then show "1 \<le> dyn_size run1" "dyn_size run1 \<le> mutate_maxInputSz g"
    using assms(3) by (auto dest: mangle_Resize_Inr)
next
  fix run' assume r: "mangle_mangleContent g run slow_factor = Inr run'"
  from mangle_mangleContent_Inr [OF r] assms obtain run1 where
    b: "mangle_Resize g run (cfg_only_printable g) = Inr run1" and s: "size_safe g run1 run'"
    by auto
  have "1 \<le> dyn_size run1" "dyn_size run1 \<le> mutate_maxInputSz g"
    using mangle_Resize_Inr [OF b] assms(3) by simp_all
  then show "1 \<le> dyn_size run'" using s by (simp add: size_safe_def)
qed

theorem empty_buffer_bootstrap_witness:
  "dyn_size run_empty = 0 \<and> mutationsPerRun run_empty \<noteq> 0 \<and>
   1 \<le> mutate_maxInputSz cfg_printable \<and>
   wf_cfg cfg_printable \<and> sampler_ok cfg_printable (mutate_maxInputSz cfg_printable) \<and>
   mutate_maxInputSz cfg_printable \<le> length (dyn_data run_empty) \<and>
   (\<exists>run'. mangle_mangleContent cfg_printable run_empty 12 = Inr run' \<and> 1 \<le> dyn_size run') \<and>
   mangle_Resize cfg_printable run_empty (cfg_only_printable cfg_printable)
     = Inr (run_empty\<lparr>dyn_data := [32, 32, 32, 0, 0, 0, 0, 0], dyn_size := 3, drawn := 2\<rparr>) \<and>
   mangle_mangleContent cfg_printable run_empty 0
     = Inr (run_empty\<lparr>dyn_data := [65, 32, 32, 0, 0, 0, 0, 0], dyn_size := 3, drawn := 6\<rparr>) \<and>
   mangle_mangleContent cfg_printable
       (run_empty\<lparr>dyn_data := [32, 32, 32, 0, 0, 0, 0, 0], dyn_size := 3, drawn := 2\<rparr>) 0
     = Inr (run_empty\<lparr>dyn_data := [65, 32, 32, 0, 0, 0, 0, 0], dyn_size := 3, drawn := 6\<rparr>) \<and>
   1 \<le> dyn_size (run_empty\<lparr>dyn_data := [65, 32, 32, 0, 0, 0, 0, 0], dyn_size := 3, drawn := 6\<rparr>)"
proof -
  have h1: "dyn_size run_empty = 0" by (simp add: run_empty_def)
  have h2: "mutationsPerRun run_empty \<noteq> 0" by (simp add: run_empty_def)
  have h3: "1 \<le> mutate_maxInputSz cfg_printable" by (simp add: cfg_printable_def)
  have p: "cfg_only_printable cfg_printable" by (simp add: cfg_printable_def)
  note t = empty_buffer_bootstrap [OF h1 h2 h3, of 0]
  have w: "wf_cfg cfg_printable \<and> sampler_ok cfg_printable (mutate_maxInputSz cfg_printable) \<and>
      mutate_maxInputSz cfg_printable \<le> length (dyn_data run_empty)"
    by (simp add: wf_cfg_def sampler_ok_def cfg_printable_def run_empty_def)
  from empty_buffer_bootstrap [OF h1 h2 h3, of 12] w
  have e: "\<exists>run'. mangle_mangleContent cfg_printable run_empty 12 = Inr run' \<and> 1 \<le> dyn_size run'"
    by blast
  have r: "mangle_Resize cfg_printable run_empty (cfg_only_printable cfg_printable)
     = Inr (run_empty\<lparr>dyn_data := [32, 32, 32, 0, 0, 0, 0, 0], dyn_size := 3, drawn := 2\<rparr>)"
    using resize_run_empty p by simp
  from t have "mangle_mangleContent cfg_printable run_empty 0 =
           bindE (mangle_Resize cfg_printable run_empty (cfg_only_printable cfg_printable))
             (\<lambda>run1. mangle_mangleContent cfg_printable run1 0)" by blast
  then have c: "mangle_mangleContent cfg_printable
       (run_empty\<lparr>dyn_data := [32, 32, 32, 0, 0, 0, 0, 0], dyn_size := 3, drawn := 2\<rparr>) 0
     = Inr (run_empty\<lparr>dyn_data := [65, 32, 32, 0, 0, 0, 0, 0], dyn_size := 3, drawn := 6\<rparr>)"
    unfolding r mangleContent_run_empty by (simp add: bindE_def)
  from t mangleContent_run_empty
  have d: "1 \<le> dyn_size (run_empty\<lparr>dyn_data := [65, 32, 32, 0, 0, 0, 0, 0], dyn_size := 3, drawn := 6\<rparr>)"
    by blast
  show ?thesis using h1 h2 h3 w e r c d mangleContent_run_empty by blast
qed

subsection \<open>The dictionary operators without a dictionary\<close>

text \<open>With \<^verbatim>\<open>dictionaryCnt == 0\<close> the two dictionary operators are the two byte operators,
  on every state and so on every state of the random number source.\<close>

lemma dictionary_fall_through_eq:
  assumes "mutate_dictionaryCnt g = 0"
  shows "mangle_DictionaryInsert g run printable = mangle_BytesInsert g run printable"
    and "mangle_DictionaryOverwrite g run printable = mangle_BytesOverwrite g run printable"
  using assms by (simp_all add: mangle_DictionaryInsert_def mangle_DictionaryOverwrite_def)

text \<open>On a non-empty input of a size \<open>n\<close> with \<open>n ^ 3 < 2 ^ 64\<close> both return: the insert with
  an input grown by \<open>1\<close> or \<open>2\<close> bytes, cut to the room that is left below \<open>maxInputSz\<close>,
  the overwrite with an input of the same size.\<close>

lemma dictionary_fall_through_returns:
  assumes "mutate_dictionaryCnt g = 0" and "1 \<le> dyn_size run"
    and "sampler_ok g (dyn_size run)" and "dyn_size run \<le> length (dyn_data run)"
  shows "\<exists>run'. mangle_DictionaryOverwrite g run printable = Inr run' \<and>
           dyn_size run' = dyn_size run"
    and "dyn_size run \<le> mutate_maxInputSz g \<Longrightarrow> mutate_maxInputSz g \<le> length (dyn_data run) \<Longrightarrow>
         \<exists>run' k. mangle_DictionaryInsert g run printable = Inr run' \<and> (k = 1 \<or> k = 2) \<and>
           dyn_size run' = dyn_size run + min k (mutate_maxInputSz g - dyn_size run)"
proof -
  show "\<exists>run'. mangle_DictionaryOverwrite g run printable = Inr run' \<and>
           dyn_size run' = dyn_size run"
    unfolding dictionary_fall_through_eq(2) [OF assms(1)]
    using mangle_BytesOverwrite_ok [OF assms(2,3,4), of printable] by blast
  assume "dyn_size run \<le> mutate_maxInputSz g" "mutate_maxInputSz g \<le> length (dyn_data run)"
  then show "\<exists>run' k. mangle_DictionaryInsert g run printable = Inr run' \<and> (k = 1 \<or> k = 2) \<and>
           dyn_size run' = dyn_size run + min k (mutate_maxInputSz g - dyn_size run)"
    unfolding dictionary_fall_through_eq(1) [OF assms(1)]
    using mangle_BytesInsert_ok [OF assms(2,3), of printable] by blast
qed

text \<open>A run of the insert: the two bytes drawn first go in at the offset drawn second.\<close>

lemma dictionaryInsert_run_five_drawn:
  "mangle_DictionaryInsert cfg_small run_five_drawn False
     = Inr (run_five_drawn\<lparr>dyn_data := [1, 2, 170, 187, 3, 4, 5, 0], dyn_size := 7, drawn := 3\<rparr>)"
  by (simp add: mangle_DictionaryInsert_def mangle_BytesInsert_def rnd_u16_buf_def
      bytes_of_u16_def eval_defs cfg_small_def run_five_drawn_def)

text \<open>
  C9. The claim is that with \<^verbatim>\<open>dictionaryCnt == 0\<close> \<open>mangle_DictionaryInsert\<close> behaves as
  \<open>mangle_BytesInsert\<close> and \<open>mangle_DictionaryOverwrite\<close> as \<open>mangle_BytesOverwrite\<close>, and
  that neither aborts. The operators are equal, but they abort: each draws its offset with
  \<open>mangle_getOffSet\<close>, which is \<open>mangle_getLen\<close> at the size of the input, and on an input
  of \<open>4194304\<close> bytes the cube of the size wraps to \<open>0\<close> in 64 bits, so that the division
  in \<open>mangle_getLen\<close> is by zero. The configuration has no dictionary and the limits of the
  distribution; the input is within \<open>maxInputSz\<close> and the mapping holds \<open>maxInputSz\<close> bytes.
\<close>

theorem dictionary_fall_through_aborts:
  "mutate_dictionaryCnt cfg_large = 0 \<and>
   dyn_size run_4MiB \<le> mutate_maxInputSz cfg_large \<and>
   mutate_maxInputSz cfg_large \<le> length (dyn_data run_4MiB) \<and>
   mangle_DictionaryInsert cfg_large run_4MiB False = Inl DivByZero \<and>
   mangle_BytesInsert cfg_large run_4MiB False = Inl DivByZero \<and>
   mangle_DictionaryOverwrite cfg_large run_4MiB False = Inl DivByZero \<and>
   mangle_BytesOverwrite cfg_large run_4MiB False = Inl DivByZero"
  by (simp add: mangle_DictionaryInsert_def mangle_DictionaryOverwrite_def
      mangle_BytesInsert_def mangle_BytesOverwrite_def rnd_u16_buf_def util_rnd64_def
      mangle_getOffSet_def mangle_getLen_def cfg_large_def run_4MiB_def util_rndGet_def
      next_entropy_def bindE_def Let_def)

subsection \<open>The dispatcher with mutation switched off\<close>

text \<open>
  C7. When \<^verbatim>\<open>run->mutationsPerRun\<close> is \<open>0\<close>, \<open>mangle_mangleContent\<close> returns at once:
  the call returns, and the state it returns is the state it was given, so the size, every
  byte of the data and even the entropy source are untouched.
\<close>

theorem mangleContent_disabled:
  "mutationsPerRun run = 0 \<Longrightarrow> mangle_mangleContent g run slow_factor = Inr run"
  by (simp add: mangle_mangleContent_def)

theorem mangleContent_disabled_witness:
  "mutationsPerRun run_disabled = 0 \<and>
   mangle_mangleContent cfg_large run_disabled 7 = Inr run_disabled \<and>
   dyn_size run_disabled = 3 \<and> take 3 (dyn_data run_disabled) = [97, 98, 99]"
proof -
  have h: "mutationsPerRun run_disabled = 0" by (simp add: run_disabled_def)
  show ?thesis
    using h mangleContent_disabled [OF h, of cfg_large 7] by (simp add: run_disabled_def)
qed

end
